theory Spec2Isabelle
  imports Complex_Main "HOL-Library.Char_ord" "HOL-Library.List_Lexorder" "HOL-Library.Multiset"
begin

section \<open>Python values, exceptions and list primitives\<close>

text \<open>
  The module \<^verbatim>\<open>src/lib/NQobj.py\<close> is dynamically typed: the arguments \<^verbatim>\<open>names\<close>,
  \<^verbatim>\<open>kind\<close>, \<^verbatim>\<open>order\<close> and \<^verbatim>\<open>sel\<close> are inspected with \<^verbatim>\<open>type(x) == list\<close>,
  \<^verbatim>\<open>type(i) == str\<close> and \<^verbatim>\<open>type(i) == int\<close>. Such arguments are values of \<open>pyval\<close>.
  Every \<^verbatim>\<open>raise\<close> of the module (and every exception of a list primitive it calls)
  is a value \<open>Inl e\<close> of the result type \<open>error + 'a\<close>; the string is the message.
\<close>

datatype error =
    AttributeError string
  | ValueError string
  | TypeError string
  | AssertionError string
  | IndexError string
  | UnboundLocalError string
  | BackendError string

datatype pyval = PNone | PStr string | PInt int | PList "pyval list"

definition bindE :: "error + 'a \<Rightarrow> ('a \<Rightarrow> error + 'b) \<Rightarrow> error + 'b" where
  "bindE m f = (case m of Inl e \<Rightarrow> Inl e | Inr v \<Rightarrow> f v)"

fun is_list :: "pyval \<Rightarrow> bool" where
  "is_list (PList xs) = True"
| "is_list v = False"

fun is_str :: "pyval \<Rightarrow> bool" where
  "is_str (PStr s) = True"
| "is_str v = False"

fun is_int :: "pyval \<Rightarrow> bool" where
  "is_int (PInt i) = True"
| "is_int v = False"

fun str_of :: "pyval \<Rightarrow> string" where
  "str_of (PStr s) = s"
| "str_of v = []"

fun int_of :: "pyval \<Rightarrow> int" where
  "int_of (PInt i) = i"
| "int_of v = 0"

fun items_of :: "pyval \<Rightarrow> pyval list" where
  "items_of (PList xs) = xs"
| "items_of v = []"

text \<open>\<^verbatim>\<open>list(dict.fromkeys(xs))\<close>: duplicates removed, the first occurrence kept.\<close>

fun fromkeys :: "'a list \<Rightarrow> 'a list" where
  "fromkeys [] = []"
| "fromkeys (x # xs) = x # fromkeys (filter (\<lambda>y. y \<noteq> x) xs)"

text \<open>\<^verbatim>\<open>xs.index(x)\<close>: the first position of \<open>x\<close>, or ValueError.\<close>

fun list_index :: "'a list \<Rightarrow> 'a \<Rightarrow> nat option" where
  "list_index [] x = None"
| "list_index (y # ys) x = (if y = x then Some 0 else map_option Suc (list_index ys x))"

definition py_index :: "string list \<Rightarrow> string \<Rightarrow> error + nat" where
  "py_index xs x =
     (case list_index xs x of
        None \<Rightarrow> Inl (ValueError ''x is not in list'')
      | Some i \<Rightarrow> Inr i)"

text \<open>\<^verbatim>\<open>xs[i]\<close> for a Python int: a negative index counts from the end, an index out
  of range raises IndexError.\<close>

definition py_getitem :: "'a list \<Rightarrow> int \<Rightarrow> error + 'a" where
  "py_getitem xs i =
     (if 0 \<le> i \<and> i < int (length xs) then Inr (xs ! nat i)
      else if i < 0 \<and> - int (length xs) \<le> i then Inr (xs ! nat (int (length xs) + i))
      else Inl (IndexError ''list index out of range''))"

text \<open>\<^verbatim>\<open>[f(x) for x in xs]\<close> where \<open>f\<close> may raise: the first exception ends the loop.\<close>

fun mapE :: "('a \<Rightarrow> error + 'b) \<Rightarrow> 'a list \<Rightarrow> error + 'b list" where
  "mapE f [] = Inr []"
| "mapE f (x # xs) = bindE (f x) (\<lambda>y. bindE (mapE f xs) (\<lambda>ys. Inr (y # ys)))"

section \<open>The backend object and the named tensor\<close>

text \<open>
  \<^verbatim>\<open>qt.Qobj\<close> belongs to the QuTiP library, not to this module. What the module reads
  of it is its \<^verbatim>\<open>data\<close> (opaque, the type variable \<open>'d\<close>) and its \<^verbatim>\<open>dims\<close>, the two
  lists of mode dimensions.
\<close>

record 'd Qobj =
  data :: 'd
  dims :: "nat list \<times> nat list"

datatype kind = Oper | State

text \<open>
  \<^verbatim>\<open>class NQobj(qt.Qobj)\<close>: the backend object with the attribute \<^verbatim>\<open>names\<close> (always
  stored as two lists of strings) and the attribute \<^verbatim>\<open>kind\<close>. The constructor can
  finish without setting \<^verbatim>\<open>kind\<close> (lines 73-84, when no kind is given and the object
  is neither ket, bra nor oper); \<open>kind = None\<close> is that state, and reading the attribute
  then raises AttributeError.
\<close>

record 'd NQobj =
  qobj :: "'d Qobj"
  names :: "string list \<times> string list"
  kind :: "kind option"

definition get_kind :: "'d NQobj \<Rightarrow> error + kind" where
  "get_kind x =
     (case kind x of
        None \<Rightarrow> Inl (AttributeError ''NQobj object has no attribute kind'')
      | Some k \<Rightarrow> Inr k)"

text \<open>The property \<^verbatim>\<open>shape_dims\<close> (lines 318-322).\<close>

definition shape_dims :: "'d Qobj \<Rightarrow> nat \<times> nat" where
  "shape_dims q = (length (fst (dims q)), length (snd (dims q)))"

text \<open>
  \<^verbatim>\<open>_dim_of_name\<close> (lines 293-305). Only the ValueError of \<^verbatim>\<open>index\<close> is caught; the
  IndexError of \<^verbatim>\<open>self.dims[0][index_0]\<close> (a dims list shorter than the names) is not.
\<close>

definition dim_on_axis :: "nat list \<Rightarrow> string list \<Rightarrow> string \<Rightarrow> error + nat option" where
  "dim_on_axis ds ns name =
     (case list_index ns name of
        None \<Rightarrow> Inr None
      | Some i \<Rightarrow>
          if i < length ds then Inr (Some (ds ! i))
          else Inl (IndexError ''list index out of range''))"

definition dim_of_name :: "'d NQobj \<Rightarrow> string \<Rightarrow> error + (nat option \<times> nat option)" where
  "dim_of_name x name =
     bindE (dim_on_axis (fst (dims (qobj x))) (fst (names x)) name) (\<lambda>dim_0.
     bindE (dim_on_axis (snd (dims (qobj x))) (snd (names x)) name) (\<lambda>dim_1.
     Inr (dim_0, dim_1)))"

section \<open>Name resolution for multiplication and addition\<close>

text \<open>
  The two list comprehensions of \<^verbatim>\<open>_mul_find_required_names\<close> (lines 446-447):
  \<^verbatim>\<open>[name for name in Q.names[i] if not Q._dim_of_name(name)[i] == 1]\<close>, with
  \<open>i = 0\<close> for the right operand and \<open>i = 1\<close> for the left operand.
\<close>

fun names_for_overlap :: "'d NQobj \<Rightarrow> bool \<Rightarrow> string list \<Rightarrow> error + string list" where
  "names_for_overlap Q col [] = Inr []"
| "names_for_overlap Q col (name # rest) =
     bindE (dim_of_name Q name) (\<lambda>d.
     bindE (names_for_overlap Q col rest) (\<lambda>r.
     Inr (if (if col then snd d else fst d) = Some 1 then r else name # r)))"

definition names_Q_right_for_overlap :: "'d NQobj \<Rightarrow> error + string list" where
  "names_Q_right_for_overlap Q_right = names_for_overlap Q_right False (fst (names Q_right))"

definition names_Q_left_for_overlap :: "'d NQobj \<Rightarrow> error + string list" where
  "names_Q_left_for_overlap Q_left = names_for_overlap Q_left True (snd (names Q_left))"

text \<open>
  The variable \<^verbatim>\<open>overlap\<close> (lines 450-454). \<^verbatim>\<open>Q_right.kind\<close> is read first, and
  \<^verbatim>\<open>Q_left.kind\<close> only when the right kind is \<^verbatim>\<open>'state'\<close> (\<^verbatim>\<open>and\<close> short-circuits).
\<close>

definition mul_overlap :: "'d NQobj \<Rightarrow> 'd NQobj \<Rightarrow> error + string list" where
  "mul_overlap Q_left Q_right =
     bindE (names_Q_right_for_overlap Q_right) (\<lambda>nr.
     bindE (names_Q_left_for_overlap Q_left) (\<lambda>nl.
     bindE (get_kind Q_right) (\<lambda>kr.
       if kr = State then
         bindE (get_kind Q_left) (\<lambda>kl.
           if kl = Oper then Inr (fromkeys (nr @ nl)) else Inr (fromkeys (nl @ nr)))
       else Inr (fromkeys (nl @ nr)))))"

text \<open>\<^verbatim>\<open>_mul_find_required_names\<close> (lines 443-461): the pair
  \<^verbatim>\<open>(names_Q_left, names_Q_right)\<close>, each a pair of name lists.\<close>

definition mul_find_required_names ::
  "'d NQobj \<Rightarrow> 'd NQobj \<Rightarrow>
     error + ((string list \<times> string list) \<times> (string list \<times> string list))" where
  "mul_find_required_names Q_left Q_right =
     bindE (mul_overlap Q_left Q_right) (\<lambda>overlap.
     Inr ((fromkeys (overlap @ fst (names Q_left)), fromkeys (overlap @ snd (names Q_left))),
          (fromkeys (overlap @ fst (names Q_right)), fromkeys (overlap @ snd (names Q_right)))))"

text \<open>\<^verbatim>\<open>_add_find_required_names\<close> (lines 463-466).\<close>

definition add_find_required_names ::
  "'d NQobj \<Rightarrow> 'd NQobj \<Rightarrow> string list \<times> string list" where
  "add_find_required_names Q_left Q_right =
     (fromkeys (fst (names Q_left) @ fst (names Q_right)),
      fromkeys (snd (names Q_left) @ snd (names Q_right)))"

section \<open>The tensor backend\<close>

text \<open>
  Everything the module calls in QuTiP is a field of the record \<open>backend\<close>: the
  structural predicates of a \<^verbatim>\<open>Qobj\<close>, the methods reached through \<^verbatim>\<open>super()\<close>, the
  constructors \<^verbatim>\<open>qeye\<close> and \<^verbatim>\<open>basis\<close>, \<^verbatim>\<open>qt.tensor\<close>, the private \<^verbatim>\<open>_permute\<close>, the
  sparse index remapping (\<^verbatim>\<open>tocoo\<close>, \<^verbatim>\<open>cy_index_permute\<close> on rows and on columns,
  \<^verbatim>\<open>arr_coo2fast\<close>) and the setting \<^verbatim>\<open>auto_tidyup\<close>. A backend call that can raise
  returns \<open>error + _\<close>. \<^verbatim>\<open>qeye\<close> and \<^verbatim>\<open>basis\<close> receive what the module passes, which
  can be \<^verbatim>\<open>None\<close>.

  The last two fields belong to the Python runtime. \<open>set_order xs\<close> is the order in
  which \<^verbatim>\<open>set(xs)\<close> is iterated, and \<open>set_diff_order xs ys\<close> is
  \<^verbatim>\<open>list(set(xs) - set(ys))\<close>. The language leaves both orders open. In CPython they
  follow from the hashes of the strings and from the order in which the set was filled,
  so within one run they are functions of the lists the sets are built from, and two
  lists with the same elements can give two different orders.
\<close>

record 'd backend =
  b_type :: "'d Qobj \<Rightarrow> string"
  b_isket :: "'d Qobj \<Rightarrow> bool"
  b_isbra :: "'d Qobj \<Rightarrow> bool"
  b_isoper :: "'d Qobj \<Rightarrow> bool"
  b_isherm :: "'d Qobj \<Rightarrow> bool"
  b_shape :: "'d Qobj \<Rightarrow> nat \<times> nat"
  b_copy :: "'d Qobj \<Rightarrow> 'd Qobj"
  b_add :: "'d Qobj \<Rightarrow> 'd Qobj \<Rightarrow> error + 'd Qobj"
  b_mul :: "'d Qobj \<Rightarrow> 'd Qobj \<Rightarrow> error + 'd Qobj"
  b_mul_number :: "'d Qobj \<Rightarrow> complex \<Rightarrow> error + 'd Qobj"
  b_neg :: "'d Qobj \<Rightarrow> error + 'd Qobj"
  b_pow :: "'d Qobj \<Rightarrow> pyval \<Rightarrow> pyval \<Rightarrow> error + 'd Qobj"
  b_dag :: "'d Qobj \<Rightarrow> error + 'd Qobj"
  b_trans :: "'d Qobj \<Rightarrow> error + 'd Qobj"
  b_proj :: "'d Qobj \<Rightarrow> error + 'd Qobj"
  b_unit :: "'d Qobj \<Rightarrow> pyval list \<Rightarrow> error + 'd Qobj"
  b_expm :: "'d Qobj \<Rightarrow> error + 'd Qobj"
  b_ptrace :: "'d Qobj \<Rightarrow> int list \<Rightarrow> error + 'd Qobj"
  b_tensor :: "'d Qobj list \<Rightarrow> error + 'd Qobj"
  b_qeye :: "nat option \<Rightarrow> error + 'd Qobj"
  b_basis :: "nat option \<Rightarrow> error + 'd Qobj"
  b_eq :: "'d Qobj \<Rightarrow> 'd Qobj \<Rightarrow> bool"
  b_tidyup :: "'d Qobj \<Rightarrow> 'd Qobj"
  auto_tidyup :: bool
  b_permute :: "'d Qobj \<Rightarrow> pyval \<Rightarrow> error + ('d \<times> (nat list \<times> nat list))"
  b_index_permute :: "'d \<Rightarrow> nat list \<Rightarrow> int list \<Rightarrow> nat list \<Rightarrow> int list \<Rightarrow> error + 'd"
  set_order :: "string list \<Rightarrow> string list"
  set_diff_order :: "string list \<Rightarrow> string list \<Rightarrow> string list"

section \<open>Construction\<close>

definition names_val :: "string list \<times> string list \<Rightarrow> pyval" where
  "names_val ns = PList [PList (map PStr (fst ns)), PList (map PStr (snd ns))]"

fun kind_val :: "kind \<Rightarrow> pyval" where
  "kind_val Oper = PStr ''oper''"
| "kind_val State = PStr ''state''"

text \<open>
  Lines 47-71 of \<^verbatim>\<open>__init__\<close>: the argument \<^verbatim>\<open>names\<close> brought to the two-list form and
  checked against \<^verbatim>\<open>shape_dims\<close>. \<^verbatim>\<open>len(xs) != len(set(xs))\<close> is \<open>\<not> distinct xs\<close>.
\<close>

definition init_names :: "'d Qobj \<Rightarrow> pyval \<Rightarrow> error + (string list \<times> string list)" where
  "init_names q nms =
     (case nms of
        PNone \<Rightarrow> Inl (AttributeError ''names is a compulsary attribute.'')
      | PList ns \<Rightarrow>
          if length ns = 2 \<and> is_list (ns ! 0) \<and> is_list (ns ! 1) then
            (let n0 = items_of (ns ! 0); n1 = items_of (ns ! 1) in
             if \<not> list_all is_str (n0 @ n1) then Inl (ValueError ''A name must be a string.'')
             else if \<not> distinct n0 \<or> \<not> distinct n1 then
               Inl (ValueError ''Do not use duplicate names.'')
             else if (length n0, length n1) \<noteq> shape_dims q then
               Inl (ValueError ''The number of names must match the shape_dims.'')
             else Inr (map str_of n0, map str_of n1))
          else
            if \<not> list_all is_str ns then Inl (ValueError ''A name must be a string.'')
            else if \<not> distinct ns then Inl (ValueError ''Do not use duplicate names.'')
            else if \<not> (length ns = fst (shape_dims q) \<and> length ns = snd (shape_dims q)) then
              Inl (ValueError ''The number of names must match the shape_dims.'')
            else Inr (map str_of ns, map str_of ns)
      | PStr s \<Rightarrow>
          if shape_dims q \<noteq> (1, 1) then
            Inl (ValueError ''Names can only be a string if there shape_dims is (1, 1).'')
          else Inr ([s], [s])
      | PInt i \<Rightarrow> Inl (TypeError ''names should be a string or 1d or 2d list ''))"

text \<open>
  Lines 73-84: the kind. With no kind given, \<^verbatim>\<open>'state'\<close> is set for a ket or a bra, and
  then, in a second \<^verbatim>\<open>if\<close>, an oper either raises or sets \<^verbatim>\<open>'oper'\<close>. An object that is
  none of the three leaves without the attribute.
\<close>

definition init_kind ::
  "'d backend \<Rightarrow> 'd Qobj \<Rightarrow> string list \<times> string list \<Rightarrow> pyval \<Rightarrow> error + kind option" where
  "init_kind B q ns k =
     (if k = PStr ''oper'' then Inr (Some Oper)
      else if k = PStr ''state'' then Inr (Some State)
      else if k = PNone then
        (let k1 = (if b_isket B q \<or> b_isbra B q then Some State else None) in
         if b_isoper B q then
           (if set (fst ns) = set (snd ns) \<and> sort (fst (dims q)) = sort (snd (dims q))
               \<and> b_isherm B q
            then Inl (ValueError
              ''The kind cannot be determined automatically and should be provedid as kw (oper or state)'')
            else Inr (Some Oper))
         else Inr k1)
      else Inl (ValueError ''kind can only be oper, state, None''))"

text \<open>
  \<^verbatim>\<open>NQobj(q, names=..., kind=...)\<close> for a backend object \<open>q\<close>. \<^verbatim>\<open>super().__init__\<close>
  wraps the object it is given; the model keeps that object.
\<close>

definition NQobj_init :: "'d backend \<Rightarrow> 'd Qobj \<Rightarrow> pyval \<Rightarrow> pyval \<Rightarrow> error + 'd NQobj" where
  "NQobj_init B q nms k =
     bindE (init_names q nms) (\<lambda>ns.
     bindE (init_kind B q ns k) (\<lambda>kd.
     Inr \<lparr>qobj = q, names = ns, kind = kd\<rparr>))"

text \<open>Lines 37-41: an NQobj given as the first argument lends its names when none
  are given.\<close>

definition NQobj_init_from :: "'d backend \<Rightarrow> 'd NQobj \<Rightarrow> pyval \<Rightarrow> pyval \<Rightarrow> error + 'd NQobj" where
  "NQobj_init_from B x nms k =
     NQobj_init B (qobj x) (if nms = PNone then names_val (names x) else nms) k"

section \<open>Operations that wrap one backend call\<close>

text \<open>\<^verbatim>\<open>NQobj(super().op(...), names=ns, kind=self.kind)\<close>: the backend call comes first,
  then the attribute \<^verbatim>\<open>kind\<close> is read, then the constructor runs.\<close>

definition rewrap ::
  "'d backend \<Rightarrow> 'd NQobj \<Rightarrow> error + 'd Qobj \<Rightarrow> string list \<times> string list \<Rightarrow> error + 'd NQobj" where
  "rewrap B self r ns =
     bindE r (\<lambda>q.
     bindE (get_kind self) (\<lambda>k.
     NQobj_init B q (names_val ns) (kind_val k)))"

definition copy :: "'d backend \<Rightarrow> 'd NQobj \<Rightarrow> error + 'd NQobj" where
  "copy B self = rewrap B self (Inr (b_copy B (qobj self))) (names self)"

definition NQobj_neg :: "'d backend \<Rightarrow> 'd NQobj \<Rightarrow> error + 'd NQobj" where
  "NQobj_neg B self = rewrap B self (b_neg B (qobj self)) (names self)"

definition NQobj_pow :: "'d backend \<Rightarrow> 'd NQobj \<Rightarrow> pyval \<Rightarrow> pyval \<Rightarrow> error + 'd NQobj" where
  "NQobj_pow B self n m = rewrap B self (b_pow B (qobj self) n m) (names self)"

definition dag :: "'d backend \<Rightarrow> 'd NQobj \<Rightarrow> error + 'd NQobj" where
  "dag B self = rewrap B self (b_dag B (qobj self)) (snd (names self), fst (names self))"

definition trans_op :: "'d backend \<Rightarrow> 'd NQobj \<Rightarrow> error + 'd NQobj" where
  "trans_op B self = rewrap B self (b_trans B (qobj self)) (snd (names self), fst (names self))"

definition proj :: "'d backend \<Rightarrow> 'd NQobj \<Rightarrow> error + 'd NQobj" where
  "proj B self =
     bindE (b_proj B (qobj self)) (\<lambda>q. NQobj_init B q (names_val (names self)) (PStr ''oper''))"

definition unit_op :: "'d backend \<Rightarrow> 'd NQobj \<Rightarrow> pyval list \<Rightarrow> error + 'd NQobj" where
  "unit_op B self args = rewrap B self (b_unit B (qobj self) args) (names self)"

text \<open>\<^verbatim>\<open>__eq__\<close> (lines 181-187).\<close>

definition NQobj_eq :: "'d backend \<Rightarrow> 'd NQobj \<Rightarrow> 'd NQobj \<Rightarrow> bool" where
  "NQobj_eq B self other =
     (let same_Qobj = b_eq B (qobj self) (qobj other);
          same_names = (names self = names other)
      in same_Qobj \<and> same_names)"

text \<open>\<^verbatim>\<open>tensor(*args)\<close> (lines 347-358): the names are concatenated, then
  \<^verbatim>\<open>qt.tensor\<close> runs, then the kinds are compared with \<^verbatim>\<open>kinds[0]\<close>.\<close>

definition tensor :: "'d backend \<Rightarrow> 'd NQobj list \<Rightarrow> error + 'd NQobj" where
  "tensor B args =
     (let ns = (concat (map (\<lambda>a. fst (names a)) args), concat (map (\<lambda>a. snd (names a)) args)) in
      bindE (b_tensor B (map qobj args)) (\<lambda>q.
      bindE (mapE get_kind args) (\<lambda>kinds.
        case kinds of
          [] \<Rightarrow> Inl (IndexError ''index 0 is out of bounds for axis 0 with size 0'')
        | k0 # ks \<Rightarrow>
            if \<not> list_all (\<lambda>k. k = k0) kinds then
              Inl (AttributeError ''For tensor product the kind of all NQobj should be the same.'')
            else NQobj_init B q (names_val ns) (kind_val k0))))"

section \<open>Permutation by name\<close>

text \<open>\<^verbatim>\<open>len(order) == 2 and all(type(i) == list for i in order) and
  all(type(i) == T for i in order[0] + order[1])\<close>, for the items of a list.\<close>

definition is_pair_of :: "(pyval \<Rightarrow> bool) \<Rightarrow> pyval list \<Rightarrow> bool" where
  "is_pair_of T os =
     (length os = 2 \<and> list_all is_list os \<and> list_all T (items_of (os ! 0) @ items_of (os ! 1)))"

text \<open>The branch of \<^verbatim>\<open>_permute2\<close> that does not use QuTiP (lines 429-439): the
  coordinates are remapped by the backend, then \<^verbatim>\<open>new_dims\<close> is read off the orders.\<close>

definition permute_manual ::
  "'d backend \<Rightarrow> 'd Qobj \<Rightarrow> int list \<Rightarrow> int list \<Rightarrow> error + ('d \<times> (nat list \<times> nat list))" where
  "permute_manual B q o0 o1 =
     bindE (b_index_permute B (data q) (fst (dims q)) o0 (snd (dims q)) o1) (\<lambda>d.
     bindE (mapE (py_getitem (fst (dims q))) o0) (\<lambda>d0.
     bindE (mapE (py_getitem (snd (dims q))) o1) (\<lambda>d1.
     Inr (d, (d0, d1)))))"

text \<open>
  \<^verbatim>\<open>_permute2\<close> (lines 396-439). \<^verbatim>\<open>use_qutip\<close> is assigned only inside
  \<^verbatim>\<open>if type(order) == list\<close>, and for a ket or a bra only when the order has one of
  the two accepted forms: otherwise \<^verbatim>\<open>if use_qutip\<close> raises UnboundLocalError.
\<close>

definition permute2 ::
  "'d backend \<Rightarrow> 'd NQobj \<Rightarrow> pyval \<Rightarrow> error + ('d \<times> (nat list \<times> nat list))" where
  "permute2 B Q order =
     (let q = qobj Q;
          equal_dims = (fst (dims q) = snd (dims q));
          os = items_of order;
          unbound = Inl (UnboundLocalError ''local variable use_qutip referenced before assignment'')
      in
      if is_list order then
        if b_isoper B q then
          if equal_dims \<and> list_all is_int os then b_permute B q order
          else if is_pair_of is_int os then
            permute_manual B q (map int_of (items_of (os ! 0))) (map int_of (items_of (os ! 1)))
          else Inl (TypeError ''Order should be a list of int or a list of two list with int.'')
        else if b_isbra B q \<or> b_isket B q then
          if list_all is_int os then b_permute B q order
          else if is_pair_of is_int os then
            permute_manual B q (map int_of (items_of (os ! 0))) (map int_of (items_of (os ! 1)))
          else unbound
        else
          b_permute B q (if is_pair_of is_int os \<and> os ! 0 = os ! 1 then os ! 0 else order)
      else unbound)"

text \<open>\<^verbatim>\<open>len(order)\<close>, \<^verbatim>\<open>order[k]\<close> and \<^verbatim>\<open>for i in order\<close> on a Python value.\<close>

fun py_len :: "pyval \<Rightarrow> error + nat" where
  "py_len (PList xs) = Inr (length xs)"
| "py_len (PStr s) = Inr (length s)"
| "py_len v = Inl (TypeError ''object has no len()'')"

fun py_iter :: "pyval \<Rightarrow> error + pyval list" where
  "py_iter (PList xs) = Inr xs"
| "py_iter (PStr s) = Inr (map (\<lambda>c. PStr [c]) s)"
| "py_iter v = Inl (TypeError ''object is not iterable'')"

fun py_subscript :: "pyval \<Rightarrow> nat \<Rightarrow> error + pyval" where
  "py_subscript (PList xs) k = py_getitem xs (int k)"
| "py_subscript (PStr s) k = py_getitem (map (\<lambda>c. PStr [c]) s) (int k)"
| "py_subscript v k = Inl (TypeError ''object is not subscriptable'')"

text \<open>\<^verbatim>\<open>self.names[k][i]\<close> for a Python value \<open>i\<close>.\<close>

fun name_at :: "string list \<Rightarrow> pyval \<Rightarrow> error + string" where
  "name_at ns (PInt i) = py_getitem ns i"
| "name_at ns v = Inl (TypeError ''list indices must be integers or slices'')"

text \<open>Lines 247-254 of \<^verbatim>\<open>permute\<close>: a flat list of names becomes a flat list of
  positions when both axes carry the same names, and a pair of the list otherwise.\<close>

definition permute_flat :: "'d NQobj \<Rightarrow> pyval \<Rightarrow> error + pyval" where
  "permute_flat self order =
     (if is_list order \<and> list_all is_str (items_of order) then
        if fst (names self) = snd (names self) then
          bindE (mapE (\<lambda>n. py_index (fst (names self)) (str_of n)) (items_of order)) (\<lambda>order_index.
          Inr (PList (map (\<lambda>i. PInt (int i)) order_index)))
        else Inr (PList [order, order])
      else Inr order)"

text \<open>Lines 255-263: a pair of name lists becomes a pair of position lists.\<close>

definition permute_pair :: "'d NQobj \<Rightarrow> pyval \<Rightarrow> error + pyval" where
  "permute_pair self order =
     bindE (py_len order) (\<lambda>n.
       if is_list order \<and> is_pair_of is_str (items_of order) then
         bindE (mapE (\<lambda>n. py_index (fst (names self)) (str_of n)) (items_of (items_of order ! 0)))
           (\<lambda>i0.
         bindE (mapE (\<lambda>n. py_index (snd (names self)) (str_of n)) (items_of (items_of order ! 1)))
           (\<lambda>i1.
         Inr (PList [PList (map (\<lambda>i. PInt (int i)) i0), PList (map (\<lambda>i. PInt (int i)) i1)])))
       else Inr order)"

text \<open>\<^verbatim>\<open>permute\<close> (lines 246-276).\<close>

definition permute :: "'d backend \<Rightarrow> 'd NQobj \<Rightarrow> pyval \<Rightarrow> error + 'd NQobj" where
  "permute B self order =
     bindE (permute_flat self order) (\<lambda>order1.
     bindE (permute_pair self order1) (\<lambda>order2.
     bindE (permute2 B self order2) (\<lambda>dd.
       let q0 = \<lparr>data = fst dd, dims = snd dd\<rparr>;
           q = (if auto_tidyup B then b_tidyup B q0 else q0);
           order3 = (if is_list order2 \<and> list_all is_int (items_of order2)
                     then PList [order2, order2] else order2)
       in
       bindE (py_subscript order3 0) (\<lambda>ord0.
       bindE (py_iter ord0) (\<lambda>is0.
       bindE (mapE (name_at (fst (names self))) is0) (\<lambda>names_0.
       bindE (py_subscript order3 1) (\<lambda>ord1.
       bindE (py_iter ord1) (\<lambda>is1.
       bindE (mapE (name_at (snd (names self))) is1) (\<lambda>names_1.
       rewrap B self (Inr q) (names_0, names_1))))))))))"

section \<open>Missing names and padding\<close>

text \<open>\<^verbatim>\<open>_find_missing_names\<close> (lines 468-470): per axis, \<^verbatim>\<open>list(set(required) - set(names))\<close>.\<close>

definition find_missing_names ::
  "'d backend \<Rightarrow> string list \<times> string list \<Rightarrow> string list \<times> string list
     \<Rightarrow> string list \<times> string list" where
  "find_missing_names B ns required_names =
     (set_diff_order B (fst required_names) (fst ns),
      set_diff_order B (snd required_names) (snd ns))"

text \<open>
  \<^verbatim>\<open>_find_missing_dict\<close> (lines 472-483). The loop runs over
  \<^verbatim>\<open>set(missing_names[0] + missing_names[1])\<close>. The dictionary is the list of its items
  in insertion order, and a key assigned twice keeps its first place (\<open>fromkeys\<close>).
\<close>

definition missing_dims ::
  "string list \<times> string list \<Rightarrow> 'd NQobj \<Rightarrow> bool \<Rightarrow> string
     \<Rightarrow> error + (string \<times> (nat option \<times> nat option))" where
  "missing_dims missing_names Q_other tr name =
     bindE (dim_of_name Q_other name) (\<lambda>d.
       let d0 = (if name \<notin> set (fst missing_names) then None else fst d);
           d1 = (if name \<notin> set (snd missing_names) then None else snd d)
       in Inr (name, (if tr then (d1, d0) else (d0, d1))))"

definition find_missing_dict ::
  "'d backend \<Rightarrow> string list \<times> string list \<Rightarrow> 'd NQobj \<Rightarrow> bool
     \<Rightarrow> error + (string \<times> (nat option \<times> nat option)) list" where
  "find_missing_dict B missing_names Q_other tr =
     mapE (missing_dims missing_names Q_other tr)
       (fromkeys (set_order B (fst missing_names @ snd missing_names)))"

text \<open>One iteration of the loop of \<^verbatim>\<open>_adding_missing_modes\<close> (lines 487-497): the
  filler for one missing name.\<close>

definition missing_mode ::
  "'d backend \<Rightarrow> kind \<Rightarrow> string \<times> (nat option \<times> nat option) \<Rightarrow> error + 'd NQobj" where
  "missing_mode B k item =
     (let name = fst item; d0 = fst (snd item); d1 = snd (snd item) in
      case k of
        Oper \<Rightarrow>
          if d0 \<noteq> d1 then Inl (AssertionError ''For adding eye matrixes they need to be square'')
          else bindE (b_qeye B d0) (\<lambda>q. NQobj_init B q (PStr name) (PStr ''oper''))
      | State \<Rightarrow>
          if d0 \<noteq> None \<and> d1 \<noteq> None then
            bindE (b_basis B d0) (\<lambda>k0.
            bindE (b_basis B d1) (\<lambda>k1.
            bindE (b_dag B k1) (\<lambda>b1.
            bindE (b_mul B k0 b1) (\<lambda>q.
            NQobj_init B q (PStr name) (PStr ''state'')))))
          else if d0 = None then
            bindE (b_basis B d1) (\<lambda>k1.
            bindE (b_dag B k1) (\<lambda>q.
            NQobj_init B q (PList [PList [], PList [PStr name]]) (PStr ''state'')))
          else
            bindE (b_basis B d0) (\<lambda>q. NQobj_init B q (PStr name) (PStr ''state'')))"

text \<open>\<^verbatim>\<open>_adding_missing_modes\<close> (lines 485-498); the parameter \<^verbatim>\<open>names\<close> is not used
  by the source.\<close>

definition adding_missing_modes ::
  "'d backend \<Rightarrow> 'd NQobj \<Rightarrow> (string \<times> (nat option \<times> nat option)) list \<Rightarrow> kind
     \<Rightarrow> error + 'd NQobj" where
  "adding_missing_modes B Q dict_missing_modes k =
     bindE (mapE (missing_mode B k) dict_missing_modes) (\<lambda>modes. tensor B (Q # modes))"

section \<open>Addition and multiplication\<close>

text \<open>The right operand of \<^verbatim>\<open>+\<close> and \<^verbatim>\<open>*\<close> as the \<^verbatim>\<open>isinstance\<close> tests see it, and what
  an operator method returns: a named tensor, a plain backend object, or \<^verbatim>\<open>None\<close> when
  the method body ends without \<^verbatim>\<open>return\<close>.\<close>

datatype 'd operand =
    OpNQobj "'d NQobj"
  | OpQobj "'d Qobj"
  | OpNumber complex
  | OpOther pyval

datatype 'd result = RNone | RQobj "'d Qobj" | RNQobj "'d NQobj"

text \<open>
  \<^verbatim>\<open>__add__\<close> (lines 91-115). In the two \<^verbatim>\<open>else\<close> branches the name
  \<^verbatim>\<open>NotImplemented\<close> is an expression statement: it is evaluated and dropped, and the
  method returns \<^verbatim>\<open>None\<close>.
\<close>

definition NQobj_add :: "'d backend \<Rightarrow> 'd NQobj \<Rightarrow> 'd operand \<Rightarrow> error + 'd result" where
  "NQobj_add B self other_arg =
     (case other_arg of
        OpNQobj other \<Rightarrow>
          if b_type B (qobj self) \<noteq> b_type B (qobj other) then
            Inl (ValueError ''Addition and substraction are only allowed for two NQobj of the same type.'')
          else
            bindE (get_kind self) (\<lambda>ks.
            bindE (get_kind other) (\<lambda>ko.
              if ks \<noteq> ko then
                Inl (ValueError ''Addition and substraction are only allowed for two NQobj of the same kind.'')
              else if b_isket B (qobj self) \<or> b_isbra B (qobj self) \<or> b_isoper B (qobj self) then
                (let nms = add_find_required_names self other;
                     missing_self = find_missing_names B (names self) nms;
                     missing_other = find_missing_names B (names other) nms
                 in
                 bindE (find_missing_dict B missing_self other False) (\<lambda>missing_dict_self.
                 bindE (find_missing_dict B missing_other self False) (\<lambda>missing_dict_other.
                 bindE (adding_missing_modes B self missing_dict_self ks) (\<lambda>self1.
                 bindE (permute B self1 (names_val nms)) (\<lambda>self2.
                 bindE (adding_missing_modes B other missing_dict_other ko) (\<lambda>other1.
                 bindE (permute B other1 (names_val nms)) (\<lambda>other2.
                 bindE (rewrap B self2 (b_add B (qobj self2) (qobj other2)) nms) (\<lambda>r.
                 Inr (RNQobj r)))))))))
              else Inr RNone))
      | OpQobj q \<Rightarrow> Inr RNone
      | OpNumber c \<Rightarrow> Inr RNone
      | OpOther v \<Rightarrow> Inr RNone)"

text \<open>Lines 122-130 of \<^verbatim>\<open>__mul__\<close>: both operands padded and permuted to their required
  names. The result is \<open>(self, other, names_self, names_other)\<close> as line 131 finds them.\<close>

definition mul_aligned ::
  "'d backend \<Rightarrow> 'd NQobj \<Rightarrow> 'd NQobj \<Rightarrow>
     error + ('d NQobj \<times> 'd NQobj \<times> (string list \<times> string list) \<times> (string list \<times> string list))" where
  "mul_aligned B self other =
     bindE (mul_find_required_names self other) (\<lambda>req.
       let names_self = fst req;
           names_other = snd req;
           missing_self = find_missing_names B (names self) names_self;
           missing_other = find_missing_names B (names other) names_other
       in
       bindE (find_missing_dict B missing_self other True) (\<lambda>missing_dict_self.
       bindE (find_missing_dict B missing_other self True) (\<lambda>missing_dict_other.
       bindE (get_kind self) (\<lambda>ks.
       bindE (adding_missing_modes B self missing_dict_self ks) (\<lambda>self1.
       bindE (permute B self1 (names_val names_self)) (\<lambda>self2.
       bindE (get_kind other) (\<lambda>ko.
       bindE (adding_missing_modes B other missing_dict_other ko) (\<lambda>other1.
       bindE (permute B other1 (names_val names_other)) (\<lambda>other2.
       Inr (self2, other2, names_self, names_other))))))))))"

text \<open>\<^verbatim>\<open>xs.remove(x)\<close>: the first occurrence is removed, ValueError when there is none.\<close>

definition py_remove :: "string list \<Rightarrow> string \<Rightarrow> error + string list" where
  "py_remove xs x =
     (if x \<in> set xs then Inr (remove1 x xs) else Inl (ValueError ''list.remove(x): x not in list''))"

text \<open>The loop of lines 139-142 over a copy of \<^verbatim>\<open>names[0]\<close>; \<open>ns\<close> is the pair
  \<^verbatim>\<open>names\<close> being edited.\<close>

fun drop_scalar_modes ::
  "'d NQobj \<Rightarrow> 'd NQobj \<Rightarrow> string list \<Rightarrow> string list \<times> string list
     \<Rightarrow> error + (string list \<times> string list)" where
  "drop_scalar_modes self other [] ns = Inr ns"
| "drop_scalar_modes self other (name # rest) ns =
     bindE (dim_of_name self name) (\<lambda>ds.
       if fst ds = Some 1 then
         bindE (dim_of_name other name) (\<lambda>dt.
           if snd dt = Some 1 then
             bindE (py_remove (fst ns) name) (\<lambda>n0.
             bindE (py_remove (snd ns) name) (\<lambda>n1.
             drop_scalar_modes self other rest (n0, n1)))
           else drop_scalar_modes self other rest ns)
       else drop_scalar_modes self other rest ns)"

text \<open>Lines 144-149: the kind of a product.\<close>

definition mul_kind :: "kind \<Rightarrow> kind \<Rightarrow> kind" where
  "mul_kind ks ko =
     (if ks = Oper \<and> ko = Oper then Oper
      else if ks = State \<and> ko = State then Oper
      else State)"

text \<open>\<^verbatim>\<open>__mul__\<close> (lines 117-158).\<close>

definition NQobj_mul :: "'d backend \<Rightarrow> 'd NQobj \<Rightarrow> 'd operand \<Rightarrow> error + 'd result" where
  "NQobj_mul B self other_arg =
     (case other_arg of
        OpNQobj other \<Rightarrow>
          bindE (mul_aligned B self other) (\<lambda>al.
            let self2 = fst al;
                other2 = fst (snd al);
                names_self = fst (snd (snd al));
                names_other = snd (snd (snd al))
            in
            bindE (b_mul B (qobj self2) (qobj other2)) (\<lambda>Qobj_result.
              if b_shape B Qobj_result = (1, 1) then Inr (RQobj Qobj_result)
              else
                bindE (drop_scalar_modes self2 other2 (fst names_self)
                         (fst names_self, snd names_other)) (\<lambda>nms.
                bindE (get_kind self2) (\<lambda>ks.
                bindE (get_kind other2) (\<lambda>ko.
                bindE (NQobj_init B Qobj_result (names_val nms) (kind_val (mul_kind ks ko))) (\<lambda>r.
                Inr (RNQobj r)))))))
      | OpNumber c \<Rightarrow>
          bindE (rewrap B self (b_mul_number B (qobj self) c) (names self)) (\<lambda>r. Inr (RNQobj r))
      | OpQobj q \<Rightarrow> bindE (b_mul B (qobj self) q) (\<lambda>r. Inr (RQobj r))
      | OpOther v \<Rightarrow> Inr RNone)"

text \<open>\<^verbatim>\<open>__rmul__\<close> (lines 160-167); an NQobj is a \<^verbatim>\<open>qt.Qobj\<close> too, and its
  \<^verbatim>\<open>__mul__\<close> is the one above.\<close>

definition NQobj_rmul :: "'d backend \<Rightarrow> 'd NQobj \<Rightarrow> 'd operand \<Rightarrow> error + 'd result" where
  "NQobj_rmul B self other_arg =
     (case other_arg of
        OpNumber c \<Rightarrow> NQobj_mul B self (OpNumber c)
      | OpQobj q \<Rightarrow> bindE (b_mul B q (qobj self)) (\<lambda>r. Inr (RQobj r))
      | OpNQobj other \<Rightarrow> NQobj_mul B other (OpNQobj self)
      | OpOther v \<Rightarrow> Inr RNone)"

section \<open>Partial trace, rename, expand, expm\<close>

text \<open>An exception object that is built and not raised has no effect.\<close>

definition not_raised :: "error \<Rightarrow> unit" where
  "not_raised e = ()"

text \<open>Lines 229-237 of \<^verbatim>\<open>ptrace\<close>: the selection as a list of positions.\<close>

definition ptrace_sel :: "'d NQobj \<Rightarrow> pyval \<Rightarrow> error + int list" where
  "ptrace_sel self sel =
     (case sel of
        PList xs \<Rightarrow>
          if list_all is_int xs then Inr (map int_of xs)
          else if list_all is_str xs then
            bindE (mapE (\<lambda>n. py_index (fst (names self)) (str_of n)) xs) (\<lambda>idx. Inr (map int idx))
          else Inl (ValueError ''sel must be list of only int or str'')
      | PNone \<Rightarrow> Inl (TypeError ''sel needs to be a list with int or str'')
      | PStr s \<Rightarrow> Inl (TypeError ''sel needs to be a list with int or str'')
      | PInt i \<Rightarrow> Inl (TypeError ''sel needs to be a list with int or str''))"

text \<open>
  \<^verbatim>\<open>ptrace\<close> (lines 223-244). Lines 225 and 227 are the expression statements
  \<^verbatim>\<open>ValueError('...')\<close>, without \<^verbatim>\<open>raise\<close>.
\<close>

definition ptrace :: "'d backend \<Rightarrow> 'd NQobj \<Rightarrow> pyval \<Rightarrow> bool \<Rightarrow> error + 'd NQobj" where
  "ptrace B self sel keep =
     (let u1 = (if fst (dims (qobj self)) \<noteq> snd (dims (qobj self))
                then not_raised (ValueError ''ptrace works only on a square oper'') else ());
          u2 = (if fst (names self) \<noteq> snd (names self)
                then not_raised (ValueError ''Names of both axis are not the same'') else ())
      in
      bindE (ptrace_sel self sel) (\<lambda>sel1.
        let sel2 = (if \<not> keep
                    then filter (\<lambda>i. i \<notin> set sel1) (map int [0..<fst (shape_dims (qobj self))])
                    else sel1);
            nms = map snd (filter (\<lambda>p. int (fst p) \<in> set sel2) (enumerate 0 (fst (names self))))
        in rewrap B self (b_ptrace B (qobj self) sel2) (nms, nms)))"

text \<open>
  \<^verbatim>\<open>rename\<close> (lines 278-291) changes the receiver in place and returns nothing: the
  model returns the outcome of the call and the receiver after it. An exception leaves
  before any assignment. \<^verbatim>\<open>self.names[i][self.names[i].index(name)] = new_name\<close>
  replaces the first occurrence on axis \<open>i\<close>, and an axis without the name is skipped.
\<close>

definition rename_axis :: "string list \<Rightarrow> string \<Rightarrow> string \<Rightarrow> string list" where
  "rename_axis ns name new_name =
     (case list_index ns name of None \<Rightarrow> ns | Some i \<Rightarrow> ns[i := new_name])"

definition rename :: "'d NQobj \<Rightarrow> string \<Rightarrow> string \<Rightarrow> (error + unit) \<times> 'd NQobj" where
  "rename self name new_name =
     (if name = new_name then (Inr (), self)
      else if new_name \<in> set (fst (names self) @ snd (names self)) then
        (Inl (ValueError ''You cannot use a new_name which is already used.''), self)
      else if name \<notin> set (fst (names self) @ snd (names self)) then
        (Inl (ValueError ''The name you want to replace is not present in the NQobj.''), self)
      else
        (Inr (),
         self\<lparr>names := (rename_axis (fst (names self)) name new_name,
                         rename_axis (snd (names self)) name new_name)\<rparr>))"

text \<open>\<^verbatim>\<open>self.dims[k].pop()\<close> in \<^verbatim>\<open>expand\<close>: the last entry of a dims list is dropped.\<close>

definition pop_dims :: "bool \<Rightarrow> 'd Qobj \<Rightarrow> error + 'd Qobj" where
  "pop_dims col q =
     (let ds = (if col then snd (dims q) else fst (dims q)) in
      if ds = [] then Inl (IndexError ''pop from empty list'')
      else Inr (q\<lparr>dims := (if col then (fst (dims q), butlast ds) else (butlast ds, snd (dims q)))\<rparr>))"

text \<open>The loop of lines 336-344 over the items of \<^verbatim>\<open>missing_dict\<close>; the state is the
  backend object \<^verbatim>\<open>self\<close> and the pair \<^verbatim>\<open>names\<close>.\<close>

fun expand_loop ::
  "'d backend \<Rightarrow> (string \<times> (nat option \<times> nat option)) list
     \<Rightarrow> 'd Qobj \<times> (string list \<times> string list)
     \<Rightarrow> error + ('d Qobj \<times> (string list \<times> string list))" where
  "expand_loop B [] st = Inr st"
| "expand_loop B (item # rest) st =
     (let name = fst item; d0 = fst (snd item); d1 = snd (snd item);
          q = fst st; n0 = fst (snd st); n1 = snd (snd st)
      in
      if d0 = None then
        bindE (b_basis B d1) (\<lambda>k.
        bindE (b_tensor B [q, k]) (\<lambda>t.
        bindE (pop_dims True t) (\<lambda>t1.
        expand_loop B rest (t1, (n0 @ [name], n1)))))
      else if d1 = None then
        bindE (b_basis B d0) (\<lambda>k.
        bindE (b_dag B k) (\<lambda>b.
        bindE (b_tensor B [q, b]) (\<lambda>t.
        bindE (pop_dims False t) (\<lambda>t1.
        expand_loop B rest (t1, (n0, n1 @ [name]))))))
      else expand_loop B rest st)"

text \<open>\<^verbatim>\<open>expand\<close> (lines 327-345). The keys of the dictionary comprehension are met
  once each (\<open>fromkeys\<close>).\<close>

definition expand :: "'d backend \<Rightarrow> 'd NQobj \<Rightarrow> error + 'd NQobj" where
  "expand B self =
     (if fst (names self) = snd (names self) then Inr self
      else
        bindE (get_kind self) (\<lambda>k.
          let required_names = fromkeys (fst (names self) @ snd (names self));
              missing = find_missing_names B (names self) (required_names, required_names)
          in
          bindE (mapE (\<lambda>name. bindE (dim_of_name self name) (\<lambda>d. Inr (name, d)))
                   (fromkeys (fst missing @ snd missing))) (\<lambda>missing_dict.
          bindE (expand_loop B missing_dict (qobj self, names self)) (\<lambda>st.
          bindE (NQobj_init B (fst st) (names_val (snd st)) (kind_val k)) (\<lambda>y.
          permute B y (PList (map PStr required_names)))))))"

text \<open>\<^verbatim>\<open>expm\<close> (lines 307-316). The result of the call of \<^verbatim>\<open>permute\<close> in line 312 is
  dropped; the call can still raise.\<close>

definition expm :: "'d backend \<Rightarrow> 'd NQobj \<Rightarrow> error + 'd NQobj" where
  "expm B self =
     (if fst (names self) = snd (names self) \<and> fst (dims (qobj self)) = snd (dims (qobj self)) then
        rewrap B self (b_expm B (qobj self)) (names self)
      else
        bindE (expand B self) (\<lambda>new_self.
        bindE (permute B new_self (names_val (fst (names new_self), fst (names new_self)))) (\<lambda>dropped.
          if fst (names new_self) = snd (names new_self)
             \<and> fst (dims (qobj new_self)) = snd (dims (qobj new_self)) then
            rewrap B new_self (b_expm B (qobj new_self)) (names new_self)
          else Inl (ValueError ''For exponentiation the matrix should have square submatrixes.''))))"

section \<open>An exact sparse backend\<close>

text \<open>
  To run the module on concrete inputs a backend is needed. \<open>coo_backend\<close> stores a
  matrix the way QuTiP's coordinate format does, as the collection of its entries: an
  entry is a row position, a column position and a value, and a position is written as
  its list of mode indices (position \<open>[i, j]\<close> of dims \<open>[2, 3]\<close> is row \<open>3 i + j\<close>). Entries
  at the same position add up. Sums, products, tensor products, adjoints, partial traces
  and index permutations are exact; the dims of every result follow QuTiP (a product
  takes the row dims of the left and the column dims of the right operand, a tensor
  product concatenates, \<^verbatim>\<open>dag\<close> swaps, \<^verbatim>\<open>ptrace\<close> keeps the selected modes on both axes).
  The type of an object follows from its dims: a row space of size one is a bra, a
  column space of size one a ket, anything else an oper. \<^verbatim>\<open>tidyup\<close> drops the entries
  with value zero, and the backend's equality compares dims and the entries that are
  not zero. \<^verbatim>\<open>unit\<close> and \<^verbatim>\<open>expm\<close> have no exact result and raise. A tensor product
  reads of every position one index per mode of its operand (\<open>fit\<close>): the index of a
  mode of dimension one that \<^verbatim>\<open>expand\<close> has popped from the dims is dropped.

  A Python set is a small open-addressing hash table: \<open>table_add\<close> puts a string into
  the first free slot at or after its hash, wrapping around, and the set is iterated in
  slot order. The order therefore depends on the order of insertion, as in CPython. A
  set difference is filled from the iteration of its left operand.
\<close>

type_synonym coo = "((nat list \<times> nat list) \<times> complex) multiset"

definition gather :: "int list \<Rightarrow> 'a list \<Rightarrow> 'a list" where
  "gather order xs = map (\<lambda>i. xs ! nat i) order"

definition in_range :: "int list \<Rightarrow> nat \<Rightarrow> bool" where
  "in_range order n = list_all (\<lambda>i. 0 \<le> i \<and> i < int n) order"

definition nonzero :: "coo \<Rightarrow> coo" where
  "nonzero d = filter_mset (\<lambda>e. snd e \<noteq> 0) d"

definition pairs :: "'a multiset \<Rightarrow> 'b multiset \<Rightarrow> ('a \<times> 'b) multiset" where
  "pairs d1 d2 = sum_mset (image_mset (\<lambda>e1. image_mset (\<lambda>e2. (e1, e2)) d2) d1)"

definition cb_type :: "coo Qobj \<Rightarrow> string" where
  "cb_type q =
     (if prod_list (fst (dims q)) = 1 then ''bra''
      else if prod_list (snd (dims q)) = 1 then ''ket''
      else ''oper'')"

definition cb_add :: "coo Qobj \<Rightarrow> coo Qobj \<Rightarrow> error + coo Qobj" where
  "cb_add p q =
     (if dims p = dims q then Inr \<lparr>data = data p + data q, dims = dims p\<rparr>
      else Inl (BackendError ''Incompatible quantum object dimensions''))"

definition cb_mul :: "coo Qobj \<Rightarrow> coo Qobj \<Rightarrow> error + coo Qobj" where
  "cb_mul p q =
     (if snd (dims p) = fst (dims q) then
        Inr \<lparr>data = image_mset (\<lambda>ee. ((fst (fst (fst ee)), snd (fst (snd ee))), snd (fst ee) * snd (snd ee)))
                       (filter_mset (\<lambda>ee. snd (fst (fst ee)) = fst (fst (snd ee))) (pairs (data p) (data q))),
             dims = (fst (dims p), snd (dims q))\<rparr>
      else Inl (BackendError ''Incompatible Qobj shapes''))"

definition cb_scale :: "complex \<Rightarrow> coo Qobj \<Rightarrow> coo Qobj" where
  "cb_scale c q = \<lparr>data = image_mset (\<lambda>e. (fst e, c * snd e)) (data q), dims = dims q\<rparr>"

definition cb_dag :: "coo Qobj \<Rightarrow> coo Qobj" where
  "cb_dag q = \<lparr>data = image_mset (\<lambda>e. ((snd (fst e), fst (fst e)), cnj (snd e))) (data q),
               dims = (snd (dims q), fst (dims q))\<rparr>"

definition cb_trans :: "coo Qobj \<Rightarrow> coo Qobj" where
  "cb_trans q = \<lparr>data = image_mset (\<lambda>e. ((snd (fst e), fst (fst e)), snd e)) (data q),
                 dims = (snd (dims q), fst (dims q))\<rparr>"

definition fit :: "nat \<Rightarrow> nat list \<Rightarrow> nat list" where
  "fit n xs = take n xs @ replicate (n - length xs) 0"

definition kron_entry ::
  "nat list \<times> nat list \<Rightarrow> nat list \<times> nat list
     \<Rightarrow> ((nat list \<times> nat list) \<times> complex) \<times> ((nat list \<times> nat list) \<times> complex)
     \<Rightarrow> (nat list \<times> nat list) \<times> complex" where
  "kron_entry dp dq ee =
     ((fit (length (fst dp)) (fst (fst (fst ee))) @ fit (length (fst dq)) (fst (fst (snd ee))),
       fit (length (snd dp)) (snd (fst (fst ee))) @ fit (length (snd dq)) (snd (fst (snd ee)))),
      snd (fst ee) * snd (snd ee))"

definition kron :: "coo Qobj \<Rightarrow> coo Qobj \<Rightarrow> coo Qobj" where
  "kron p q =
     \<lparr>data = image_mset (kron_entry (dims p) (dims q)) (pairs (data p) (data q)),
      dims = (fst (dims p) @ fst (dims q), snd (dims p) @ snd (dims q))\<rparr>"

definition cb_tensor :: "coo Qobj list \<Rightarrow> error + coo Qobj" where
  "cb_tensor qs =
     (case qs of
        [] \<Rightarrow> Inl (BackendError ''Requires at least one input argument'')
      | q # rest \<Rightarrow> Inr (foldl kron q rest))"

definition cb_qeye :: "nat option \<Rightarrow> error + coo Qobj" where
  "cb_qeye n =
     (case n of
        None \<Rightarrow> Inl (BackendError ''int() argument must be a number, not NoneType'')
      | Some d \<Rightarrow> Inr \<lparr>data = mset (map (\<lambda>i. (([i], [i]), 1)) [0..<d]), dims = ([d], [d])\<rparr>)"

definition cb_basis :: "nat option \<Rightarrow> error + coo Qobj" where
  "cb_basis n =
     (case n of
        None \<Rightarrow> Inl (BackendError ''int() argument must be a number, not NoneType'')
      | Some d \<Rightarrow>
          if d = 0 then Inl (BackendError ''basis vector index need to be in n <= dimension'')
          else Inr \<lparr>data = {#(([0], [0]), 1)#}, dims = ([d], [1])\<rparr>)"

definition cb_index_permute ::
  "coo \<Rightarrow> nat list \<Rightarrow> int list \<Rightarrow> nat list \<Rightarrow> int list \<Rightarrow> error + coo" where
  "cb_index_permute d ds0 o0 ds1 o1 =
     (if in_range o0 (length ds0) \<and> in_range o1 (length ds1) then
        Inr (image_mset (\<lambda>e. ((gather o0 (fst (fst e)), gather o1 (snd (fst e))), snd e)) d)
      else Inl (BackendError ''index out of range in cy_index_permute''))"

text \<open>What \<open>cb_index_permute\<close> makes of an object for positions in range, and the objects
  whose every position has one index per mode.\<close>

definition remapped :: "nat list \<Rightarrow> nat list \<Rightarrow> coo Qobj \<Rightarrow> coo Qobj" where
  "remapped s0 s1 t =
     \<lparr>data = image_mset (\<lambda>e. ((map ((!) (fst (fst e))) s0, map ((!) (snd (fst e))) s1), snd e)) (data t),
      dims = (map ((!) (fst (dims t))) s0, map ((!) (snd (dims t))) s1)\<rparr>"

definition cb_wf :: "coo Qobj \<Rightarrow> bool" where
  "cb_wf q = (\<forall>e \<in># data q. length (fst (fst e)) = length (fst (dims q))
                          \<and> length (snd (fst e)) = length (snd (dims q)))"

definition cb_permute :: "coo Qobj \<Rightarrow> pyval \<Rightarrow> error + (coo \<times> (nat list \<times> nat list))" where
  "cb_permute q order =
     (if is_list order \<and> list_all is_int (items_of order) then
        (let os = map int_of (items_of order);
             ident0 = map int [0..<length (fst (dims q))];
             ident1 = map int [0..<length (snd (dims q))]
         in
         if cb_type q = ''ket'' then
           bindE (cb_index_permute (data q) (fst (dims q)) os (snd (dims q)) ident1) (\<lambda>d.
           bindE (mapE (py_getitem (fst (dims q))) os) (\<lambda>d0. Inr (d, (d0, snd (dims q)))))
         else if cb_type q = ''bra'' then
           bindE (cb_index_permute (data q) (fst (dims q)) ident0 (snd (dims q)) os) (\<lambda>d.
           bindE (mapE (py_getitem (snd (dims q))) os) (\<lambda>d1. Inr (d, (fst (dims q), d1))))
         else
           bindE (cb_index_permute (data q) (fst (dims q)) os (snd (dims q)) os) (\<lambda>d.
           bindE (mapE (py_getitem (fst (dims q))) os) (\<lambda>d0.
           bindE (mapE (py_getitem (snd (dims q))) os) (\<lambda>d1. Inr (d, (d0, d1))))))
      else Inl (BackendError ''Invalid order for permutation.''))"

definition cb_proj :: "coo Qobj \<Rightarrow> error + coo Qobj" where
  "cb_proj q =
     (if cb_type q = ''ket'' then cb_mul q (cb_dag q)
      else if cb_type q = ''bra'' then cb_mul (cb_dag q) q
      else Inl (BackendError ''Projector can only be formed from a bra or ket.''))"

definition cb_ptrace :: "coo Qobj \<Rightarrow> int list \<Rightarrow> error + coo Qobj" where
  "cb_ptrace q sel =
     bindE (if cb_type q = ''oper'' then Inr q else cb_proj q) (\<lambda>m.
       if \<not> in_range sel (length (fst (dims m))) \<or> fst (dims m) \<noteq> snd (dims m) then
         Inl (BackendError ''Invalid selection index in ptrace.'')
       else
         (let keep = sort (remdups sel);
              traced = filter (\<lambda>i. int i \<notin> set keep) [0..<length (fst (dims m))]
          in Inr \<lparr>data = image_mset (\<lambda>e. ((gather keep (fst (fst e)), gather keep (snd (fst e))), snd e))
                           (filter_mset (\<lambda>e. list_all (\<lambda>t. fst (fst e) ! t = snd (fst e) ! t) traced) (data m)),
                   dims = (gather keep (fst (dims m)), gather keep (fst (dims m)))\<rparr>))"

fun cb_power :: "coo Qobj \<Rightarrow> coo Qobj \<Rightarrow> nat \<Rightarrow> error + coo Qobj" where
  "cb_power one q 0 = Inr one"
| "cb_power one q (Suc n) = bindE (cb_power one q n) (\<lambda>p. cb_mul p q)"

definition cb_pow :: "coo Qobj \<Rightarrow> pyval \<Rightarrow> pyval \<Rightarrow> error + coo Qobj" where
  "cb_pow q n m =
     (if fst (dims q) = snd (dims q) \<and> is_int n \<and> 0 \<le> int_of n \<and> m = PNone then
        bindE (mapE (\<lambda>d. cb_qeye (Some d)) (fst (dims q))) (\<lambda>eyes.
        bindE (cb_tensor eyes) (\<lambda>one. cb_power one q (nat (int_of n))))
      else Inl (BackendError ''Invalid operand for matrix_power''))"

definition cb_eq :: "coo Qobj \<Rightarrow> coo Qobj \<Rightarrow> bool" where
  "cb_eq p q = (dims p = dims q \<and> nonzero (data p) = nonzero (data q))"

definition cb_tidyup :: "coo Qobj \<Rightarrow> coo Qobj" where
  "cb_tidyup q = \<lparr>data = nonzero (data q), dims = dims q\<rparr>"

definition slot :: "string \<Rightarrow> nat \<Rightarrow> nat" where
  "slot x n = sum_list (map of_char x) mod n"

definition table_add :: "string option list \<Rightarrow> string \<Rightarrow> string option list" where
  "table_add t x =
     (if Some x \<in> set t then t
      else case find (\<lambda>j. t ! j = None) (rotate (slot x (length t)) [0..<length t]) of
             Some j \<Rightarrow> t[j := Some x]
           | None \<Rightarrow> t @ [Some x])"

definition table_order :: "string list \<Rightarrow> string list" where
  "table_order xs = List.map_filter id (foldl table_add (replicate 8 None) xs)"

definition table_diff_order :: "string list \<Rightarrow> string list \<Rightarrow> string list" where
  "table_diff_order xs ys = table_order (filter (\<lambda>x. x \<notin> set ys) (table_order xs))"

definition coo_backend :: "coo backend" where
  "coo_backend =
     \<lparr>b_type = cb_type,
      b_isket = (\<lambda>q. cb_type q = ''ket''),
      b_isbra = (\<lambda>q. cb_type q = ''bra''),
      b_isoper = (\<lambda>q. cb_type q = ''oper''),
      b_isherm = (\<lambda>q. cb_eq q (cb_dag q)),
      b_shape = (\<lambda>q. (prod_list (fst (dims q)), prod_list (snd (dims q)))),
      b_copy = (\<lambda>q. q),
      b_add = cb_add,
      b_mul = cb_mul,
      b_mul_number = (\<lambda>q c. Inr (cb_scale c q)),
      b_neg = (\<lambda>q. Inr (cb_scale (- 1) q)),
      b_pow = cb_pow,
      b_dag = (\<lambda>q. Inr (cb_dag q)),
      b_trans = (\<lambda>q. Inr (cb_trans q)),
      b_proj = cb_proj,
      b_unit = (\<lambda>q args. Inl (BackendError ''norm: no exact square root'')),
      b_expm = (\<lambda>q. Inl (BackendError ''expm: no exact exponential'')),
      b_ptrace = cb_ptrace,
      b_tensor = cb_tensor,
      b_qeye = cb_qeye,
      b_basis = cb_basis,
      b_eq = cb_eq,
      b_tidyup = cb_tidyup,
      auto_tidyup = True,
      b_permute = cb_permute,
      b_index_permute = cb_index_permute,
      set_order = table_order,
      set_diff_order = table_diff_order\<rparr>"

section \<open>What the engine assumes of the backend\<close>

text \<open>
  Whether two sums are numerically equal is decided by backend arithmetic. The engine
  contributes the names, the padding and the position lists it hands to the backend;
  the backend and the Python runtime contribute the laws below, which \<open>lawful_backend\<close>
  collects. They are laws of exact arithmetic.
  \<open>index_permuted\<close> is the object that the per-axis branch of \<^verbatim>\<open>_permute2\<close> builds
  (remapped data, reordered dims), and \<open>tidied\<close> is line 268 of \<^verbatim>\<open>permute\<close>.
  \<^item> Every backend object is a ket, a bra or an oper.
  \<^item> Backend addition is commutative; it returns exactly when the two operands have
    the same dims, and the sum has these dims.
  \<^item> Remapping a sum by positions is the sum of the remapped operands.
  \<^item> Remapping by \<open>s\<close> and then by \<open>r\<close> is remapping by the composed positions
    \<open>k \<mapsto> s ! (r ! k)\<close>.
  \<^item> Remapping returns whenever every position is a position of its axis.
  \<^item> A tensor product has the concatenated dims of its operands, and exchanging two
    neighbouring operands is remapping by the positions that exchange their two blocks
    of modes (\<open>block_swap\<close>).
  \<^item> Iterating over a set meets the elements of the set, and those only.
  \<^item> Tidying up keeps the dims, and when \<^verbatim>\<open>auto_tidyup\<close> is set it commutes with
    remapping.
  \<^item> The backend's equality holds between an object and itself, and, when
    \<^verbatim>\<open>auto_tidyup\<close> is set, between an object and its tidied form (QuTiP compares
    within the tolerance that \<^verbatim>\<open>tidyup\<close> removes).
\<close>

definition index_permuted :: "'d backend \<Rightarrow> 'd Qobj \<Rightarrow> int list \<Rightarrow> int list \<Rightarrow> error + 'd Qobj" where
  "index_permuted B q o0 o1 =
     bindE (permute_manual B q o0 o1) (\<lambda>dd. Inr \<lparr>data = fst dd, dims = snd dd\<rparr>)"

definition tidied :: "'d backend \<Rightarrow> 'd Qobj \<Rightarrow> 'd Qobj" where
  "tidied B q = (if auto_tidyup B then b_tidyup B q else q)"

text \<open>The positions \<open>0, \<dots>, n + ly + lz + m - 1\<close> with the block of \<open>ly\<close> positions after
  the first \<open>n\<close> and the block of \<open>lz\<close> positions after it exchanged.\<close>

definition block_swap :: "nat \<Rightarrow> nat \<Rightarrow> nat \<Rightarrow> nat \<Rightarrow> nat list" where
  "block_swap n ly lz m =
     [0..<n] @ [n + ly..<n + ly + lz] @ [n..<n + ly] @ [n + ly + lz..<n + ly + lz + m]"

text \<open>The number of row modes and of column modes of a list of backend objects.\<close>

definition row_modes :: "'d Qobj list \<Rightarrow> nat" where
  "row_modes qs = length (concat (map (\<lambda>q. fst (dims q)) qs))"

definition col_modes :: "'d Qobj list \<Rightarrow> nat" where
  "col_modes qs = length (concat (map (\<lambda>q. snd (dims q)) qs))"

definition lawful_backend :: "'d backend \<Rightarrow> bool" where
  "lawful_backend B =
     ((\<forall>q. b_isket B q \<or> b_isbra B q \<or> b_isoper B q)
      \<and> (\<forall>p q s. b_add B p q = Inr s \<longrightarrow> b_add B q p = Inr s)
      \<and> (\<forall>p q s. b_add B p q = Inr s \<longrightarrow> dims p = dims q \<and> dims s = dims p)
      \<and> (\<forall>p q. dims p = dims q \<longrightarrow> (\<exists>s. b_add B p q = Inr s))
      \<and> (\<forall>p q s o0 o1 t.
            b_add B p q = Inr s \<longrightarrow> index_permuted B s o0 o1 = Inr t \<longrightarrow>
            (\<exists>p' q'. index_permuted B p o0 o1 = Inr p' \<and> index_permuted B q o0 o1 = Inr q'
                     \<and> b_add B p' q' = Inr t))
      \<and> (\<forall>q s0 s1 r0 r1 q1 q2.
            index_permuted B q (map int s0) (map int s1) = Inr q1 \<longrightarrow>
            index_permuted B q1 (map int r0) (map int r1) = Inr q2 \<longrightarrow>
            index_permuted B q (map int (map ((!) s0) r0)) (map int (map ((!) s1) r1)) = Inr q2)
      \<and> (\<forall>d ds0 o0 ds1 o1.
            list_all (\<lambda>i. i < length ds0) o0 \<longrightarrow> list_all (\<lambda>i. i < length ds1) o1 \<longrightarrow>
            (\<exists>d'. b_index_permute B d ds0 (map int o0) ds1 (map int o1) = Inr d'))
      \<and> (\<forall>qs t. b_tensor B qs = Inr t \<longrightarrow>
            dims t = (concat (map (\<lambda>q. fst (dims q)) qs), concat (map (\<lambda>q. snd (dims q)) qs)))
      \<and> (\<forall>xs y z ys t. b_tensor B (xs @ y # z # ys) = Inr t \<longrightarrow>
            (\<exists>t'. b_tensor B (xs @ z # y # ys) = Inr t'
                \<and> index_permuted B t
                     (map int (block_swap (row_modes xs) (row_modes [y]) (row_modes [z]) (row_modes ys)))
                     (map int (block_swap (col_modes xs) (col_modes [y]) (col_modes [z]) (col_modes ys)))
                   = Inr t'))
      \<and> (\<forall>xs. set (set_order B xs) = set xs)
      \<and> (\<forall>xs ys. set (set_diff_order B xs ys) = set xs - set ys)
      \<and> (\<forall>q. dims (b_tidyup B q) = dims q)
      \<and> (auto_tidyup B \<longrightarrow>
            (\<forall>q o0 o1 u. index_permuted B (b_tidyup B q) o0 o1 = Inr u \<longrightarrow>
               (\<exists>v. index_permuted B q o0 o1 = Inr v \<and> u = b_tidyup B v)))
      \<and> (\<forall>q. b_eq B q q)
      \<and> (auto_tidyup B \<longrightarrow> (\<forall>q. b_eq B q (b_tidyup B q))))"

text \<open>Lines 102-106 of \<^verbatim>\<open>__add__\<close> for one operand: the missing names against the
  required names, their dimensions read off the other operand, and the fillers added.\<close>

definition padded ::
  "'d backend \<Rightarrow> 'd NQobj \<Rightarrow> 'd NQobj \<Rightarrow> string list \<times> string list \<Rightarrow> kind \<Rightarrow> error + 'd NQobj" where
  "padded B x other req k =
     bindE (find_missing_dict B (find_missing_names B (names x) req) other False) (\<lambda>md.
     adding_missing_modes B x md k)"

text \<open>Two lists with the same elements in two orders: one becomes the other by exchanges
  of neighbours.\<close>

inductive swaps :: "'a list \<Rightarrow> 'a list \<Rightarrow> bool" where
  same: "swaps xs xs"
| swap: "swaps (xs @ y # z # ys) (xs @ z # y # ys)"
| step: "swaps xs ys \<Longrightarrow> swaps ys zs \<Longrightarrow> swaps xs zs"

section \<open>The name invariant and example objects\<close>

text \<open>Invariants 1 and 2 of the data model: the names of an axis are pairwise distinct,
  and each axis has as many names as dimensions.\<close>

definition name_invariant :: "'d NQobj \<Rightarrow> bool" where
  "name_invariant x =
     (distinct (fst (names x)) \<and> distinct (snd (names x))
      \<and> length (fst (names x)) = length (fst (dims (qobj x)))
      \<and> length (snd (names x)) = length (snd (dims (qobj x))))"

text \<open>Named tensors over \<open>coo_backend\<close>: the Pauli matrix \<open>\<sigma>\<^sub>x\<close> on a two-level mode \<open>A\<close>,
  the number operator on a three-level mode \<open>B\<close>, the ket and the bra of level 1 of \<open>A\<close>,
  the ket of level 0 of a two-level mode \<open>B\<close>, \<open>\<sigma>\<^sub>x\<close> with row name \<open>A\<close> and column name
  \<open>B\<close>, a 2 x 3 operator named \<open>A\<close> on both axes, and the results the examples below
  compute.\<close>

definition sigma_x :: "coo Qobj" where
  "sigma_x = \<lparr>data = mset [(([0], [1]), 1), (([1], [0]), 1)], dims = ([2], [2])\<rparr>"

definition num3 :: "coo Qobj" where
  "num3 = \<lparr>data = mset [(([1], [1]), 1), (([2], [2]), 2)], dims = ([3], [3])\<rparr>"

definition opA :: "coo NQobj" where
  "opA = \<lparr>qobj = sigma_x, names = ([''A''], [''A'']), kind = Some Oper\<rparr>"

definition opB :: "coo NQobj" where
  "opB = \<lparr>qobj = num3, names = ([''B''], [''B'']), kind = Some Oper\<rparr>"

definition ketA :: "coo NQobj" where
  "ketA = \<lparr>qobj = \<lparr>data = mset [(([1], [0]), 1)], dims = ([2], [1])\<rparr>,
           names = ([''A''], [''A'']), kind = Some State\<rparr>"

definition braA :: "coo NQobj" where
  "braA = \<lparr>qobj = \<lparr>data = mset [(([0], [1]), 1)], dims = ([1], [2])\<rparr>,
           names = ([''A''], [''A'']), kind = Some State\<rparr>"

definition ketB :: "coo NQobj" where
  "ketB = \<lparr>qobj = \<lparr>data = mset [(([0], [0]), 1)], dims = ([2], [1])\<rparr>,
           names = ([''B''], [''B'']), kind = Some State\<rparr>"

definition opAB :: "coo NQobj" where
  "opAB = \<lparr>qobj = sigma_x, names = ([''A''], [''B'']), kind = Some Oper\<rparr>"

definition rectA :: "coo NQobj" where
  "rectA = \<lparr>qobj = \<lparr>data = mset [(([0], [0]), 1), (([1], [2]), 1)], dims = ([2], [3])\<rparr>,
            names = ([''A''], [''A'']), kind = Some Oper\<rparr>"

text \<open>Operands for the name resolution of a product. \<open>\<sigma>\<^sub>x\<close> on \<open>A\<close> times the ket of level 0
  of \<open>B\<close>, of kind oper: its column dimension for \<open>B\<close> is 1. The ket of level 1 of \<open>B\<close> and
  level 0 of \<open>A\<close> with a third mode \<open>C\<close> of dimension 1. The number operator on \<open>B\<close> times
  the identity on \<open>A\<close>.\<close>

definition opA_ketB :: "coo NQobj" where
  "opA_ketB = \<lparr>qobj = \<lparr>data = mset [(([0, 0], [1, 0]), 1), (([1, 0], [0, 0]), 1)],
                        dims = ([2, 3], [2, 1])\<rparr>,
               names = ([''A'', ''B''], [''A'', ''B'']), kind = Some Oper\<rparr>"

definition ketBAC :: "coo NQobj" where
  "ketBAC = \<lparr>qobj = \<lparr>data = mset [(([1, 0, 0], [0, 0, 0]), 1)], dims = ([3, 2, 1], [1, 1, 1])\<rparr>,
             names = ([''B'', ''A'', ''C''], [''B'', ''A'', ''C'']), kind = Some State\<rparr>"

definition opBA :: "coo NQobj" where
  "opBA = \<lparr>qobj = \<lparr>data = mset [(([1, 0], [1, 0]), 1), (([1, 1], [1, 1]), 1),
                                  (([2, 0], [2, 0]), 2), (([2, 1], [2, 1]), 2)],
                     dims = ([3, 2], [3, 2])\<rparr>,
           names = ([''B'', ''A''], [''B'', ''A'']), kind = Some Oper\<rparr>"

text \<open>\<open>\<sigma>\<^sub>x \<otimes> n\<close>, the product of the operators on \<open>A\<close> and \<open>B\<close>.\<close>

definition opA_times_opB :: "coo NQobj" where
  "opA_times_opB =
     \<lparr>qobj = \<lparr>data = mset [(([0, 1], [1, 1]), 1), (([0, 2], [1, 2]), 2),
                           (([1, 1], [0, 1]), 1), (([1, 2], [0, 2]), 2)],
              dims = ([2, 3], [2, 3])\<rparr>,
      names = ([''A'', ''B''], [''A'', ''B'']), kind = Some Oper\<rparr>"

text \<open>Operands of a sum: \<open>\<sigma>\<^sub>x\<close> on a mode \<open>G\<close>, and an operator \<open>w\<close> on a two-level mode \<open>O\<close>
  and a three-level mode \<open>W\<close>. The three names have the same hash in \<open>table_order\<close>, so
  the order in which a set of them is iterated depends on the order of insertion.
  \<open>opG_plus_opOW\<close> is \<open>\<sigma>\<^sub>x \<otimes> 1 \<otimes> 1 + 1 \<otimes> w\<close> with the names \<open>[G, O, W]\<close>, and
  \<open>opOW_plus_opG\<close> is \<open>w \<otimes> 1 + 1 \<otimes> 1 \<otimes> \<sigma>\<^sub>x\<close> with the names \<open>[O, W, G]\<close>.\<close>

definition opG :: "coo NQobj" where
  "opG = \<lparr>qobj = sigma_x, names = ([''G''], [''G'']), kind = Some Oper\<rparr>"

definition opOW :: "coo NQobj" where
  "opOW = \<lparr>qobj = \<lparr>data = mset [(([0, 1], [1, 2]), 1), (([1, 0], [1, 0]), 2)],
                     dims = ([2, 3], [2, 3])\<rparr>,
           names = ([''O'', ''W''], [''O'', ''W'']), kind = Some Oper\<rparr>"

definition opG_plus_opOW :: "coo NQobj" where
  "opG_plus_opOW =
     \<lparr>qobj = \<lparr>data = mset [(([0, 0, 0], [1, 0, 0]), 1), (([0, 0, 1], [1, 0, 1]), 1),
                           (([0, 0, 2], [1, 0, 2]), 1), (([0, 1, 0], [1, 1, 0]), 1),
                           (([0, 1, 1], [1, 1, 1]), 1), (([0, 1, 2], [1, 1, 2]), 1),
                           (([1, 0, 0], [0, 0, 0]), 1), (([1, 0, 1], [0, 0, 1]), 1),
                           (([1, 0, 2], [0, 0, 2]), 1), (([1, 1, 0], [0, 1, 0]), 1),
                           (([1, 1, 1], [0, 1, 1]), 1), (([1, 1, 2], [0, 1, 2]), 1),
                           (([0, 0, 1], [0, 1, 2]), 1), (([1, 0, 1], [1, 1, 2]), 1),
                           (([0, 1, 0], [0, 1, 0]), 2), (([1, 1, 0], [1, 1, 0]), 2)],
              dims = ([2, 2, 3], [2, 2, 3])\<rparr>,
      names = ([''G'', ''O'', ''W''], [''G'', ''O'', ''W'']), kind = Some Oper\<rparr>"

definition opOW_plus_opG :: "coo NQobj" where
  "opOW_plus_opG =
     \<lparr>qobj = \<lparr>data = mset [(([0, 1, 0], [1, 2, 0]), 1), (([0, 1, 1], [1, 2, 1]), 1),
                           (([1, 0, 0], [1, 0, 0]), 2), (([1, 0, 1], [1, 0, 1]), 2),
                           (([0, 0, 0], [0, 0, 1]), 1), (([1, 0, 0], [1, 0, 1]), 1),
                           (([0, 1, 0], [0, 1, 1]), 1), (([1, 1, 0], [1, 1, 1]), 1),
                           (([0, 2, 0], [0, 2, 1]), 1), (([1, 2, 0], [1, 2, 1]), 1),
                           (([0, 0, 1], [0, 0, 0]), 1), (([1, 0, 1], [1, 0, 0]), 1),
                           (([0, 1, 1], [0, 1, 0]), 1), (([1, 1, 1], [1, 1, 0]), 1),
                           (([0, 2, 1], [0, 2, 0]), 1), (([1, 2, 1], [1, 2, 0]), 1)],
              dims = ([2, 3, 2], [2, 3, 2])\<rparr>,
      names = ([''O'', ''W'', ''G''], [''O'', ''W'', ''G'']), kind = Some Oper\<rparr>"

text \<open>\<open>\<sigma>\<^sub>x\<close> from column \<open>B\<close> to row \<open>A\<close>, expanded to both names on both axes.\<close>

definition opAB_expanded :: "coo NQobj" where
  "opAB_expanded =
     \<lparr>qobj = \<lparr>data = mset [(([0, 0], [0, 1]), 1), (([1, 0], [0, 0]), 1)],
              dims = ([2, 2], [2, 2])\<rparr>,
      names = ([''A'', ''B''], [''A'', ''B'']), kind = Some Oper\<rparr>"

text \<open>The projector on level 1 of \<open>A\<close>, with kind state and with kind oper, and the ket of
  level 0 of \<open>A\<close>.\<close>

definition projA :: "coo NQobj" where
  "projA = \<lparr>qobj = \<lparr>data = mset [(([1], [1]), 1)], dims = ([2], [2])\<rparr>,
            names = ([''A''], [''A'']), kind = Some State\<rparr>"

definition ketA_times_braA :: "coo NQobj" where
  "ketA_times_braA = \<lparr>qobj = \<lparr>data = mset [(([1], [1]), 1)], dims = ([2], [2])\<rparr>,
            names = ([''A''], [''A'']), kind = Some Oper\<rparr>"

definition ketA0 :: "coo NQobj" where
  "ketA0 = \<lparr>qobj = \<lparr>data = mset [(([0], [0]), 1)], dims = ([2], [1])\<rparr>,
            names = ([''A''], [''A'']), kind = Some State\<rparr>"

section \<open>Basic facts about the model\<close>

lemma bindE_simps [simp]:
  "bindE (Inl e) f = Inl e"
  "bindE (Inr v) f = f v"
  by (simp_all add: bindE_def)

lemma bindE_eq_Inr: "bindE m f = Inr y \<longleftrightarrow> (\<exists>v. m = Inr v \<and> f v = Inr y)"
  by (cases m) simp_all

lemma set_fromkeys [simp]: "set (fromkeys xs) = set xs"
  by (induction xs rule: fromkeys.induct) auto

lemma distinct_fromkeys [simp]: "distinct (fromkeys xs)"
  by (induction xs rule: fromkeys.induct) auto

lemma get_kind_eq_Inr: "get_kind x = Inr k \<longleftrightarrow> kind x = Some k"
  by (simp add: get_kind_def split: option.splits)

lemma str_of_inj: "is_str a \<Longrightarrow> is_str b \<Longrightarrow> str_of a = str_of b \<Longrightarrow> a = b"
  by (cases a; cases b) simp_all

lemma distinct_map_str_of:
  "list_all is_str xs \<Longrightarrow> distinct xs \<Longrightarrow> distinct (map str_of xs)"
  by (induction xs) (auto simp: list_all_iff dest: str_of_inj)

lemma init_names_sound:
  assumes "init_names q nms = Inr ns"
  shows "distinct (fst ns) \<and> distinct (snd ns)
         \<and> length (fst ns) = length (fst (dims q)) \<and> length (snd ns) = length (snd (dims q))"
proof (cases nms)
  case PNone
  with assms show ?thesis by (simp add: init_names_def)
next
  case (PStr s)
  with assms show ?thesis
    by (auto simp: init_names_def shape_dims_def split: if_splits)
next
  case (PInt i)
  with assms show ?thesis by (simp add: init_names_def)
next
  case (PList xs)
  show ?thesis
  proof (cases "length xs = 2 \<and> is_list (xs ! 0) \<and> is_list (xs ! 1)")
    case True
    with assms PList show ?thesis
      by (auto simp: init_names_def shape_dims_def Let_def distinct_map_str_of
               split: if_splits)
  next
    case False
    with assms PList show ?thesis
      by (auto simp: init_names_def shape_dims_def distinct_map_str_of split: if_splits)
  qed
qed

lemma NQobj_init_sound:
  assumes "NQobj_init B q nms k = Inr x"
  shows "qobj x = q \<and> name_invariant x"
proof -
  from assms obtain ns kd where ns: "init_names q nms = Inr ns"
    and x: "x = \<lparr>qobj = q, names = ns, kind = kd\<rparr>"
    by (auto simp: NQobj_init_def bindE_eq_Inr)
  from init_names_sound [OF ns] x show ?thesis by (simp add: name_invariant_def)
qed

lemma init_kind_kind_val [simp]: "init_kind B q ns (kind_val k) = Inr (Some k)"
  by (cases k) (simp_all add: init_kind_def)

lemma init_kind_oper [simp]: "init_kind B q ns (PStr ''oper'') = Inr (Some Oper)"
  by (simp add: init_kind_def)

lemma init_kind_state [simp]: "init_kind B q ns (PStr ''state'') = Inr (Some State)"
  by (simp add: init_kind_def)

lemma NQobj_init_kind_val:
  "NQobj_init B q nms (kind_val k) = Inr x \<Longrightarrow> kind x = Some k"
  by (auto simp: NQobj_init_def bindE_eq_Inr)

lemma init_names_names_val:
  assumes "init_names q (names_val ns) = Inr ns'"
  shows "ns' = ns"
proof -
  have "map str_of (map PStr xs) = xs" for xs by (induction xs) simp_all
  with assms show ?thesis
    by (cases ns) (auto simp: init_names_def names_val_def Let_def split: if_splits)
qed

lemma NQobj_init_names_val:
  "NQobj_init B q (names_val ns) k = Inr x \<Longrightarrow> names x = ns"
  by (auto simp: NQobj_init_def bindE_eq_Inr dest: init_names_names_val)

lemma rewrap_sound:
  assumes "rewrap B self r ns = Inr x"
  shows "r = Inr (qobj x) \<and> kind x = kind self \<and> names x = ns \<and> name_invariant x
         \<and> (\<exists>k. kind self = Some k)"
proof -
  from assms obtain q k where r: "r = Inr q" and k: "get_kind self = Inr k"
    and i: "NQobj_init B q (names_val ns) (kind_val k) = Inr x"
    by (auto simp: rewrap_def bindE_eq_Inr)
  from NQobj_init_sound [OF i] NQobj_init_kind_val [OF i] NQobj_init_names_val [OF i] r k
  show ?thesis by (simp add: get_kind_eq_Inr)
qed

lemma tensor_eq_Inr:
  assumes "tensor B args = Inr T"
  shows "\<exists>q k0 ks nsv. mapE get_kind args = Inr (k0 # ks)
           \<and> NQobj_init B q nsv (kind_val k0) = Inr T"
proof -
  from assms obtain q kinds where kinds: "mapE get_kind args = Inr kinds"
    and rest: "(case kinds of
          [] \<Rightarrow> Inl (IndexError ''index 0 is out of bounds for axis 0 with size 0'')
        | k0 # ks \<Rightarrow>
            if \<not> list_all (\<lambda>k. k = k0) kinds then
              Inl (AttributeError ''For tensor product the kind of all NQobj should be the same.'')
            else NQobj_init B q
                   (names_val (concat (map (\<lambda>a. fst (names a)) args),
                               concat (map (\<lambda>a. snd (names a)) args)))
                   (kind_val k0)) = Inr T"
    unfolding tensor_def Let_def bindE_eq_Inr by blast
  show ?thesis
  proof (cases kinds)
    case Nil
    with rest show ?thesis by simp
  next
    case (Cons k0 ks)
    with rest have "NQobj_init B q
                   (names_val (concat (map (\<lambda>a. fst (names a)) args),
                               concat (map (\<lambda>a. snd (names a)) args)))
                   (kind_val k0) = Inr T"
      by (simp split: if_splits)
    with kinds Cons show ?thesis by blast
  qed
qed

lemma tensor_any_sound:
  assumes "tensor B args = Inr T"
  shows "name_invariant T"
  using tensor_eq_Inr [OF assms] NQobj_init_sound by blast

lemma tensor_sound:
  assumes "tensor B (Q # modes) = Inr T"
  shows "kind T = kind Q \<and> name_invariant T \<and> (\<exists>k. kind Q = Some k)"
proof -
  from tensor_eq_Inr [OF assms] obtain q k0 ks nsv
    where kinds: "mapE get_kind (Q # modes) = Inr (k0 # ks)"
      and i: "NQobj_init B q nsv (kind_val k0) = Inr T"
    by blast
  from kinds have k0: "get_kind Q = Inr k0" by (auto simp: bindE_eq_Inr)
  from NQobj_init_sound [OF i] NQobj_init_kind_val [OF i] k0
  show ?thesis by (simp add: get_kind_eq_Inr)
qed

lemma adding_missing_modes_sound:
  assumes "adding_missing_modes B Q d k = Inr Q1"
  shows "kind Q1 = kind Q \<and> name_invariant Q1 \<and> (\<exists>k. kind Q = Some k)"
  using assms by (auto simp: adding_missing_modes_def bindE_eq_Inr dest: tensor_sound)

lemma permute_sound:
  assumes "permute B x order = Inr y"
  shows "kind y = kind x \<and> name_invariant y \<and> (\<exists>k. kind x = Some k)"
proof -
  from assms obtain r ns where "rewrap B x r ns = Inr y"
    by (auto simp: permute_def Let_def bindE_eq_Inr)
  from rewrap_sound [OF this] show ?thesis by simp
qed

lemma mul_aligned_kinds:
  assumes "mul_aligned B self other = Inr al"
  shows "kind (fst al) = kind self \<and> kind (fst (snd al)) = kind other
         \<and> (\<exists>ks ko. kind self = Some ks \<and> kind other = Some ko)"
proof -
  from assms obtain ds1 ks self1 no1 do1 ko other1 no2 self2 other2 where
    a: "adding_missing_modes B self ds1 ks = Inr self1"
    and p: "permute B self1 no1 = Inr self2"
    and b: "adding_missing_modes B other do1 ko = Inr other1"
    and q: "permute B other1 no2 = Inr other2"
    and al: "fst al = self2" "fst (snd al) = other2"
    by (auto simp: mul_aligned_def Let_def bindE_eq_Inr)
  from adding_missing_modes_sound [OF a] permute_sound [OF p]
    adding_missing_modes_sound [OF b] permute_sound [OF q] al
  show ?thesis by auto
qed

lemma rename_axis_sound:
  assumes "distinct ns" and "new_name \<notin> set ns"
  shows "distinct (rename_axis ns name new_name) \<and> length (rename_axis ns name new_name) = length ns"
  using assms by (auto simp: rename_axis_def distinct_list_update split: option.splits)

lemma rename_invariant:
  assumes "name_invariant x"
  shows "name_invariant (snd (rename x name new_name))"
  using assms rename_axis_sound [of "fst (names x)" new_name name]
    rename_axis_sound [of "snd (names x)" new_name name]
  by (auto simp: rename_def name_invariant_def)

lemma rewrap_invariant: "rewrap B s q ns = Inr r \<Longrightarrow> name_invariant r"
  using rewrap_sound by blast

lemma NQobj_init_invariant: "NQobj_init B q nms k = Inr r \<Longrightarrow> name_invariant r"
  using NQobj_init_sound by blast

lemma permute_invariant: "permute B x order = Inr r \<Longrightarrow> name_invariant r"
  using permute_sound by blast

lemma add_invariant:
  assumes "NQobj_add B self other = Inr (RNQobj r)"
  shows "name_invariant r"
proof (cases other)
  case (OpNQobj y)
  with assms show ?thesis
    apply (simp add: NQobj_add_def Let_def bindE_eq_Inr split: if_splits)
    apply (elim exE conjE)
    apply (erule rewrap_invariant)
    done
qed (use assms in \<open>simp_all add: NQobj_add_def\<close>)

lemma mul_invariant:
  assumes "NQobj_mul B self other = Inr (RNQobj r)"
  shows "name_invariant r"
proof (cases other)
  case (OpNQobj y)
  with assms obtain q nmsv kv where "NQobj_init B q nmsv kv = Inr r"
    by (auto simp: NQobj_mul_def Let_def bindE_eq_Inr split: if_splits)
  then show ?thesis by (rule NQobj_init_invariant)
next
  case (OpNumber c)
  with assms show ?thesis
    apply (simp add: NQobj_mul_def bindE_eq_Inr)
    apply (erule rewrap_invariant)
    done
next
  case (OpQobj q)
  with assms show ?thesis by (auto simp: NQobj_mul_def bindE_eq_Inr)
next
  case (OpOther v)
  with assms show ?thesis by (simp add: NQobj_mul_def)
qed

lemma rmul_invariant:
  assumes "NQobj_rmul B self other = Inr (RNQobj r)"
  shows "name_invariant r"
proof (cases other)
  case (OpNQobj y)
  with assms show ?thesis by (simp add: NQobj_rmul_def mul_invariant)
next
  case (OpNumber c)
  with assms show ?thesis by (simp add: NQobj_rmul_def mul_invariant)
next
  case (OpQobj q)
  with assms show ?thesis by (auto simp: NQobj_rmul_def bindE_eq_Inr)
next
  case (OpOther v)
  with assms show ?thesis by (simp add: NQobj_rmul_def)
qed

lemma expand_invariant:
  assumes "expand B self = Inr r" and "name_invariant self"
  shows "name_invariant r"
proof (cases "fst (names self) = snd (names self)")
  case True
  with assms show ?thesis by (simp add: expand_def)
next
  case False
  with assms(1) show ?thesis
    apply (simp add: expand_def Let_def bindE_eq_Inr)
    apply (elim exE conjE)
    apply (erule permute_invariant)
    done
qed

lemma expm_invariant:
  assumes "expm B self = Inr r"
  shows "name_invariant r"
proof (cases "fst (names self) = snd (names self)
              \<and> fst (dims (qobj self)) = snd (dims (qobj self))")
  case True
  with assms show ?thesis
    by (simp add: expm_def rewrap_invariant)
next
  case False
  with assms have "\<exists>s q. rewrap B s q (names s) = Inr r"
    by (auto simp: expm_def bindE_eq_Inr split: if_splits)
  then show ?thesis using rewrap_invariant by blast
qed

lemma ptrace_invariant:
  assumes "ptrace B self sel keep = Inr r"
  shows "name_invariant r"
  using assms
  apply (simp add: ptrace_def Let_def bindE_eq_Inr)
  apply (elim exE conjE)
  apply (erule rewrap_invariant)
  done

section \<open>Permutation to a pair of name lists\<close>

lemma mapE_eq_Inr_length: "mapE f xs = Inr ys \<Longrightarrow> length ys = length xs"
  by (induction xs arbitrary: ys) (auto simp: bindE_eq_Inr)

lemma mapE_eq_Inr_nth:
  "mapE f xs = Inr ys \<Longrightarrow> i < length xs \<Longrightarrow> f (xs ! i) = Inr (ys ! i)"
  by (induction xs arbitrary: ys i) (auto simp: bindE_eq_Inr nth_Cons split: nat.splits)

lemma mapE_map: "mapE f (map g xs) = mapE (\<lambda>x. f (g x)) xs"
  by (induction xs) simp_all

lemma list_index_Some: "list_index xs x = Some i \<Longrightarrow> i < length xs \<and> xs ! i = x"
  by (induction xs arbitrary: i) (auto split: if_splits)

lemma py_index_Inr: "py_index xs x = Inr i \<Longrightarrow> i < length xs \<and> xs ! i = x"
  by (auto simp: py_index_def split: option.splits dest: list_index_Some)

lemma py_getitem_nat: "i < length xs \<Longrightarrow> py_getitem xs (int i) = Inr (xs ! i)"
  by (simp add: py_getitem_def)

lemma names_back:
  assumes "mapE (py_index ns) ms = Inr idx"
  shows "mapE (name_at ns) (map (\<lambda>i. PInt (int i)) idx) = Inr ms"
  using assms
proof (induction ms arbitrary: idx)
  case Nil
  then show ?case by simp
next
  case (Cons m ms)
  then obtain i rest where i: "py_index ns m = Inr i" and rest: "mapE (py_index ns) ms = Inr rest"
    and idx: "idx = i # rest"
    by (auto simp: bindE_eq_Inr)
  from py_index_Inr [OF i] have "py_getitem ns (int i) = Inr m"
    by (simp add: py_getitem_nat)
  with Cons.IH [OF rest] idx show ?case by simp
qed

lemma list_all_is_str_PStr [simp]: "list_all is_str (map PStr xs)"
  by (induction xs) simp_all

lemma list_all_is_int_PInt [simp]: "list_all is_int (map (\<lambda>i. PInt (int i)) xs)"
  by (induction xs) simp_all

lemma map_str_of_PStr [simp]: "map str_of (map PStr xs) = xs"
  by (induction xs) simp_all

lemma map_int_of_PInt [simp]: "map int_of (map (\<lambda>i. PInt (int i)) xs) = map int xs"
  by (induction xs) simp_all

lemma map_int_of_comp_PInt [simp]: "map (int_of \<circ> (\<lambda>i. PInt (int i))) xs = map int xs"
  by (induction xs) simp_all

lemma permute_flat_names_val [simp]: "permute_flat y (names_val ns) = Inr (names_val ns)"
  by (simp add: permute_flat_def names_val_def)

lemma permute_pair_names_val:
  "permute_pair y (names_val ns) =
     bindE (mapE (py_index (fst (names y))) (fst ns)) (\<lambda>i0.
     bindE (mapE (py_index (snd (names y))) (snd ns)) (\<lambda>i1.
     Inr (PList [PList (map (\<lambda>i. PInt (int i)) i0), PList (map (\<lambda>i. PInt (int i)) i1)])))"
  by (simp add: permute_pair_def names_val_def is_pair_of_def mapE_map)

lemma permute2_pair:
  assumes "b_isoper B (qobj y) \<or> b_isket B (qobj y) \<or> b_isbra B (qobj y)"
  shows "permute2 B y (PList [PList (map (\<lambda>i. PInt (int i)) i0), PList (map (\<lambda>i. PInt (int i)) i1)])
         = permute_manual B (qobj y) (map int i0) (map int i1)"
  using assms by (auto simp: permute2_def Let_def is_pair_of_def)

lemma permute_names_val:
  assumes "b_isoper B (qobj y) \<or> b_isket B (qobj y) \<or> b_isbra B (qobj y)"
    and "permute B y (names_val ns) = Inr z"
  shows "\<exists>i0 i1 u. mapE (py_index (fst (names y))) (fst ns) = Inr i0
          \<and> mapE (py_index (snd (names y))) (snd ns) = Inr i1
          \<and> index_permuted B (qobj y) (map int i0) (map int i1) = Inr u
          \<and> qobj z = tidied B u \<and> names z = ns \<and> kind z = kind y"
proof -
  from assms(2) obtain i0 i1 dd where
    i0: "mapE (py_index (fst (names y))) (fst ns) = Inr i0"
    and i1: "mapE (py_index (snd (names y))) (snd ns) = Inr i1"
    and dd: "permute2 B y (PList [PList (map (\<lambda>i. PInt (int i)) i0), PList (map (\<lambda>i. PInt (int i)) i1)]) = Inr dd"
    and rest: "(let q0 = \<lparr>data = fst dd, dims = snd dd\<rparr>;
           q = (if auto_tidyup B then b_tidyup B q0 else q0);
           order3 = PList [PList (map (\<lambda>i. PInt (int i)) i0), PList (map (\<lambda>i. PInt (int i)) i1)]
       in
       bindE (py_subscript order3 0) (\<lambda>ord0.
       bindE (py_iter ord0) (\<lambda>is0.
       bindE (mapE (name_at (fst (names y))) is0) (\<lambda>names_0.
       bindE (py_subscript order3 1) (\<lambda>ord1.
       bindE (py_iter ord1) (\<lambda>is1.
       bindE (mapE (name_at (snd (names y))) is1) (\<lambda>names_1.
       rewrap B y (Inr q) (names_0, names_1)))))))) = Inr z"
    unfolding permute_def permute_flat_names_val permute_pair_names_val bindE_simps bindE_eq_Inr
    by (auto simp: Let_def)
  from dd have pm: "permute_manual B (qobj y) (map int i0) (map int i1) = Inr dd"
    by (simp add: permute2_pair [OF assms(1)])
  from rest names_back [OF i0] names_back [OF i1]
  have rw: "rewrap B y (Inr (tidied B \<lparr>data = fst dd, dims = snd dd\<rparr>)) (fst ns, snd ns) = Inr z"
    by (simp add: Let_def py_getitem_def tidied_def)
  from rewrap_sound [OF rw] pm i0 i1 show ?thesis
    by (auto simp: index_permuted_def)
qed

lemma index_compose:
  assumes "mapE (py_index ns) ms' = Inr s'" and "mapE (py_index ms') ms = Inr r"
    and "mapE (py_index ns) ms = Inr s"
  shows "map ((!) s') r = s"
proof (rule nth_equalityI)
  from assms show len: "length (map ((!) s') r) = length s"
    by (simp add: mapE_eq_Inr_length)
  fix i assume "i < length (map ((!) s') r)"
  then have i: "i < length ms" using assms(2) by (simp add: mapE_eq_Inr_length)
  from mapE_eq_Inr_nth [OF assms(2) i] have r: "r ! i < length ms'" "ms' ! (r ! i) = ms ! i"
    by (auto dest: py_index_Inr)
  from mapE_eq_Inr_nth [OF assms(1) r(1)] r(2) have "py_index ns (ms ! i) = Inr (s' ! (r ! i))"
    by simp
  moreover from mapE_eq_Inr_nth [OF assms(3) i] have "py_index ns (ms ! i) = Inr (s ! i)" .
  ultimately show "map ((!) s') r ! i = s ! i"
    using i assms(2) by (simp add: mapE_eq_Inr_length)
qed

section \<open>The overlap names of a product\<close>

text \<open>The two list comprehensions of \<^verbatim>\<open>_mul_find_required_names\<close> keep the names of
  an axis whose dimension on that axis is not 1.\<close>

lemma dim_on_axis_zip:
  assumes "distinct ns" and "length ns = length ds" and "(n, d) \<in> set (zip ns ds)"
  shows "dim_on_axis ds ns n = Inr (Some d)"
proof -
  from assms(3) obtain i where i: "i < length ns" "ns ! i = n" "ds ! i = d"
    by (auto simp: set_zip)
  have "list_index xs (xs ! j) = Some j" if "distinct xs" "j < length xs" for xs :: "string list" and j
    using that
  proof (induction xs arbitrary: j)
    case Nil
    then show ?case by simp
  next
    case (Cons x xs)
    then show ?case by (cases j) (auto simp: nth_Cons')
  qed
  from this [OF assms(1) i(1)] i assms(2) show ?thesis by (simp add: dim_on_axis_def)
qed

lemma dim_on_axis_returns:
  assumes "length ns = length ds"
  shows "\<exists>d. dim_on_axis ds ns n = Inr d"
  using assms by (auto simp: dim_on_axis_def split: option.splits dest: list_index_Some)

lemma filter_zip:
  assumes "length ns = length ds" and "\<And>n d. (n, d) \<in> set (zip ns ds) \<Longrightarrow> P n = Q d"
  shows "filter P ns = map fst (filter (\<lambda>nd. Q (snd nd)) (zip ns ds))"
  using assms by (induction ns ds rule: list_induct2) auto

lemma names_for_overlap_filter:
  assumes "name_invariant Q"
  shows "names_for_overlap Q col ms =
           Inr (filter (\<lambda>n. (if col then dim_on_axis (snd (dims (qobj Q))) (snd (names Q)) n
                              else dim_on_axis (fst (dims (qobj Q))) (fst (names Q)) n) \<noteq> Inr (Some 1)) ms)"
proof (induction ms)
  case Nil
  show ?case by simp
next
  case (Cons m ms)
  from assms have l: "length (fst (names Q)) = length (fst (dims (qobj Q)))"
    "length (snd (names Q)) = length (snd (dims (qobj Q)))"
    by (simp_all add: name_invariant_def)
  from dim_on_axis_returns [OF l(1)] obtain d0 where
    d0: "dim_on_axis (fst (dims (qobj Q))) (fst (names Q)) m = Inr d0" by blast
  from dim_on_axis_returns [OF l(2)] obtain d1 where
    d1: "dim_on_axis (snd (dims (qobj Q))) (snd (names Q)) m = Inr d1" by blast
  from d0 d1 Cons show ?case by (simp add: dim_of_name_def)
qed


lemma names_Q_left_for_overlap_eq:
  assumes "name_invariant Q"
  shows "names_Q_left_for_overlap Q =
           Inr (map fst (filter (\<lambda>nd. snd nd \<noteq> 1) (zip (snd (names Q)) (snd (dims (qobj Q))))))"
proof -
  from assms have d: "distinct (snd (names Q))"
    and l: "length (snd (names Q)) = length (snd (dims (qobj Q)))"
    by (simp_all add: name_invariant_def)
  have "filter (\<lambda>n. dim_on_axis (snd (dims (qobj Q))) (snd (names Q)) n \<noteq> Inr (Some 1)) (snd (names Q))
        = map fst (filter (\<lambda>nd. snd nd \<noteq> 1) (zip (snd (names Q)) (snd (dims (qobj Q)))))"
    by (rule filter_zip [OF l]) (simp add: dim_on_axis_zip [OF d l])
  then show ?thesis
    by (simp add: names_Q_left_for_overlap_def names_for_overlap_filter [OF assms])
qed

lemma names_Q_right_for_overlap_eq:
  assumes "name_invariant Q"
  shows "names_Q_right_for_overlap Q =
           Inr (map fst (filter (\<lambda>nd. snd nd \<noteq> 1) (zip (fst (names Q)) (fst (dims (qobj Q))))))"
proof -
  from assms have d: "distinct (fst (names Q))"
    and l: "length (fst (names Q)) = length (fst (dims (qobj Q)))"
    by (simp_all add: name_invariant_def)
  have "filter (\<lambda>n. dim_on_axis (fst (dims (qobj Q))) (fst (names Q)) n \<noteq> Inr (Some 1)) (fst (names Q))
        = map fst (filter (\<lambda>nd. snd nd \<noteq> 1) (zip (fst (names Q)) (fst (dims (qobj Q)))))"
    by (rule filter_zip [OF l]) (simp add: dim_on_axis_zip [OF d l])
  then show ?thesis
    by (simp add: names_Q_right_for_overlap_def names_for_overlap_filter [OF assms])
qed

section \<open>Consequences of the backend laws\<close>

lemma lawful_typed:
  assumes "lawful_backend B"
  shows "b_isoper B q \<or> b_isket B q \<or> b_isbra B q"
proof -
  have "\<forall>q. b_isket B q \<or> b_isbra B q \<or> b_isoper B q"
    using assms unfolding lawful_backend_def by (elim conjE)
  then show ?thesis by blast
qed

lemma lawful_add_commute:
  assumes "lawful_backend B" and "b_add B p q = Inr s"
  shows "b_add B q p = Inr s"
proof -
  have "\<forall>p q s. b_add B p q = Inr s \<longrightarrow> b_add B q p = Inr s"
    using assms(1) unfolding lawful_backend_def by (elim conjE)
  with assms(2) show ?thesis by blast
qed

lemma lawful_add_dims:
  assumes "lawful_backend B" and "b_add B p q = Inr s"
  shows "dims p = dims q \<and> dims s = dims p"
proof -
  have "\<forall>p q s. b_add B p q = Inr s \<longrightarrow> dims p = dims q \<and> dims s = dims p"
    using assms(1) unfolding lawful_backend_def by (elim conjE)
  with assms(2) show ?thesis by blast
qed

lemma lawful_add_returns:
  assumes "lawful_backend B" and "dims p = dims q"
  shows "\<exists>s. b_add B p q = Inr s"
proof -
  have "\<forall>p q. dims p = dims q \<longrightarrow> (\<exists>s. b_add B p q = Inr s)"
    using assms(1) unfolding lawful_backend_def by (elim conjE)
  with assms(2) show ?thesis by blast
qed

lemma lawful_index_permute_returns:
  assumes "lawful_backend B"
    and "list_all (\<lambda>i. i < length ds0) o0" and "list_all (\<lambda>i. i < length ds1) o1"
  shows "\<exists>d'. b_index_permute B d ds0 (map int o0) ds1 (map int o1) = Inr d'"
proof -
  have "\<forall>d ds0 o0 ds1 o1.
            list_all (\<lambda>i. i < length ds0) o0 \<longrightarrow> list_all (\<lambda>i. i < length ds1) o1 \<longrightarrow>
            (\<exists>d'. b_index_permute B d ds0 (map int o0) ds1 (map int o1) = Inr d')"
    using assms(1) unfolding lawful_backend_def by (elim conjE)
  from this [rule_format, OF assms(2) assms(3)] show ?thesis .
qed

lemma lawful_tidied_dims:
  assumes "lawful_backend B"
  shows "dims (tidied B q) = dims q"
proof -
  have "\<forall>q. dims (b_tidyup B q) = dims q"
    using assms unfolding lawful_backend_def by (elim conjE)
  then show ?thesis by (simp add: tidied_def)
qed

lemma lawful_permute_add:
  assumes "lawful_backend B" and "b_add B p q = Inr s" and "index_permuted B s o0 o1 = Inr t"
  shows "\<exists>p' q'. index_permuted B p o0 o1 = Inr p' \<and> index_permuted B q o0 o1 = Inr q'
           \<and> b_add B p' q' = Inr t"
proof -
  have "\<forall>p q s o0 o1 t.
            b_add B p q = Inr s \<longrightarrow> index_permuted B s o0 o1 = Inr t \<longrightarrow>
            (\<exists>p' q'. index_permuted B p o0 o1 = Inr p' \<and> index_permuted B q o0 o1 = Inr q'
                     \<and> b_add B p' q' = Inr t)"
    using assms(1) unfolding lawful_backend_def by (elim conjE)
  from this [rule_format, OF assms(2) assms(3)] show ?thesis .
qed

lemma lawful_permute_compose:
  assumes "lawful_backend B" and "index_permuted B q (map int s0) (map int s1) = Inr q1"
    and "index_permuted B q1 (map int r0) (map int r1) = Inr q2"
  shows "index_permuted B q (map int (map ((!) s0) r0)) (map int (map ((!) s1) r1)) = Inr q2"
proof -
  have "\<forall>q s0 s1 r0 r1 q1 q2.
            index_permuted B q (map int s0) (map int s1) = Inr q1 \<longrightarrow>
            index_permuted B q1 (map int r0) (map int r1) = Inr q2 \<longrightarrow>
            index_permuted B q (map int (map ((!) s0) r0)) (map int (map ((!) s1) r1)) = Inr q2"
    using assms(1) unfolding lawful_backend_def by (elim conjE)
  from this [rule_format, OF assms(2) assms(3)] show ?thesis .
qed

lemma lawful_tidyup_permute:
  assumes "lawful_backend B" and "auto_tidyup B"
    and "index_permuted B (b_tidyup B q) o0 o1 = Inr u"
  shows "\<exists>v. index_permuted B q o0 o1 = Inr v \<and> u = b_tidyup B v"
proof -
  have "auto_tidyup B \<longrightarrow>
            (\<forall>q o0 o1 u. index_permuted B (b_tidyup B q) o0 o1 = Inr u \<longrightarrow>
               (\<exists>v. index_permuted B q o0 o1 = Inr v \<and> u = b_tidyup B v))"
    using assms(1) unfolding lawful_backend_def by (elim conjE)
  from this [rule_format, OF assms(2) assms(3)] show ?thesis .
qed

lemma lawful_eq_tidied:
  assumes "lawful_backend B"
  shows "b_eq B q (tidied B q)"
proof -
  have 1: "\<forall>q. b_eq B q q"
    using assms unfolding lawful_backend_def by (elim conjE)
  have 2: "auto_tidyup B \<longrightarrow> (\<forall>q. b_eq B q (b_tidyup B q))"
    using assms unfolding lawful_backend_def by (elim conjE)
  from 1 2 show ?thesis by (simp add: tidied_def)
qed

lemma tidied_index_permuted:
  assumes law: "lawful_backend B"
    and "index_permuted B (tidied B q) o0 o1 = Inr u"
  shows "\<exists>v. index_permuted B q o0 o1 = Inr v \<and> u = tidied B v"
proof (cases "auto_tidyup B")
  case True
  with assms(2) have "index_permuted B (b_tidyup B q) o0 o1 = Inr u" by (simp add: tidied_def)
  from lawful_tidyup_permute [OF law True this] True show ?thesis by (simp add: tidied_def)
next
  case False
  with assms(2) show ?thesis by (simp add: tidied_def)
qed

section \<open>Reordering a list by exchanges of neighbours\<close>

lemma swaps_sym: "swaps xs ys \<Longrightarrow> swaps ys xs"
  by (induction rule: swaps.induct) (auto intro: swaps.intros)

lemma swaps_set: "swaps xs ys \<Longrightarrow> set xs = set ys"
  by (induction rule: swaps.induct) auto

lemma swaps_Cons: "swaps xs ys \<Longrightarrow> swaps (a # xs) (a # ys)"
proof (induction rule: swaps.induct)
  case (same xs)
  show ?case by (rule swaps.same)
next
  case (swap xs y z ys)
  from swaps.swap [of "a # xs" y z ys] show ?case by simp
next
  case (step xs ys zs)
  then show ?case by (blast intro: swaps.step)
qed

lemma swaps_map: "swaps xs ys \<Longrightarrow> swaps (map f xs) (map f ys)"
proof (induction rule: swaps.induct)
  case (same xs)
  show ?case by (rule swaps.same)
next
  case (swap xs y z ys)
  from swaps.swap [of "map f xs" "f y" "f z" "map f ys"] show ?case by simp
next
  case (step xs ys zs)
  then show ?case by (blast intro: swaps.step)
qed

lemma swaps_to_front: "swaps (us @ x # vs) (x # us @ vs)"
proof (induction us arbitrary: vs rule: rev_induct)
  case Nil
  show ?case by (simp add: swaps.same)
next
  case (snoc u us)
  from swaps.swap [of us u x vs] have "swaps ((us @ [u]) @ x # vs) (us @ x # u # vs)" by simp
  moreover from snoc [of "u # vs"] have "swaps (us @ x # u # vs) (x # (us @ [u]) @ vs)" by simp
  ultimately show ?case by (rule swaps.step)
qed

lemma swaps_distinct:
  assumes "distinct xs" and "distinct ys" and "set xs = set ys"
  shows "swaps xs ys"
  using assms
proof (induction xs arbitrary: ys)
  case Nil
  then show ?case by (simp add: swaps.same)
next
  case (Cons x xs)
  from Cons.prems have "x \<in> set ys" by auto
  then obtain us vs where ys: "ys = us @ x # vs" by (auto dest: split_list)
  with Cons.prems have "distinct (us @ vs)" and "set xs = set (us @ vs)" by auto
  with Cons.IH [of "us @ vs"] Cons.prems have "swaps xs (us @ vs)" by simp
  then have "swaps (x # xs) (x # us @ vs)" by (rule swaps_Cons)
  moreover have "swaps (x # us @ vs) ys" unfolding ys by (rule swaps_sym [OF swaps_to_front])
  ultimately show ?case by (rule swaps.step)
qed

lemma length_block_swap [simp]: "length (block_swap n ly lz m) = n + ly + lz + m"
  by (simp add: block_swap_def)

lemma block_swap_range: "list_all (\<lambda>i. i < n + ly + lz + m) (block_swap n ly lz m)"
  by (auto simp: block_swap_def list_all_iff)

lemma map_nth_block: "map ((!) (A @ M @ C)) [length A..<length A + length M] = M"
  by (rule nth_equalityI) (simp_all add: nth_append)

lemma map_nth_block_swap:
  "map ((!) (X @ Y @ Z @ W)) (block_swap (length X) (length Y) (length Z) (length W))
     = X @ Z @ Y @ W"
proof -
  have 1: "map ((!) (X @ Y @ Z @ W)) [0..<length X] = X"
    using map_nth_block [of "[]" X "Y @ Z @ W"] by simp
  have 2: "map ((!) (X @ Y @ Z @ W)) [length X + length Y..<length X + length Y + length Z] = Z"
    using map_nth_block [of "X @ Y" Z W] by (simp add: add.assoc)
  have 3: "map ((!) (X @ Y @ Z @ W)) [length X..<length X + length Y] = Y"
    using map_nth_block [of X Y "Z @ W"] by simp
  have 4: "map ((!) (X @ Y @ Z @ W))
             [length X + length Y + length Z..<length X + length Y + length Z + length W] = W"
    using map_nth_block [of "X @ Y @ Z" W "[]"] by (simp add: add.assoc)
  show ?thesis by (simp add: block_swap_def 1 2 3 4)
qed

lemma list_index_nth:
  "distinct xs \<Longrightarrow> j < length xs \<Longrightarrow> list_index xs (xs ! j) = Some j"
proof (induction xs arbitrary: j)
  case Nil
  then show ?case by simp
next
  case (Cons x xs)
  then show ?case by (cases j) (auto simp: nth_Cons')
qed

lemma mapE_py_index_map_nth:
  "distinct ns \<Longrightarrow> list_all (\<lambda>i. i < length ns) idx \<Longrightarrow> mapE (py_index ns) (map ((!) ns) idx) = Inr idx"
  by (induction idx) (simp_all add: py_index_def list_index_nth)

section \<open>The two sums\<close>

lemma add_required_sets:
  "set (fst (add_find_required_names a b)) = set (fst (add_find_required_names b a))"
  "set (snd (add_find_required_names a b)) = set (snd (add_find_required_names b a))"
  by (auto simp: add_find_required_names_def)

lemma NQobj_add_Inr:
  assumes "NQobj_add B a (OpNQobj b) = Inr (RNQobj r)"
  shows "\<exists>k a1 a2 b1 b2.
           kind a = Some k \<and> kind b = Some k
         \<and> padded B a b (add_find_required_names a b) k = Inr a1
         \<and> permute B a1 (names_val (add_find_required_names a b)) = Inr a2
         \<and> padded B b a (add_find_required_names a b) k = Inr b1
         \<and> permute B b1 (names_val (add_find_required_names a b)) = Inr b2
         \<and> b_add B (qobj a2) (qobj b2) = Inr (qobj r)
         \<and> names r = add_find_required_names a b"
proof -
  from assms obtain k mds mdo a1 a2 b1 b2 where
    ka: "get_kind a = Inr k" and kb: "get_kind b = Inr k"
    and mds: "find_missing_dict B (find_missing_names B (names a) (add_find_required_names a b)) b False = Inr mds"
    and mdo: "find_missing_dict B (find_missing_names B (names b) (add_find_required_names a b)) a False = Inr mdo"
    and a1: "adding_missing_modes B a mds k = Inr a1"
    and a2: "permute B a1 (names_val (add_find_required_names a b)) = Inr a2"
    and b1: "adding_missing_modes B b mdo k = Inr b1"
    and b2: "permute B b1 (names_val (add_find_required_names a b)) = Inr b2"
    and rw: "rewrap B a2 (b_add B (qobj a2) (qobj b2)) (add_find_required_names a b) = Inr r"
    by (auto simp: NQobj_add_def Let_def bindE_eq_Inr split: if_splits)
  from mds a1 have pa: "padded B a b (add_find_required_names a b) k = Inr a1"
    by (simp add: padded_def)
  from mdo b1 have pb: "padded B b a (add_find_required_names a b) k = Inr b1"
    by (simp add: padded_def)
  from ka kb have kk: "kind a = Some k" "kind b = Some k" by (simp_all add: get_kind_eq_Inr)
  from rewrap_sound [OF rw]
  have "b_add B (qobj a2) (qobj b2) = Inr (qobj r)" "names r = add_find_required_names a b"
    by simp_all
  with pa pb a2 b2 kk show ?thesis by blast
qed

text \<open>One padded operand: it is permuted to the names of \<open>a + b\<close> directly, or to the
  names of \<open>b + a\<close> and then, inside the sum, to those of \<open>a + b\<close>.\<close>

lemma operand_two_ways:
  assumes law: "lawful_backend B"
    and x2: "permute B x1 (names_val nms) = Inr x2"
    and x2': "permute B x1 (names_val nms') = Inr x2'"
    and r0: "mapE (py_index (fst nms')) (fst nms) = Inr r0"
    and r1: "mapE (py_index (snd nms')) (snd nms) = Inr r1"
    and p: "index_permuted B (qobj x2') (map int r0) (map int r1) = Inr p"
  shows "p = qobj x2"
proof -
  from law have typed: "b_isoper B (qobj x1) \<or> b_isket B (qobj x1) \<or> b_isbra B (qobj x1)"
    by (rule lawful_typed)
  from permute_names_val [OF typed x2] obtain s0 s1 w where
    s0: "mapE (py_index (fst (names x1))) (fst nms) = Inr s0"
    and s1: "mapE (py_index (snd (names x1))) (snd nms) = Inr s1"
    and w: "index_permuted B (qobj x1) (map int s0) (map int s1) = Inr w"
    and qx2: "qobj x2 = tidied B w"
    by blast
  from permute_names_val [OF typed x2'] obtain s0' s1' w' where
    s0': "mapE (py_index (fst (names x1))) (fst nms') = Inr s0'"
    and s1': "mapE (py_index (snd (names x1))) (snd nms') = Inr s1'"
    and w': "index_permuted B (qobj x1) (map int s0') (map int s1') = Inr w'"
    and qx2': "qobj x2' = tidied B w'"
    by blast
  from p qx2' have "index_permuted B (tidied B w') (map int r0) (map int r1) = Inr p" by simp
  from tidied_index_permuted [OF law this] obtain v where
    v: "index_permuted B w' (map int r0) (map int r1) = Inr v" and pv: "p = tidied B v"
    by blast
  from lawful_permute_compose [OF law w' v]
  have "index_permuted B (qobj x1) (map int (map ((!) s0') r0)) (map int (map ((!) s1') r1)) = Inr v" .
  with index_compose [OF s0' r0 s0] index_compose [OF s1' r1 s1]
  have "index_permuted B (qobj x1) (map int s0) (map int s1) = Inr v" by simp
  with w have "v = w" by simp
  with pv qx2 show ?thesis by simp
qed



lemma mapE_py_index_returns:
  "set ms \<subseteq> set ns \<Longrightarrow> \<exists>idx. mapE (py_index ns) ms = Inr idx"
proof (induction ms)
  case Nil
  show ?case by simp
next
  case (Cons m ms)
  then obtain idx where idx: "mapE (py_index ns) ms = Inr idx" by auto
  from Cons.prems have "m \<in> set ns" by simp
  then have "\<exists>i. list_index ns m = Some i"
    by (induction ns) auto
  then obtain i where "py_index ns m = Inr i" by (auto simp: py_index_def)
  with idx show ?case by simp
qed

lemma mapE_py_index_range:
  "mapE (py_index ns) ms = Inr idx \<Longrightarrow> list_all (\<lambda>i. i < length ns) idx"
  by (induction ms arbitrary: idx) (auto simp: bindE_eq_Inr dest: py_index_Inr)

lemma mapE_py_index_subset:
  "mapE (py_index ns) ms = Inr idx \<Longrightarrow> set ms \<subseteq> set ns"
  by (induction ms arbitrary: idx) (auto simp: bindE_eq_Inr dest: py_index_Inr)

lemma mapE_py_getitem_nat:
  "list_all (\<lambda>i. i < length xs) idx \<Longrightarrow> mapE (py_getitem xs) (map int idx) = Inr (map ((!) xs) idx)"
  by (induction idx) (simp_all add: py_getitem_nat)

lemma index_permuted_returns:
  assumes law: "lawful_backend B"
    and r0: "list_all (\<lambda>i. i < length (fst (dims q))) o0"
    and r1: "list_all (\<lambda>i. i < length (snd (dims q))) o1"
  shows "\<exists>u. index_permuted B q (map int o0) (map int o1) = Inr u
             \<and> dims u = (map ((!) (fst (dims q))) o0, map ((!) (snd (dims q))) o1)"
proof -
  from lawful_index_permute_returns [OF law r0 r1] obtain d' where
    "b_index_permute B (data q) (fst (dims q)) (map int o0) (snd (dims q)) (map int o1) = Inr d'"
    by blast
  with r0 r1 show ?thesis
    by (simp add: index_permuted_def permute_manual_def mapE_py_getitem_nat)
qed

lemma rewrap_returns:
  assumes "kind y = Some k" and "distinct (fst ns)" and "distinct (snd ns)"
    and "length (fst ns) = length (fst (dims q))" and "length (snd ns) = length (snd (dims q))"
  shows "\<exists>z. rewrap B y (Inr q) ns = Inr z \<and> qobj z = q"
proof -
  have "init_names q (names_val ns) = Inr ns"
    using assms(2-5)
    by (cases ns) (simp add: init_names_def names_val_def Let_def shape_dims_def distinct_map inj_on_def comp_def)
  with assms(1) show ?thesis
    by (simp add: rewrap_def get_kind_def NQobj_init_def)
qed


lemma permute_names_val_returns:
  assumes law: "lawful_backend B"
    and inv: "name_invariant y" and k: "kind y = Some k"
    and d0: "distinct (fst ns)" and d1: "distinct (snd ns)"
    and sub0: "set (fst ns) \<subseteq> set (fst (names y))"
    and sub1: "set (snd ns) \<subseteq> set (snd (names y))"
  shows "\<exists>z. permute B y (names_val ns) = Inr z"
proof -
  from mapE_py_index_returns [OF sub0] obtain i0 where
    i0: "mapE (py_index (fst (names y))) (fst ns) = Inr i0" by blast
  from mapE_py_index_returns [OF sub1] obtain i1 where
    i1: "mapE (py_index (snd (names y))) (snd ns) = Inr i1" by blast
  from mapE_py_index_range [OF i0] inv
  have r0: "list_all (\<lambda>i. i < length (fst (dims (qobj y)))) i0"
    by (simp add: name_invariant_def)
  from mapE_py_index_range [OF i1] inv
  have r1: "list_all (\<lambda>i. i < length (snd (dims (qobj y)))) i1"
    by (simp add: name_invariant_def)
  from index_permuted_returns [OF law r0 r1] obtain u where
    u: "index_permuted B (qobj y) (map int i0) (map int i1) = Inr u"
    and du: "dims u = (map ((!) (fst (dims (qobj y)))) i0, map ((!) (snd (dims (qobj y)))) i1)"
    by blast
  from u obtain dd where dd: "permute_manual B (qobj y) (map int i0) (map int i1) = Inr dd"
    and udd: "u = \<lparr>data = fst dd, dims = snd dd\<rparr>"
    by (auto simp: index_permuted_def bindE_eq_Inr)
  have len0: "length (fst ns) = length (fst (dims (tidied B u)))"
    using du i0 by (simp add: lawful_tidied_dims [OF law] mapE_eq_Inr_length)
  have len1: "length (snd ns) = length (snd (dims (tidied B u)))"
    using du i1 by (simp add: lawful_tidied_dims [OF law] mapE_eq_Inr_length)
  from rewrap_returns [OF k d0 d1 len0 len1] obtain z where
    rw: "rewrap B y (Inr (tidied B u)) ns = Inr z" by blast
  have "permute B y (names_val ns) = Inr z"
    unfolding permute_def permute_flat_names_val permute_pair_names_val bindE_simps i0 i1
      permute2_pair [OF lawful_typed [OF law]] dd
    using names_back [OF i0] names_back [OF i1] rw
    by (simp add: Let_def py_getitem_def tidied_def udd)
  then show ?thesis by blast
qed


lemma mapE_py_getitem_Inr:
  "mapE (py_getitem xs) (map int idx) = Inr ys \<Longrightarrow> ys = map ((!) xs) idx"
  by (induction idx arbitrary: ys) (auto simp: bindE_eq_Inr py_getitem_def split: if_splits)

lemma index_permuted_dims:
  assumes "index_permuted B q (map int o0) (map int o1) = Inr u"
  shows "dims u = (map ((!) (fst (dims q))) o0, map ((!) (snd (dims q))) o1)"
  using assms
  by (auto simp: index_permuted_def permute_manual_def bindE_eq_Inr dest: mapE_py_getitem_Inr)

lemma nth_map_compose:
  "list_all (\<lambda>j. j < length s) r \<Longrightarrow> map ((!) xs) (map ((!) s) r) = map ((!) (map ((!) xs) s)) r"
  by (induction r) simp_all

lemma padded_sound:
  assumes "padded B x other req k = Inr x1"
  shows "kind x1 = kind x \<and> name_invariant x1"
  using assms by (auto simp: padded_def bindE_eq_Inr dest: adding_missing_modes_sound)

text \<open>The dims of an object permuted to the names \<open>nms'\<close> are the dims of the same
  object permuted to \<open>nms\<close>, read at the positions of \<open>nms'\<close> in \<open>nms\<close>.\<close>

lemma permuted_dims_two_ways:
  assumes law: "lawful_backend B"
    and x2: "permute B x1 (names_val nms) = Inr x2"
    and x2': "permute B x1 (names_val nms') = Inr x2'"
    and r0: "mapE (py_index (fst nms)) (fst nms') = Inr r0"
    and r1: "mapE (py_index (snd nms)) (snd nms') = Inr r1"
  shows "dims (qobj x2') = (map ((!) (fst (dims (qobj x2)))) r0, map ((!) (snd (dims (qobj x2)))) r1)"
proof -
  from law have typed: "b_isoper B (qobj x1) \<or> b_isket B (qobj x1) \<or> b_isbra B (qobj x1)"
    by (rule lawful_typed)
  from permute_names_val [OF typed x2] obtain s0 s1 w where
    s0: "mapE (py_index (fst (names x1))) (fst nms) = Inr s0"
    and s1: "mapE (py_index (snd (names x1))) (snd nms) = Inr s1"
    and w: "index_permuted B (qobj x1) (map int s0) (map int s1) = Inr w"
    and qx2: "qobj x2 = tidied B w"
    by blast
  from permute_names_val [OF typed x2'] obtain s0' s1' w' where
    s0': "mapE (py_index (fst (names x1))) (fst nms') = Inr s0'"
    and s1': "mapE (py_index (snd (names x1))) (snd nms') = Inr s1'"
    and w': "index_permuted B (qobj x1) (map int s0') (map int s1') = Inr w'"
    and qx2': "qobj x2' = tidied B w'"
    by blast
  have l0: "list_all (\<lambda>j. j < length s0) r0"
    using mapE_py_index_range [OF r0] mapE_eq_Inr_length [OF s0] by simp
  have l1: "list_all (\<lambda>j. j < length s1) r1"
    using mapE_py_index_range [OF r1] mapE_eq_Inr_length [OF s1] by simp
  have e0: "s0' = map ((!) s0) r0" using index_compose [OF s0 r0 s0'] by simp
  have e1: "s1' = map ((!) s1) r1" using index_compose [OF s1 r1 s1'] by simp
  have "dims (qobj x2') = dims w'" by (simp add: qx2' lawful_tidied_dims [OF law])
  also have "\<dots> = (map ((!) (fst (dims (qobj x1)))) s0', map ((!) (snd (dims (qobj x1)))) s1')"
    by (rule index_permuted_dims [OF w'])
  also have "\<dots> = (map ((!) (fst (dims w))) r0, map ((!) (snd (dims w))) r1)"
    unfolding e0 e1 nth_map_compose [OF l0] nth_map_compose [OF l1] index_permuted_dims [OF w]
    by simp
  also have "dims w = dims (qobj x2)" by (simp add: qx2 lawful_tidied_dims [OF law])
  finally show ?thesis .
qed

lemma NQobj_add_types:
  assumes "NQobj_add B a (OpNQobj b) = Inr (RNQobj r)"
  shows "b_type B (qobj a) = b_type B (qobj b)"
  using assms by (auto simp: NQobj_add_def split: if_splits)

lemma NQobj_add_InrI:
  assumes ty: "b_type B (qobj a) = b_type B (qobj b)"
    and ka: "kind a = Some k" and kb: "kind b = Some k"
    and typed: "b_isoper B (qobj a) \<or> b_isket B (qobj a) \<or> b_isbra B (qobj a)"
    and a1: "padded B a b (add_find_required_names a b) k = Inr a1"
    and a2: "permute B a1 (names_val (add_find_required_names a b)) = Inr a2"
    and b1: "padded B b a (add_find_required_names a b) k = Inr b1"
    and b2: "permute B b1 (names_val (add_find_required_names a b)) = Inr b2"
    and rw: "rewrap B a2 (b_add B (qobj a2) (qobj b2)) (add_find_required_names a b) = Inr r"
  shows "NQobj_add B a (OpNQobj b) = Inr (RNQobj r)"
proof -
  from a1 obtain mds where
    mds: "find_missing_dict B (find_missing_names B (names a) (add_find_required_names a b)) b False = Inr mds"
    and a1': "adding_missing_modes B a mds k = Inr a1"
    by (auto simp: padded_def bindE_eq_Inr)
  from b1 obtain mdo where
    mdo: "find_missing_dict B (find_missing_names B (names b) (add_find_required_names a b)) a False = Inr mdo"
    and b1': "adding_missing_modes B b mdo k = Inr b1"
    by (auto simp: padded_def bindE_eq_Inr)
  from typed have t: "b_isket B (qobj a) \<or> b_isbra B (qobj a) \<or> b_isoper B (qobj a)" by blast
  show ?thesis
    using ty t rw
    by (simp add: NQobj_add_def Let_def get_kind_def ka kb mds mdo a1' b1' a2 b2)
qed


lemma distinct_add_find_required_names:
  "distinct (fst (add_find_required_names a b))" "distinct (snd (add_find_required_names a b))"
  by (simp_all add: add_find_required_names_def)

section \<open>The tensor product of named tensors in two orders\<close>

lemma lawful_tensor_dims:
  assumes "lawful_backend B" and "b_tensor B qs = Inr t"
  shows "dims t = (concat (map (\<lambda>q. fst (dims q)) qs), concat (map (\<lambda>q. snd (dims q)) qs))"
proof -
  have "\<forall>qs t. b_tensor B qs = Inr t \<longrightarrow>
            dims t = (concat (map (\<lambda>q. fst (dims q)) qs), concat (map (\<lambda>q. snd (dims q)) qs))"
    using assms(1) unfolding lawful_backend_def by (elim conjE)
  with assms(2) show ?thesis by blast
qed

lemma lawful_tensor_swap:
  assumes "lawful_backend B" and "b_tensor B (xs @ y # z # ys) = Inr t"
  shows "\<exists>t'. b_tensor B (xs @ z # y # ys) = Inr t'
                \<and> index_permuted B t
                     (map int (block_swap (row_modes xs) (row_modes [y]) (row_modes [z]) (row_modes ys)))
                     (map int (block_swap (col_modes xs) (col_modes [y]) (col_modes [z]) (col_modes ys)))
                   = Inr t'"
proof -
  have "\<forall>xs y z ys t. b_tensor B (xs @ y # z # ys) = Inr t \<longrightarrow>
            (\<exists>t'. b_tensor B (xs @ z # y # ys) = Inr t'
                \<and> index_permuted B t
                     (map int (block_swap (row_modes xs) (row_modes [y]) (row_modes [z]) (row_modes ys)))
                     (map int (block_swap (col_modes xs) (col_modes [y]) (col_modes [z]) (col_modes ys)))
                   = Inr t')"
    using assms(1) unfolding lawful_backend_def by (elim conjE)
  from this [rule_format, OF assms(2)] show ?thesis .
qed

lemma lawful_set_order:
  assumes "lawful_backend B"
  shows "set (set_order B xs) = set xs"
proof -
  have "\<forall>xs. set (set_order B xs) = set xs"
    using assms unfolding lawful_backend_def by (elim conjE)
  then show ?thesis by blast
qed

lemma lawful_set_diff_order:
  assumes "lawful_backend B"
  shows "set (set_diff_order B xs ys) = set xs - set ys"
proof -
  have "\<forall>xs ys. set (set_diff_order B xs ys) = set xs - set ys"
    using assms unfolding lawful_backend_def by (elim conjE)
  then show ?thesis by blast
qed

lemma init_names_names_val_eq:
  "init_names q (names_val ns) =
     (if \<not> distinct (fst ns) \<or> \<not> distinct (snd ns) then Inl (ValueError ''Do not use duplicate names.'')
      else if (length (fst ns), length (snd ns)) \<noteq> shape_dims q then
        Inl (ValueError ''The number of names must match the shape_dims.'')
      else Inr ns)"
  by (cases ns) (simp add: init_names_def names_val_def Let_def distinct_map inj_on_def comp_def)

lemma NQobj_init_names_val_eq:
  "NQobj_init B q (names_val ns) (kind_val k) = Inr x \<longleftrightarrow>
     distinct (fst ns) \<and> distinct (snd ns)
     \<and> length (fst ns) = length (fst (dims q)) \<and> length (snd ns) = length (snd (dims q))
     \<and> x = \<lparr>qobj = q, names = ns, kind = Some k\<rparr>"
  by (auto simp: NQobj_init_def init_names_names_val_eq shape_dims_def)

lemma rewrap_eq:
  "rewrap B y (Inr q) ns = Inr x \<longleftrightarrow>
     (\<exists>k. kind y = Some k \<and> distinct (fst ns) \<and> distinct (snd ns)
     \<and> length (fst ns) = length (fst (dims q)) \<and> length (snd ns) = length (snd (dims q))
     \<and> x = \<lparr>qobj = q, names = ns, kind = Some k\<rparr>)"
  by (auto simp: rewrap_def bindE_eq_Inr get_kind_eq_Inr NQobj_init_names_val_eq)

lemma mapE_get_kind:
  "mapE get_kind args = Inr ks \<longleftrightarrow> map kind args = map Some ks"
  by (induction args arbitrary: ks) (auto simp: bindE_eq_Inr get_kind_eq_Inr)

lemma tensor_eq:
  "tensor B args = Inr x \<longleftrightarrow>
     (\<exists>q k. b_tensor B (map qobj args) = Inr q \<and> args \<noteq> [] \<and> list_all (\<lambda>a. kind a = Some k) args
        \<and> NQobj_init B q (names_val (concat (map (\<lambda>a. fst (names a)) args),
                                       concat (map (\<lambda>a. snd (names a)) args))) (kind_val k) = Inr x)"
proof
  assume t: "tensor B args = Inr x"
  then obtain q kinds where q: "b_tensor B (map qobj args) = Inr q"
    and kinds: "mapE get_kind args = Inr kinds"
    and rest: "(case kinds of
          [] \<Rightarrow> Inl (IndexError ''index 0 is out of bounds for axis 0 with size 0'')
        | k0 # ks \<Rightarrow>
            if \<not> list_all (\<lambda>k. k = k0) kinds then
              Inl (AttributeError ''For tensor product the kind of all NQobj should be the same.'')
            else NQobj_init B q
                   (names_val (concat (map (\<lambda>a. fst (names a)) args),
                               concat (map (\<lambda>a. snd (names a)) args)))
                   (kind_val k0)) = Inr x"
    unfolding tensor_def Let_def bindE_eq_Inr by blast
  from rest obtain k0 ks where ks: "kinds = k0 # ks" by (cases kinds) auto
  with rest have all: "list_all (\<lambda>k. k = k0) kinds"
    and i: "NQobj_init B q (names_val (concat (map (\<lambda>a. fst (names a)) args),
              concat (map (\<lambda>a. snd (names a)) args))) (kind_val k0) = Inr x"
    by (auto split: if_splits)
  from kinds have mk: "map kind args = map Some kinds" by (simp add: mapE_get_kind)
  with ks have ne: "args \<noteq> []" by auto
  have "list_all (\<lambda>a. kind a = Some k0) args"
    unfolding list_all_iff
  proof
    fix a assume "a \<in> set args"
    then have "kind a \<in> set (map kind args)" by simp
    with mk have "kind a \<in> Some ` set kinds" by simp
    with all show "kind a = Some k0" by (auto simp: list_all_iff)
  qed
  with q ne i show "\<exists>q k. b_tensor B (map qobj args) = Inr q \<and> args \<noteq> []
        \<and> list_all (\<lambda>a. kind a = Some k) args
        \<and> NQobj_init B q (names_val (concat (map (\<lambda>a. fst (names a)) args),
                                       concat (map (\<lambda>a. snd (names a)) args))) (kind_val k) = Inr x"
    by blast
next
  assume "\<exists>q k. b_tensor B (map qobj args) = Inr q \<and> args \<noteq> [] \<and> list_all (\<lambda>a. kind a = Some k) args
        \<and> NQobj_init B q (names_val (concat (map (\<lambda>a. fst (names a)) args),
                                       concat (map (\<lambda>a. snd (names a)) args))) (kind_val k) = Inr x"
  then obtain q k where q: "b_tensor B (map qobj args) = Inr q" and ne: "args \<noteq> []"
    and all: "list_all (\<lambda>a. kind a = Some k) args"
    and i: "NQobj_init B q (names_val (concat (map (\<lambda>a. fst (names a)) args),
                concat (map (\<lambda>a. snd (names a)) args))) (kind_val k) = Inr x"
    by blast
  from all have "map kind args = map Some (replicate (length args) k)"
    by (induction args) simp_all
  then have kinds: "mapE get_kind args = Inr (replicate (length args) k)"
    by (simp add: mapE_get_kind)
  from ne obtain n where n: "length args = Suc n" by (cases args) auto
  show "tensor B args = Inr x"
    unfolding tensor_def Let_def q kinds bindE_simps n
    using i by (simp add: list_all_iff)
qed

lemma permute_names_val_eq:
  assumes typed: "b_isoper B (qobj y) \<or> b_isket B (qobj y) \<or> b_isbra B (qobj y)"
  shows "permute B y (names_val ns) =
           bindE (mapE (py_index (fst (names y))) (fst ns)) (\<lambda>i0.
           bindE (mapE (py_index (snd (names y))) (snd ns)) (\<lambda>i1.
           bindE (index_permuted B (qobj y) (map int i0) (map int i1)) (\<lambda>u.
           rewrap B y (Inr (tidied B u)) ns)))"
proof (cases "mapE (py_index (fst (names y))) (fst ns)")
  case (Inl e)
  then show ?thesis
    by (simp add: permute_def permute_pair_names_val)
next
  case i0: (Inr i0)
  show ?thesis
  proof (cases "mapE (py_index (snd (names y))) (snd ns)")
    case (Inl e)
    with i0 show ?thesis
      by (simp add: permute_def permute_pair_names_val)
  next
    case i1: (Inr i1)
    show ?thesis
    proof (cases "permute_manual B (qobj y) (map int i0) (map int i1)")
      case (Inl e)
      then show ?thesis
        unfolding permute_def permute_flat_names_val permute_pair_names_val bindE_simps i0 i1
          permute2_pair [OF typed] index_permuted_def
        by simp
    next
      case (Inr dd)
      then show ?thesis
        unfolding permute_def permute_flat_names_val permute_pair_names_val bindE_simps i0 i1
          permute2_pair [OF typed] index_permuted_def
        using names_back [OF i0] names_back [OF i1]
        by (simp add: Let_def py_getitem_def tidied_def)
    qed
  qed
qed

lemma row_modes_names:
  "list_all name_invariant as \<Longrightarrow>
     row_modes (map qobj as) = length (concat (map (\<lambda>a. fst (names a)) as))"
  by (induction as) (simp_all add: row_modes_def name_invariant_def)

lemma col_modes_names:
  "list_all name_invariant as \<Longrightarrow>
     col_modes (map qobj as) = length (concat (map (\<lambda>a. snd (names a)) as))"
  by (induction as) (simp_all add: col_modes_def name_invariant_def)

text \<open>Looking a list of names up in a list, and in the same list read at the positions
  \<open>p\<close>: the second positions, sent through \<open>p\<close>, are the first.\<close>

lemma lookup_through_positions:
  assumes d: "distinct N" and r: "list_all (\<lambda>i. i < length N) p"
    and i': "mapE (py_index (map ((!) N) p)) ms = Inr i'"
  shows "mapE (py_index N) ms = Inr (map ((!) p) i')"
proof -
  have p: "mapE (py_index N) (map ((!) N) p) = Inr p"
    by (rule mapE_py_index_map_nth [OF d r])
  from mapE_py_index_subset [OF i'] r have "set ms \<subseteq> set N"
    by (auto simp: list_all_iff)
  from mapE_py_index_returns [OF this] obtain s where s: "mapE (py_index N) ms = Inr s" by blast
  from index_compose [OF p i' s] s show ?thesis by simp
qed

lemma tensor_swap_step:
  assumes law: "lawful_backend B"
    and inv: "list_all name_invariant (xs @ y # z # ys)"
    and t: "tensor B (xs @ y # z # ys) = Inr x"
  shows "\<exists>x'. tensor B (xs @ z # y # ys) = Inr x'
           \<and> (\<forall>ns v. permute B x' (names_val ns) = Inr v \<longrightarrow> permute B x (names_val ns) = Inr v)"
proof -
  define X0 where "X0 = concat (map (\<lambda>a. fst (names a)) xs)"
  define W0 where "W0 = concat (map (\<lambda>a. fst (names a)) ys)"
  define X1 where "X1 = concat (map (\<lambda>a. snd (names a)) xs)"
  define W1 where "W1 = concat (map (\<lambda>a. snd (names a)) ys)"
  define N0 where "N0 = X0 @ fst (names y) @ fst (names z) @ W0"
  define N1 where "N1 = X1 @ snd (names y) @ snd (names z) @ W1"
  define N0' where "N0' = X0 @ fst (names z) @ fst (names y) @ W0"
  define N1' where "N1' = X1 @ snd (names z) @ snd (names y) @ W1"
  define s0 where "s0 = block_swap (length X0) (length (fst (names y))) (length (fst (names z))) (length W0)"
  define s1 where "s1 = block_swap (length X1) (length (snd (names y))) (length (snd (names z))) (length W1)"
  have nm: "(concat (map (\<lambda>a. fst (names a)) (xs @ y # z # ys)),
             concat (map (\<lambda>a. snd (names a)) (xs @ y # z # ys))) = (N0, N1)"
    by (simp add: N0_def N1_def X0_def X1_def W0_def W1_def)
  have nm': "(concat (map (\<lambda>a. fst (names a)) (xs @ z # y # ys)),
              concat (map (\<lambda>a. snd (names a)) (xs @ z # y # ys))) = (N0', N1')"
    by (simp add: N0'_def N1'_def X0_def X1_def W0_def W1_def)
  from t obtain q k where q: "b_tensor B (map qobj (xs @ y # z # ys)) = Inr q"
    and all: "list_all (\<lambda>a. kind a = Some k) (xs @ y # z # ys)"
    and i: "NQobj_init B q (names_val (N0, N1)) (kind_val k) = Inr x"
    unfolding tensor_eq nm by blast
  from i have d0: "distinct N0" and d1: "distinct N1"
    and l0: "length N0 = length (fst (dims q))" and l1: "length N1 = length (snd (dims q))"
    and x: "x = \<lparr>qobj = q, names = (N0, N1), kind = Some k\<rparr>"
    by (simp_all add: NQobj_init_names_val_eq)
  from inv have ixs: "list_all name_invariant xs" and iys: "list_all name_invariant ys"
    and iy: "name_invariant y" and iz: "name_invariant z" by simp_all
  have r0: "row_modes (map qobj xs) = length X0" "row_modes (map qobj ys) = length W0"
    "row_modes [qobj y] = length (fst (names y))" "row_modes [qobj z] = length (fst (names z))"
    using row_modes_names [OF ixs] row_modes_names [OF iys] iy iz
    by (simp_all add: X0_def W0_def row_modes_def name_invariant_def)
  have r1: "col_modes (map qobj xs) = length X1" "col_modes (map qobj ys) = length W1"
    "col_modes [qobj y] = length (snd (names y))" "col_modes [qobj z] = length (snd (names z))"
    using col_modes_names [OF ixs] col_modes_names [OF iys] iy iz
    by (simp_all add: X1_def W1_def col_modes_def name_invariant_def)
  from q have "b_tensor B (map qobj xs @ qobj y # qobj z # map qobj ys) = Inr q" by simp
  from lawful_tensor_swap [OF law this] obtain t' where
    t': "b_tensor B (map qobj (xs @ z # y # ys)) = Inr t'"
    and ip: "index_permuted B q (map int s0) (map int s1) = Inr t'"
    unfolding r0 r1 s0_def s1_def by auto
  have g0: "map ((!) N0) s0 = N0'" unfolding N0_def N0'_def s0_def by (rule map_nth_block_swap)
  have g1: "map ((!) N1) s1 = N1'" unfolding N1_def N1'_def s1_def by (rule map_nth_block_swap)
  have rg0: "list_all (\<lambda>i. i < length N0) s0"
    using block_swap_range [of "length X0" "length (fst (names y))" "length (fst (names z))" "length W0"]
    by (simp add: N0_def s0_def add.assoc)
  have rg1: "list_all (\<lambda>i. i < length N1) s1"
    using block_swap_range [of "length X1" "length (snd (names y))" "length (snd (names z))" "length W1"]
    by (simp add: N1_def s1_def add.assoc)
  from index_permuted_dims [OF ip]
  have dt: "length (fst (dims t')) = length N0'" "length (snd (dims t')) = length N1'"
    by (simp_all add: s0_def s1_def N0'_def N1'_def)
  from d0 have d0': "distinct N0'" unfolding N0_def N0'_def by auto
  from d1 have d1': "distinct N1'" unfolding N1_def N1'_def by auto
  define x' where "x' = \<lparr>qobj = t', names = (N0', N1'), kind = Some k\<rparr>"
  from all have all': "list_all (\<lambda>a. kind a = Some k) (xs @ z # y # ys)" by simp
  have "NQobj_init B t' (names_val (N0', N1')) (kind_val k) = Inr x'"
    using d0' d1' dt by (simp add: NQobj_init_names_val_eq x'_def)
  with t' all' have tx': "tensor B (xs @ z # y # ys) = Inr x'"
    unfolding tensor_eq nm' by blast
  have typed: "b_isoper B p \<or> b_isket B p \<or> b_isbra B p" for p
    using law by (rule lawful_typed)
  have "permute B x (names_val ns) = Inr v" if pv: "permute B x' (names_val ns) = Inr v" for ns v
  proof -
    from pv obtain i0 i1 u where
      i0: "mapE (py_index N0') (fst ns) = Inr i0" and i1: "mapE (py_index N1') (snd ns) = Inr i1"
      and u: "index_permuted B t' (map int i0) (map int i1) = Inr u"
      and rw: "rewrap B x' (Inr (tidied B u)) ns = Inr v"
      unfolding permute_names_val_eq [OF typed] bindE_eq_Inr by (auto simp: x'_def)
    from i0 g0 have "mapE (py_index (map ((!) N0) s0)) (fst ns) = Inr i0" by simp
    from lookup_through_positions [OF d0 rg0 this]
    have j0: "mapE (py_index N0) (fst ns) = Inr (map ((!) s0) i0)" .
    from i1 g1 have "mapE (py_index (map ((!) N1) s1)) (snd ns) = Inr i1" by simp
    from lookup_through_positions [OF d1 rg1 this]
    have j1: "mapE (py_index N1) (snd ns) = Inr (map ((!) s1) i1)" .
    from lawful_permute_compose [OF law ip u]
    have c: "index_permuted B q (map int (map ((!) s0) i0)) (map int (map ((!) s1) i1)) = Inr u" .
    from rw have "rewrap B x (Inr (tidied B u)) ns = Inr v"
      by (simp add: rewrap_eq x x'_def)
    with j0 j1 c show ?thesis
      unfolding permute_names_val_eq [OF typed] by (simp add: x)
  qed
  with tx' show ?thesis by blast
qed

lemma tensor_swaps:
  assumes law: "lawful_backend B" and sw: "swaps args args'"
  shows "list_all name_invariant args \<Longrightarrow> tensor B args = Inr x \<Longrightarrow>
         \<exists>x'. tensor B args' = Inr x'
           \<and> (\<forall>ns v. permute B x' (names_val ns) = Inr v \<longrightarrow> permute B x (names_val ns) = Inr v)"
  using sw
proof (induction arbitrary: x rule: swaps.induct)
  case (same xs)
  then show ?case by blast
next
  case (swap xs y z ys)
  from tensor_swap_step [OF law swap.prems] show ?case .
next
  case (step xs ys zs)
  from step.IH(1) [OF step.prems] obtain x1 where
    x1: "tensor B ys = Inr x1"
    and p1: "\<And>ns v. permute B x1 (names_val ns) = Inr v \<Longrightarrow> permute B x (names_val ns) = Inr v"
    by blast
  from swaps_set [OF step.hyps(1)] step.prems(1) have "list_all name_invariant ys"
    by (simp add: list_all_iff)
  from step.IH(2) [OF this x1] obtain x2 where
    x2: "tensor B zs = Inr x2"
    and p2: "\<And>ns v. permute B x2 (names_val ns) = Inr v \<Longrightarrow> permute B x1 (names_val ns) = Inr v"
    by blast
  from x2 p1 p2 show ?case by blast
qed

section \<open>Padding for two orders of the required names\<close>

lemma mapE_eq_map:
  "mapE f xs = Inr ys \<longleftrightarrow> (\<forall>x \<in> set xs. \<exists>y. f x = Inr y) \<and> ys = map (\<lambda>x. projr (f x)) xs"
  by (induction xs arbitrary: ys) (auto simp: bindE_eq_Inr)

lemma mapE_bindE:
  "bindE (mapE g xs) (mapE h) = Inr zs \<longleftrightarrow> mapE (\<lambda>x. bindE (g x) h) xs = Inr zs"
proof (induction xs arbitrary: zs)
  case Nil
  show ?case by auto
next
  case (Cons x xs)
  show ?case
  proof
    assume "bindE (mapE g (x # xs)) (mapE h) = Inr zs"
    then obtain y ys z zs' where "g x = Inr y" "h y = Inr z" "zs = z # zs'"
      and "mapE g xs = Inr ys" "mapE h ys = Inr zs'"
      by (auto simp: bindE_eq_Inr)
    with Cons.IH [of zs'] show "mapE (\<lambda>x. bindE (g x) h) (x # xs) = Inr zs"
      by (simp add: bindE_eq_Inr)
  next
    assume "mapE (\<lambda>x. bindE (g x) h) (x # xs) = Inr zs"
    then obtain y z zs' where g: "g x = Inr y" "h y = Inr z" "zs = z # zs'"
      and "mapE (\<lambda>x. bindE (g x) h) xs = Inr zs'"
      by (auto simp: bindE_eq_Inr)
    with Cons.IH [of zs'] obtain ys where "mapE g xs = Inr ys" "mapE h ys = Inr zs'"
      by (auto simp: bindE_eq_Inr)
    with g show "bindE (mapE g (x # xs)) (mapE h) = Inr zs"
      by simp
  qed
qed

lemma missing_dims_cong:
  assumes "set (fst M) = set (fst M')" and "set (snd M) = set (snd M')"
  shows "missing_dims M other tr name = missing_dims M' other tr name"
  using assms by (simp add: missing_dims_def)

lemma missing_mode_sound:
  assumes "missing_mode B k item = Inr m"
  shows "name_invariant m"
proof (cases k)
  case Oper
  with assms show ?thesis
    by (auto simp: missing_mode_def Let_def bindE_eq_Inr split: if_splits dest: NQobj_init_invariant)
next
  case State
  with assms show ?thesis
    by (auto simp: missing_mode_def Let_def bindE_eq_Inr split: if_splits dest: NQobj_init_invariant)
qed

lemma tensor_head_invariant:
  assumes law: "lawful_backend B" and t: "tensor B (x # ms) = Inr x1"
    and inv: "list_all name_invariant ms"
  shows "name_invariant x"
proof -
  from t obtain q k where q: "b_tensor B (map qobj (x # ms)) = Inr q"
    and i: "NQobj_init B q (names_val (concat (map (\<lambda>a. fst (names a)) (x # ms)),
                concat (map (\<lambda>a. snd (names a)) (x # ms)))) (kind_val k) = Inr x1"
    unfolding tensor_eq by blast
  from i have d: "distinct (fst (names x) @ concat (map (\<lambda>a. fst (names a)) ms))"
    "distinct (snd (names x) @ concat (map (\<lambda>a. snd (names a)) ms))"
    and l: "length (fst (names x) @ concat (map (\<lambda>a. fst (names a)) ms)) = length (fst (dims q))"
    "length (snd (names x) @ concat (map (\<lambda>a. snd (names a)) ms)) = length (snd (dims q))"
    by (simp_all add: NQobj_init_names_val_eq)
  from lawful_tensor_dims [OF law q]
  have dq: "length (fst (dims q)) = length (fst (dims (qobj x))) + row_modes (map qobj ms)"
    "length (snd (dims q)) = length (snd (dims (qobj x))) + col_modes (map qobj ms)"
    by (simp_all add: row_modes_def col_modes_def)
  from l dq row_modes_names [OF inv] col_modes_names [OF inv] d show ?thesis
    by (simp add: name_invariant_def)
qed

text \<open>One operand padded for two lists of required names with the same elements: the
  fillers are the same, their order can differ, and after a permutation by names the
  difference is gone.\<close>

lemma padded_two_orders:
  assumes law: "lawful_backend B"
    and s0: "set (fst req) = set (fst req')" and s1: "set (snd req) = set (snd req')"
    and p: "padded B x other req k = Inr x1"
  shows "\<exists>x1'. padded B x other req' k = Inr x1'
           \<and> (\<forall>ns v. permute B x1' (names_val ns) = Inr v \<longrightarrow> permute B x1 (names_val ns) = Inr v)"
proof -
  define M where "M = find_missing_names B (names x) req"
  define M' where "M' = find_missing_names B (names x) req'"
  define K where "K = fromkeys (set_order B (fst M @ snd M))"
  define K' where "K' = fromkeys (set_order B (fst M' @ snd M'))"
  define f where "f = (\<lambda>name. bindE (missing_dims M other False name) (missing_mode B k))"
  have m0: "set (fst M) = set (fst M')" and m1: "set (snd M) = set (snd M')"
    using s0 s1 by (simp_all add: M_def M'_def find_missing_names_def lawful_set_diff_order [OF law])
  have f': "f = (\<lambda>name. bindE (missing_dims M' other False name) (missing_mode B k))"
    unfolding f_def by (simp add: missing_dims_cong [OF m0 m1])
  have sk: "set K = set K'" using m0 m1 by (simp add: K_def K'_def lawful_set_order [OF law])
  have dk: "distinct K" "distinct K'" by (simp_all add: K_def K'_def)
  from p obtain md ms where "mapE (missing_dims M other False) K = Inr md"
    and "mapE (missing_mode B k) md = Inr ms" and t: "tensor B (x # ms) = Inr x1"
    unfolding padded_def find_missing_dict_def adding_missing_modes_def
      M_def [symmetric] K_def [symmetric] bindE_eq_Inr
    by blast
  then have ms: "mapE f K = Inr ms"
    unfolding f_def mapE_bindE [symmetric] by simp
  from ms have ret: "\<forall>n \<in> set K. \<exists>m. f n = Inr m" and msK: "ms = map (\<lambda>n. projr (f n)) K"
    by (simp_all add: mapE_eq_map)
  from ret sk have ms': "mapE f K' = Inr (map (\<lambda>n. projr (f n)) K')"
    by (simp add: mapE_eq_map)
  have inv_ms: "list_all name_invariant ms"
    unfolding list_all_iff
  proof
    fix m assume "m \<in> set ms"
    with msK obtain n where n: "n \<in> set K" and m: "m = projr (f n)" by auto
    from ret n obtain m' where m': "f n = Inr m'" by blast
    with m have "f n = Inr m" by simp
    then show "name_invariant m"
      by (auto simp: f_def bindE_eq_Inr dest: missing_mode_sound)
  qed
  from tensor_head_invariant [OF law t inv_ms] inv_ms
  have inv: "list_all name_invariant (x # ms)" by simp
  from swaps_distinct [OF dk sk] have "swaps (x # ms) (x # map (\<lambda>n. projr (f n)) K')"
    unfolding msK by (intro swaps_Cons swaps_map)
  from tensor_swaps [OF law this inv t] obtain x1' where
    t': "tensor B (x # map (\<lambda>n. projr (f n)) K') = Inr x1'"
    and pm: "\<forall>ns v. permute B x1' (names_val ns) = Inr v \<longrightarrow> permute B x1 (names_val ns) = Inr v"
    by blast
  from ms' obtain md' where "mapE (missing_dims M' other False) K' = Inr md'"
    and "mapE (missing_mode B k) md' = Inr (map (\<lambda>n. projr (f n)) K')"
    unfolding f' mapE_bindE [symmetric] bindE_eq_Inr by blast
  with t' have "padded B x other req' k = Inr x1'"
    unfolding padded_def find_missing_dict_def adding_missing_modes_def
      M'_def [symmetric] K'_def [symmetric]
    by simp
  with pm show ?thesis by blast
qed

section \<open>Both sums return and agree\<close>

text \<open>Both sums, \<open>b + a\<close> permuted to the names of \<open>a + b\<close>: the backend objects agree up
  to tidying, and the names are those of \<open>a + b\<close>.\<close>

lemma sums_agree:
  assumes law: "lawful_backend B"
    and ab: "NQobj_add B a (OpNQobj b) = Inr (RNQobj r)"
    and ba: "NQobj_add B b (OpNQobj a) = Inr (RNQobj r')"
    and pm: "permute B r' (names_val (names r)) = Inr r''"
  shows "NQobj_eq B r r'' \<and> names r'' = names r"
proof -
  let ?nms = "add_find_required_names a b"
  let ?nms' = "add_find_required_names b a"
  from NQobj_add_Inr [OF ab] obtain k a1 a2 b1 b2 where
    ka: "kind a = Some k"
    and a1: "padded B a b ?nms k = Inr a1" and a2: "permute B a1 (names_val ?nms) = Inr a2"
    and b1: "padded B b a ?nms k = Inr b1" and b2: "permute B b1 (names_val ?nms) = Inr b2"
    and sum: "b_add B (qobj a2) (qobj b2) = Inr (qobj r)" and nr: "names r = ?nms"
    by blast
  from NQobj_add_Inr [OF ba] obtain k' b1' b2' a1' a2' where
    ka': "kind a = Some k'"
    and b1': "padded B b a ?nms' k' = Inr b1'" and b2': "permute B b1' (names_val ?nms') = Inr b2'"
    and a1': "padded B a b ?nms' k' = Inr a1'" and a2': "permute B a1' (names_val ?nms') = Inr a2'"
    and sum': "b_add B (qobj b2') (qobj a2') = Inr (qobj r')" and nr': "names r' = ?nms'"
    by blast
  from ka ka' have k: "k' = k" by simp
  from padded_two_orders [OF law add_required_sets a1] obtain xa where
    xa: "padded B a b ?nms' k = Inr xa"
    and pxa: "\<forall>ns v. permute B xa (names_val ns) = Inr v \<longrightarrow> permute B a1 (names_val ns) = Inr v"
    by blast
  from xa a1' k have "xa = a1'" by simp
  with pxa [rule_format, of ?nms' a2'] a2'
  have a2p: "permute B a1 (names_val ?nms') = Inr a2'" by simp
  from padded_two_orders [OF law add_required_sets b1] obtain xb where
    xb: "padded B b a ?nms' k = Inr xb"
    and pxb: "\<forall>ns v. permute B xb (names_val ns) = Inr v \<longrightarrow> permute B b1 (names_val ns) = Inr v"
    by blast
  from xb b1' k have "xb = b1'" by simp
  with pxb [rule_format, of ?nms' b2'] b2'
  have b2p: "permute B b1 (names_val ?nms') = Inr b2'" by simp
  from pm nr have pm': "permute B r' (names_val ?nms) = Inr r''" by simp
  from permute_names_val [OF lawful_typed [OF law] pm'] nr' obtain r0 r1 u where
    r0: "mapE (py_index (fst ?nms')) (fst ?nms) = Inr r0"
    and r1: "mapE (py_index (snd ?nms')) (snd ?nms) = Inr r1"
    and u: "index_permuted B (qobj r') (map int r0) (map int r1) = Inr u"
    and q'': "qobj r'' = tidied B u" and n'': "names r'' = ?nms"
    by auto
  from lawful_permute_add [OF law sum' u] obtain pb pa where
    pb: "index_permuted B (qobj b2') (map int r0) (map int r1) = Inr pb"
    and pa: "index_permuted B (qobj a2') (map int r0) (map int r1) = Inr pa"
    and s: "b_add B pb pa = Inr u"
    by blast
  from operand_two_ways [OF law b2 b2p r0 r1 pb] have "pb = qobj b2" .
  moreover from operand_two_ways [OF law a2 a2p r0 r1 pa] have "pa = qobj a2" .
  ultimately have "b_add B (qobj b2) (qobj a2) = Inr u" using s by simp
  from lawful_add_commute [OF law this] sum have "u = qobj r" by simp
  with q'' have "qobj r'' = tidied B (qobj r)" by simp
  with lawful_eq_tidied [OF law, of "qobj r"] n'' nr show ?thesis
    by (simp add: NQobj_eq_def)
qed

text \<open>When \<open>a + b\<close> returns, so does \<open>b + a\<close>.\<close>

lemma NQobj_add_swap_returns:
  assumes law: "lawful_backend B"
    and ab: "NQobj_add B a (OpNQobj b) = Inr (RNQobj r)"
  shows "\<exists>r'. NQobj_add B b (OpNQobj a) = Inr (RNQobj r')"
proof -
  let ?nms = "add_find_required_names a b"
  let ?nms' = "add_find_required_names b a"
  from NQobj_add_Inr [OF ab] obtain k a1 a2 b1 b2 where
    ka: "kind a = Some k" and kb: "kind b = Some k"
    and a1: "padded B a b ?nms k = Inr a1" and a2: "permute B a1 (names_val ?nms) = Inr a2"
    and b1: "padded B b a ?nms k = Inr b1" and b2: "permute B b1 (names_val ?nms) = Inr b2"
    and sum: "b_add B (qobj a2) (qobj b2) = Inr (qobj r)"
    by blast
  have typed: "b_isoper B q \<or> b_isket B q \<or> b_isbra B q" for q
    using law by (rule lawful_typed)
  have s0: "set (fst ?nms') = set (fst ?nms)" and s1: "set (snd ?nms') = set (snd ?nms)"
    using add_required_sets [of a b] by simp_all
  from padded_two_orders [OF law add_required_sets a1] obtain a1' where
    a1': "padded B a b ?nms' k = Inr a1'" by blast
  from padded_two_orders [OF law add_required_sets a1'] obtain xa where
    "padded B a b ?nms k = Inr xa"
    and "\<forall>ns v. permute B xa (names_val ns) = Inr v \<longrightarrow> permute B a1' (names_val ns) = Inr v"
    by blast
  with a1 have pa': "\<forall>ns v. permute B a1 (names_val ns) = Inr v \<longrightarrow> permute B a1' (names_val ns) = Inr v"
    by simp
  note pa = pa' [rule_format]
  from padded_two_orders [OF law add_required_sets b1] obtain b1' where
    b1': "padded B b a ?nms' k = Inr b1'" by blast
  from padded_two_orders [OF law add_required_sets b1'] obtain xb where
    "padded B b a ?nms k = Inr xb"
    and "\<forall>ns v. permute B xb (names_val ns) = Inr v \<longrightarrow> permute B b1' (names_val ns) = Inr v"
    by blast
  with b1 have pb': "\<forall>ns v. permute B b1 (names_val ns) = Inr v \<longrightarrow> permute B b1' (names_val ns) = Inr v"
    by simp
  note pb = pb' [rule_format]
  from padded_sound [OF a1] ka have ia: "name_invariant a1" and ka1: "kind a1 = Some k" by simp_all
  from padded_sound [OF b1] kb have ib: "name_invariant b1" and kb1: "kind b1 = Some k" by simp_all
  from permute_names_val [OF typed a2] obtain sa0 sa1 where
    "mapE (py_index (fst (names a1))) (fst ?nms) = Inr sa0"
    "mapE (py_index (snd (names a1))) (snd ?nms) = Inr sa1"
    by blast
  then have suba: "set (fst ?nms') \<subseteq> set (fst (names a1))" "set (snd ?nms') \<subseteq> set (snd (names a1))"
    using s0 s1 by (auto dest: mapE_py_index_subset)
  from permute_names_val [OF typed b2] obtain sb0 sb1 where
    "mapE (py_index (fst (names b1))) (fst ?nms) = Inr sb0"
    "mapE (py_index (snd (names b1))) (snd ?nms) = Inr sb1"
    by blast
  then have subb: "set (fst ?nms') \<subseteq> set (fst (names b1))" "set (snd ?nms') \<subseteq> set (snd (names b1))"
    using s0 s1 by (auto dest: mapE_py_index_subset)
  from permute_names_val_returns [OF law ia ka1 distinct_add_find_required_names suba]
  obtain a2' where a2': "permute B a1 (names_val ?nms') = Inr a2'" by blast
  from permute_names_val_returns [OF law ib kb1 distinct_add_find_required_names subb]
  obtain b2' where b2': "permute B b1 (names_val ?nms') = Inr b2'" by blast
  from s0 have "set (fst ?nms') \<subseteq> set (fst ?nms)" by simp
  from mapE_py_index_returns [OF this] obtain r0 where
    r0: "mapE (py_index (fst ?nms)) (fst ?nms') = Inr r0" by blast
  from s1 have "set (snd ?nms') \<subseteq> set (snd ?nms)" by simp
  from mapE_py_index_returns [OF this] obtain r1 where
    r1: "mapE (py_index (snd ?nms)) (snd ?nms') = Inr r1" by blast
  from lawful_add_dims [OF law sum] have de: "dims (qobj a2) = dims (qobj b2)" by simp
  have dd: "dims (qobj b2') = dims (qobj a2')"
    unfolding permuted_dims_two_ways [OF law a2 a2' r0 r1]
      permuted_dims_two_ways [OF law b2 b2' r0 r1] de ..
  from lawful_add_returns [OF law dd] obtain s' where
    s': "b_add B (qobj b2') (qobj a2') = Inr s'" by blast
  from lawful_add_dims [OF law s'] have ds': "dims s' = dims (qobj b2')" by simp
  from permute_sound [OF b2'] kb1 have kb2': "kind b2' = Some k" and ib2': "name_invariant b2'"
    by simp_all
  from permute_names_val [OF typed b2'] have nb2': "names b2' = ?nms'" by blast
  from ib2' nb2' ds' have len:
    "length (fst ?nms') = length (fst (dims s'))" "length (snd ?nms') = length (snd (dims s'))"
    by (simp_all add: name_invariant_def)
  from rewrap_returns [OF kb2' distinct_add_find_required_names len] obtain r' where
    "rewrap B b2' (Inr s') ?nms' = Inr r'" by blast
  with s' have rw: "rewrap B b2' (b_add B (qobj b2') (qobj a2')) ?nms' = Inr r'" by simp
  from NQobj_add_types [OF ab] have ty: "b_type B (qobj b) = b_type B (qobj a)" by simp
  from NQobj_add_InrI [OF ty kb ka typed b1' pb [OF b2'] a1' pa [OF a2'] rw] show ?thesis by blast
qed

lemma NQobj_add_names:
  assumes "NQobj_add B a (OpNQobj b) = Inr (RNQobj r)"
  shows "names r = add_find_required_names a b \<and> name_invariant r \<and> (\<exists>k. kind r = Some k)"
proof -
  from assms obtain x q where rw: "rewrap B x q (add_find_required_names a b) = Inr r"
    by (auto simp: NQobj_add_def Let_def bindE_eq_Inr split: if_splits)
  from rewrap_sound [OF rw] show ?thesis by auto
qed

lemma sum_permute_returns:
  assumes law: "lawful_backend B"
    and ab: "NQobj_add B a (OpNQobj b) = Inr (RNQobj r)"
    and ba: "NQobj_add B b (OpNQobj a) = Inr (RNQobj r')"
  shows "\<exists>r''. permute B r' (names_val (names r)) = Inr r''"
proof -
  from NQobj_add_names [OF ab] have nr: "names r = add_find_required_names a b" by simp
  from NQobj_add_names [OF ba] obtain k where
    nr': "names r' = add_find_required_names b a" and inv: "name_invariant r'"
    and k: "kind r' = Some k" by blast
  have sub: "set (fst (names r)) \<subseteq> set (fst (names r'))" "set (snd (names r)) \<subseteq> set (snd (names r'))"
    unfolding nr nr' using add_required_sets [of a b] by simp_all
  have d: "distinct (fst (names r))" "distinct (snd (names r))"
    unfolding nr by (rule distinct_add_find_required_names)+
  from permute_names_val_returns [OF law inv k d sub] show ?thesis .
qed

section \<open>The sparse backend obeys the laws\<close>

lemma coo_backend_fields:
  "b_add coo_backend = cb_add"
  "b_index_permute coo_backend = cb_index_permute"
  "b_tidyup coo_backend = cb_tidyup"
  "b_eq coo_backend = cb_eq"
  "auto_tidyup coo_backend"
  "b_isket coo_backend q = (cb_type q = ''ket'')"
  "b_isbra coo_backend q = (cb_type q = ''bra'')"
  "b_isoper coo_backend q = (cb_type q = ''oper'')"
  by (simp_all add: coo_backend_def)

lemma in_range_nat: "in_range (map int idx) n \<longleftrightarrow> (\<forall>i \<in> set idx. i < n)"
  by (simp add: in_range_def list_all_iff)

lemma mapE_py_getitem_in_range:
  "in_range order (length xs) \<Longrightarrow> mapE (py_getitem xs) order = Inr (gather order xs)"
  by (induction order) (simp_all add: in_range_def gather_def py_getitem_def)

lemma index_permuted_coo:
  "index_permuted coo_backend q o0 o1 =
     (if in_range o0 (length (fst (dims q))) \<and> in_range o1 (length (snd (dims q))) then
        Inr \<lparr>data = image_mset (\<lambda>e. ((gather o0 (fst (fst e)), gather o1 (snd (fst e))), snd e)) (data q),
             dims = (gather o0 (fst (dims q)), gather o1 (snd (dims q)))\<rparr>
      else Inl (BackendError ''index out of range in cy_index_permute''))"
  by (simp add: index_permuted_def permute_manual_def coo_backend_fields cb_index_permute_def
        mapE_py_getitem_in_range)

lemma gather_compose:
  assumes "\<forall>i \<in> set r. i < length s"
  shows "gather (map int r) (gather (map int s) xs) = gather (map (\<lambda>k. int (s ! k)) r) xs"
  using assms by (simp add: gather_def)

lemma length_gather [simp]: "length (gather order xs) = length order"
  by (simp add: gather_def)

lemma nonzero_image:
  "nonzero (image_mset (\<lambda>e. (f (fst e), snd e)) d) = image_mset (\<lambda>e. (f (fst e), snd e)) (nonzero d)"
  by (simp add: nonzero_def filter_mset_image_mset comp_def)


lemma coo_backend_fields2:
  "b_tensor coo_backend = cb_tensor"
  "set_order coo_backend = table_order"
  "set_diff_order coo_backend = table_diff_order"
  by (simp_all add: coo_backend_def)

subsection \<open>The hash table enumerates a set\<close>

lemma set_map_filter_id: "set (List.map_filter id t) = {x. Some x \<in> set t}"
  by (induction t) (auto simp: List.map_filter_simps split: option.splits)

lemma find_Some_set: "find P xs = Some x \<Longrightarrow> x \<in> set xs \<and> P x"
  by (induction xs) (auto split: if_splits)

lemma table_add_elems: "{x. Some x \<in> set (table_add t y)} = insert y {x. Some x \<in> set t}"
proof (cases "Some y \<in> set t")
  case True
  then show ?thesis by (auto simp: table_add_def)
next
  case absent: False
  show ?thesis
  proof (cases "find (\<lambda>j. t ! j = None) (rotate (slot y (length t)) [0..<length t])")
    case None
    with absent show ?thesis by (auto simp: table_add_def)
  next
    case (Some j)
    then have "j \<in> set (rotate (slot y (length t)) [0..<length t])" and free: "t ! j = None"
      by (auto dest: find_Some_set)
    then have j: "j < length t" by simp
    have t: "t = take j t @ None # drop (Suc j) t"
      using id_take_nth_drop [OF j] free by simp
    have "set t = insert None (set (take j t) \<union> set (drop (Suc j) t))"
      by (subst t) simp
    then have "{x. Some x \<in> set (t[j := Some y])} = insert y {x. Some x \<in> set t}"
      by (auto simp: set_list_update [OF j])
    with absent Some show ?thesis by (simp add: table_add_def)
  qed
qed

lemma foldl_table_add_elems:
  "{x. Some x \<in> set (foldl table_add t xs)} = set xs \<union> {x. Some x \<in> set t}"
  by (induction xs arbitrary: t) (auto simp: table_add_elems)

lemma set_table_order: "set (table_order xs) = set xs"
  by (simp add: table_order_def set_map_filter_id foldl_table_add_elems)

lemma set_table_diff_order: "set (table_diff_order xs ys) = set xs - set ys"
  by (auto simp: table_diff_order_def set_table_order)

subsection \<open>Pairs of entries\<close>

lemma pairs_empty_left [simp]: "pairs {#} B = {#}"
  by (simp add: pairs_def)

lemma pairs_add_left: "pairs (add_mset a A) B = image_mset (Pair a) B + pairs A B"
  by (simp add: pairs_def)

lemma pairs_union_left: "pairs (X + Y) B = pairs X B + pairs Y B"
  by (simp add: pairs_def)

lemma pairs_add_right: "pairs A (add_mset b B) = image_mset (\<lambda>a. (a, b)) A + pairs A B"
  by (induction A) (simp_all add: pairs_add_left)

lemma pairs_empty_right [simp]: "pairs A {#} = {#}"
  by (induction A) (simp_all add: pairs_add_left)

lemma pairs_image_left:
  "pairs (image_mset h A) B = image_mset (\<lambda>ab. (h (fst ab), snd ab)) (pairs A B)"
  by (induction A) (simp_all add: pairs_add_left multiset.map_comp comp_def)

lemma pairs_commute: "pairs B C = image_mset prod.swap (pairs C B)"
  by (induction B) (simp_all add: pairs_add_left pairs_add_right multiset.map_comp comp_def)

lemma pairs_exchange:
  "pairs (pairs A B) C = image_mset (\<lambda>x. ((fst (fst x), snd x), snd (fst x))) (pairs (pairs A C) B)"
proof (induction A)
  case empty
  show ?case by simp
next
  case (add a A)
  have "pairs (image_mset (Pair a) B) C = image_mset (\<lambda>bc. ((a, fst bc), snd bc)) (pairs B C)"
    by (simp add: pairs_image_left)
  also have "\<dots> = image_mset (\<lambda>cb. ((a, snd cb), fst cb)) (pairs C B)"
    by (subst pairs_commute) (simp add: multiset.map_comp comp_def)
  also have "\<dots> = image_mset (\<lambda>x. ((fst (fst x), snd x), snd (fst x))) (pairs (image_mset (Pair a) C) B)"
    by (simp add: pairs_image_left multiset.map_comp comp_def)
  finally show ?case
    by (simp add: pairs_add_left pairs_union_left add)
qed

lemma in_pairs: "ee \<in># pairs A B \<longleftrightarrow> fst ee \<in># A \<and> snd ee \<in># B"
  by (cases ee, induction A) (auto simp: pairs_add_left)

lemma length_fit [simp]: "length (fit n xs) = n"
  by (simp add: fit_def)

lemma fit_same: "length xs = n \<Longrightarrow> fit n xs = xs"
  by (simp add: fit_def)

lemma cb_wf_kron: "cb_wf (kron p q)"
  by (auto simp: cb_wf_def kron_def kron_entry_def)

lemma dims_kron [simp]: "dims (kron p q) = (fst (dims p) @ fst (dims q), snd (dims p) @ snd (dims q))"
  by (simp add: kron_def)

lemma dims_remapped [simp]:
  "dims (remapped s0 s1 t) = (map ((!) (fst (dims t))) s0, map ((!) (snd (dims t))) s1)"
  by (simp add: remapped_def)

lemma gather_nat: "gather (map int s) xs = map ((!) xs) s"
  by (simp add: gather_def comp_def)

lemma index_permuted_coo_nat:
  assumes "list_all (\<lambda>i. i < length (fst (dims q))) s0" and "list_all (\<lambda>i. i < length (snd (dims q))) s1"
  shows "index_permuted coo_backend q (map int s0) (map int s1) = Inr (remapped s0 s1 q)"
  using assms by (simp add: index_permuted_coo in_range_nat list_all_iff gather_nat remapped_def)

subsection \<open>Tensor products and remapping\<close>

lemma map_nth_append_left:
  "list_all (\<lambda>i. i < length A) s \<Longrightarrow> map ((!) (A @ C)) s = map ((!) A) s"
  by (induction s) (simp_all add: nth_append)

lemma map_nth_append_right: "map ((!) (A @ M)) [length A..<length A + length M] = M"
  using map_nth_block [of A M "[]"] by simp

lemma map_nth_remap_append:
  assumes "list_all (\<lambda>i. i < length A) s" and "length M = m"
  shows "map ((!) (A @ M)) (s @ [length A..<length A + m]) = map ((!) A) s @ M"
  using assms map_nth_append_right [of A M] by (simp add: map_nth_append_left)

lemma kron_remapped:
  assumes wf: "cb_wf t"
    and r0: "list_all (\<lambda>i. i < length (fst (dims t))) s0"
    and r1: "list_all (\<lambda>i. i < length (snd (dims t))) s1"
  shows "kron (remapped s0 s1 t) w =
           remapped (s0 @ [length (fst (dims t))..<length (fst (dims t)) + length (fst (dims w))])
                    (s1 @ [length (snd (dims t))..<length (snd (dims t)) + length (snd (dims w))])
                    (kron t w)"
proof -
  let ?e0 = "[length (fst (dims t))..<length (fst (dims t)) + length (fst (dims w))]"
  let ?e1 = "[length (snd (dims t))..<length (snd (dims t)) + length (snd (dims w))]"
  let ?g = "\<lambda>e. ((map ((!) (fst (fst e))) s0, map ((!) (snd (fst e))) s1), snd e)"
  let ?G = "\<lambda>e. ((map ((!) (fst (fst e))) (s0 @ ?e0), map ((!) (snd (fst e))) (s1 @ ?e1)), snd e)"
  have d: "dims (kron (remapped s0 s1 t) w) = dims (remapped (s0 @ ?e0) (s1 @ ?e1) (kron t w))"
    using map_nth_remap_append [OF r0, of "fst (dims w)"] map_nth_remap_append [OF r1, of "snd (dims w)"]
    by simp
  have "kron_entry (dims (remapped s0 s1 t)) (dims w) (?g (fst ee), snd ee)
          = ?G (kron_entry (dims t) (dims w) ee)"
    if "ee \<in># pairs (data t) (data w)" for ee
  proof -
    from that have "fst ee \<in># data t" by (simp add: in_pairs)
    with wf have l: "length (fst (fst (fst ee))) = length (fst (dims t))"
      "length (snd (fst (fst ee))) = length (snd (dims t))"
      by (simp_all add: cb_wf_def)
    have a: "map ((!) (fst (fst (fst ee)) @ fit (length (fst (dims w))) (fst (fst (snd ee))))) (s0 @ ?e0)
             = map ((!) (fst (fst (fst ee)))) s0 @ fit (length (fst (dims w))) (fst (fst (snd ee)))"
      using map_nth_remap_append [of "fst (fst (fst ee))" s0 "fit (length (fst (dims w))) (fst (fst (snd ee)))"]
        r0 l by simp
    have b: "map ((!) (snd (fst (fst ee)) @ fit (length (snd (dims w))) (snd (fst (snd ee))))) (s1 @ ?e1)
             = map ((!) (snd (fst (fst ee)))) s1 @ fit (length (snd (dims w))) (snd (fst (snd ee)))"
      using map_nth_remap_append [of "snd (fst (fst ee))" s1 "fit (length (snd (dims w))) (snd (fst (snd ee)))"]
        r1 l by simp
    show ?thesis
      unfolding kron_entry_def using a b l by (simp add: fit_same)
  qed
  then have "image_mset (\<lambda>ee. kron_entry (dims (remapped s0 s1 t)) (dims w) (?g (fst ee), snd ee))
               (pairs (data t) (data w))
             = image_mset (\<lambda>ee. ?G (kron_entry (dims t) (dims w) ee)) (pairs (data t) (data w))"
    by (intro image_mset_cong)
  then have "data (kron (remapped s0 s1 t) w) = data (remapped (s0 @ ?e0) (s1 @ ?e1) (kron t w))"
    by (simp add: kron_def remapped_def pairs_image_left multiset.map_comp comp_def)
  with d show ?thesis by simp
qed

lemma block_swap_rows:
  assumes "length X = n" and "length Y = ly" and "length Z = lz"
  shows "map ((!) (X @ Y @ Z)) (block_swap n ly lz 0) = X @ Z @ Y"
  using map_nth_block_swap [of X Y Z "[]"] assms by simp

lemma kron_swap:
  "kron (kron p z) y =
     remapped (block_swap (length (fst (dims p))) (length (fst (dims y))) (length (fst (dims z))) 0)
              (block_swap (length (snd (dims p))) (length (snd (dims y))) (length (snd (dims z))) 0)
              (kron (kron p y) z)"
proof -
  let ?s0 = "block_swap (length (fst (dims p))) (length (fst (dims y))) (length (fst (dims z))) 0"
  let ?s1 = "block_swap (length (snd (dims p))) (length (snd (dims y))) (length (snd (dims z))) 0"
  let ?R = "\<lambda>e. ((map ((!) (fst (fst e))) ?s0, map ((!) (snd (fst e))) ?s1), snd e)"
  have d: "dims (kron (kron p z) y) = dims (remapped ?s0 ?s1 (kron (kron p y) z))"
    by (simp add: block_swap_rows)
  have pt: "kron_entry (dims (kron p z)) (dims y) (kron_entry (dims p) (dims z) (fst x), snd x)
          = ?R (kron_entry (dims (kron p y)) (dims z)
                  (kron_entry (dims p) (dims y) (fst (fst x), snd x), snd (fst x)))" for x
    unfolding kron_entry_def
    by (simp add: fit_same block_swap_rows mult.assoc mult.left_commute mult.commute)
  have "data (kron (kron p z) y)
        = image_mset (\<lambda>x. kron_entry (dims (kron p z)) (dims y) (kron_entry (dims p) (dims z) (fst x), snd x))
            (pairs (pairs (data p) (data z)) (data y))"
    by (simp add: kron_def pairs_image_left multiset.map_comp comp_def)
  also have "\<dots> = image_mset (\<lambda>x. ?R (kron_entry (dims (kron p y)) (dims z)
                  (kron_entry (dims p) (dims y) (fst (fst x), snd x), snd (fst x))))
            (pairs (pairs (data p) (data z)) (data y))"
    by (simp only: pt)
  also have "\<dots> = data (remapped ?s0 ?s1 (kron (kron p y) z))"
    by (subst (2) kron_def, subst (2) kron_def)
       (simp add: remapped_def pairs_image_left multiset.map_comp comp_def
          pairs_exchange [of "data p" "data y" "data z"])
  finally show ?thesis using d by simp
qed


lemma kron_swap_first:
  "kron z y =
     remapped (block_swap 0 (length (fst (dims y))) (length (fst (dims z))) 0)
              (block_swap 0 (length (snd (dims y))) (length (snd (dims z))) 0)
              (kron y z)"
proof -
  let ?s0 = "block_swap 0 (length (fst (dims y))) (length (fst (dims z))) 0"
  let ?s1 = "block_swap 0 (length (snd (dims y))) (length (snd (dims z))) 0"
  let ?R = "\<lambda>e. ((map ((!) (fst (fst e))) ?s0, map ((!) (snd (fst e))) ?s1), snd e)"
  have bs: "map ((!) (Y @ Z)) (block_swap 0 ly lz 0) = Z @ Y" if "length Y = ly" "length Z = lz"
    for Y Z :: "nat list" and ly lz
    using block_swap_rows [of "[]" 0 Y ly Z lz] that by simp
  have d: "dims (kron z y) = dims (remapped ?s0 ?s1 (kron y z))"
    by (simp add: bs)
  have pt: "kron_entry (dims z) (dims y) x = ?R (kron_entry (dims y) (dims z) (prod.swap x))" for x
    unfolding kron_entry_def by (simp add: bs mult.commute)
  have "image_mset (kron_entry (dims z) (dims y)) (pairs (data z) (data y))
        = image_mset (\<lambda>x. ?R (kron_entry (dims y) (dims z) (prod.swap x))) (pairs (data z) (data y))"
    by (rule image_mset_cong) (rule pt)
  then have "data (kron z y) = image_mset (\<lambda>x. ?R (kron_entry (dims y) (dims z) (prod.swap x)))
                            (pairs (data z) (data y))"
    by (simp add: kron_def)
  also have "\<dots> = data (remapped ?s0 ?s1 (kron y z))"
    by (simp add: kron_def remapped_def multiset.map_comp comp_def pairs_commute [of "data y" "data z"])
  finally show ?thesis using d by simp
qed

lemma foldl_kron_dims:
  "dims (foldl kron q ws) =
     (fst (dims q) @ concat (map (\<lambda>q. fst (dims q)) ws), snd (dims q) @ concat (map (\<lambda>q. snd (dims q)) ws))"
  by (induction ws arbitrary: q) simp_all

lemma cb_tensor_dims:
  assumes "cb_tensor qs = Inr t"
  shows "dims t = (concat (map (\<lambda>q. fst (dims q)) qs), concat (map (\<lambda>q. snd (dims q)) qs))"
  using assms by (cases qs) (auto simp: cb_tensor_def foldl_kron_dims)

lemma cb_wf_foldl_kron: "cb_wf t \<Longrightarrow> cb_wf (foldl kron t ws)"
  by (induction ws arbitrary: t) (simp_all add: cb_wf_kron)

lemma foldl_kron_remapped:
  assumes "cb_wf t"
    and "list_all (\<lambda>i. i < length (fst (dims t))) s0"
    and "list_all (\<lambda>i. i < length (snd (dims t))) s1"
  shows "foldl kron (remapped s0 s1 t) ws =
           remapped (s0 @ [length (fst (dims t))..<length (fst (dims t)) + row_modes ws])
                    (s1 @ [length (snd (dims t))..<length (snd (dims t)) + col_modes ws])
                    (foldl kron t ws)"
  using assms
proof (induction ws arbitrary: t s0 s1)
  case Nil
  then show ?case by (simp add: row_modes_def col_modes_def)
next
  case (Cons w ws)
  let ?n0 = "length (fst (dims t))" and ?n1 = "length (snd (dims t))"
  let ?l0 = "length (fst (dims w))" and ?l1 = "length (snd (dims w))"
  have r0: "list_all (\<lambda>i. i < length (fst (dims (kron t w)))) (s0 @ [?n0..<?n0 + ?l0])"
    using Cons.prems(2) by (auto simp: list_all_iff)
  have r1: "list_all (\<lambda>i. i < length (snd (dims (kron t w)))) (s1 @ [?n1..<?n1 + ?l1])"
    using Cons.prems(3) by (auto simp: list_all_iff)
  have u0: "[?n0..<?n0 + ?l0] @ [?n0 + ?l0..<?n0 + ?l0 + row_modes ws] = [?n0..<?n0 + row_modes (w # ws)]"
    using upt_add_eq_append [of ?n0 "?n0 + ?l0" "row_modes ws"]
    by (simp add: row_modes_def add.assoc)
  have u1: "[?n1..<?n1 + ?l1] @ [?n1 + ?l1..<?n1 + ?l1 + col_modes ws] = [?n1..<?n1 + col_modes (w # ws)]"
    using upt_add_eq_append [of ?n1 "?n1 + ?l1" "col_modes ws"]
    by (simp add: col_modes_def add.assoc)
  have "foldl kron (remapped s0 s1 t) (w # ws)
        = foldl kron (remapped (s0 @ [?n0..<?n0 + ?l0]) (s1 @ [?n1..<?n1 + ?l1]) (kron t w)) ws"
    by (simp add: kron_remapped [OF Cons.prems])
  also have "\<dots> = remapped ((s0 @ [?n0..<?n0 + ?l0]) @ [?n0 + ?l0..<?n0 + ?l0 + row_modes ws])
                      ((s1 @ [?n1..<?n1 + ?l1]) @ [?n1 + ?l1..<?n1 + ?l1 + col_modes ws])
                      (foldl kron (kron t w) ws)"
    using Cons.IH [OF cb_wf_kron r0 r1] by simp
  finally show ?case using u0 u1 by simp
qed

lemma block_swap_tail:
  "block_swap n ly lz 0 @ [n + ly + lz..<n + ly + lz + m] = block_swap n ly lz m"
  by (simp add: block_swap_def)

lemma cb_tensor_swap:
  assumes t: "cb_tensor (xs @ y # z # ys) = Inr t"
  shows "\<exists>t'. cb_tensor (xs @ z # y # ys) = Inr t'
                \<and> index_permuted coo_backend t
                     (map int (block_swap (row_modes xs) (row_modes [y]) (row_modes [z]) (row_modes ys)))
                     (map int (block_swap (col_modes xs) (col_modes [y]) (col_modes [z]) (col_modes ys)))
                   = Inr t'"
proof -
  let ?s0 = "block_swap (row_modes xs) (row_modes [y]) (row_modes [z]) (row_modes ys)"
  let ?s1 = "block_swap (col_modes xs) (col_modes [y]) (col_modes [z]) (col_modes ys)"
  have ly: "row_modes [y] = length (fst (dims y))" "col_modes [y] = length (snd (dims y))"
    "row_modes [z] = length (fst (dims z))" "col_modes [z] = length (snd (dims z))"
    by (simp_all add: row_modes_def col_modes_def)
  from cb_tensor_dims [OF t]
  have dt: "length (fst (dims t)) = row_modes xs + row_modes [y] + row_modes [z] + row_modes ys"
    "length (snd (dims t)) = col_modes xs + col_modes [y] + col_modes [z] + col_modes ys"
    by (simp_all add: row_modes_def col_modes_def)
  have rg: "list_all (\<lambda>i. i < length (fst (dims t))) ?s0" "list_all (\<lambda>i. i < length (snd (dims t))) ?s1"
    unfolding dt by (rule block_swap_range)+
  have "foldl kron q' (ws @ z # y # ys) = remapped ?s0 ?s1 (foldl kron q' (ws @ y # z # ys))"
    if xs: "xs = q' # ws" for q' ws
  proof -
    let ?p = "foldl kron q' ws"
    have n: "length (fst (dims ?p)) = row_modes xs" "length (snd (dims ?p)) = col_modes xs"
      by (simp_all add: foldl_kron_dims xs row_modes_def col_modes_def)
    let ?b0 = "block_swap (row_modes xs) (row_modes [y]) (row_modes [z]) 0"
    let ?b1 = "block_swap (col_modes xs) (col_modes [y]) (col_modes [z]) 0"
    let ?u = "kron (kron ?p y) z"
    have sw: "kron (kron ?p z) y = remapped ?b0 ?b1 ?u"
      using kron_swap [of ?p z y] by (simp add: n ly)
    have l: "length (fst (dims ?u)) = row_modes xs + row_modes [y] + row_modes [z]"
      "length (snd (dims ?u)) = col_modes xs + col_modes [y] + col_modes [z]"
      by (simp_all add: n ly)
    have r: "list_all (\<lambda>i. i < length (fst (dims ?u))) ?b0" "list_all (\<lambda>i. i < length (snd (dims ?u))) ?b1"
      unfolding l using block_swap_range [of _ _ _ 0] by simp_all
    have "foldl kron q' (ws @ z # y # ys) = foldl kron (remapped ?b0 ?b1 ?u) ys"
      by (simp add: sw)
    also have "\<dots> = remapped (?b0 @ [length (fst (dims ?u))..<length (fst (dims ?u)) + row_modes ys])
                        (?b1 @ [length (snd (dims ?u))..<length (snd (dims ?u)) + col_modes ys])
                        (foldl kron ?u ys)"
      by (rule foldl_kron_remapped [OF cb_wf_kron r])
    finally show ?thesis unfolding l block_swap_tail by simp
  qed
  moreover have "foldl kron z (y # ys) = remapped ?s0 ?s1 (foldl kron y (z # ys))" if xs: "xs = []"
  proof -
    let ?b0 = "block_swap 0 (row_modes [y]) (row_modes [z]) 0"
    let ?b1 = "block_swap 0 (col_modes [y]) (col_modes [z]) 0"
    let ?u = "kron y z"
    have sw: "kron z y = remapped ?b0 ?b1 ?u"
      using kron_swap_first [of z y] by (simp add: ly)
    have l: "length (fst (dims ?u)) = 0 + row_modes [y] + row_modes [z]"
      "length (snd (dims ?u)) = 0 + col_modes [y] + col_modes [z]"
      by (simp_all add: ly)
    have r: "list_all (\<lambda>i. i < length (fst (dims ?u))) ?b0" "list_all (\<lambda>i. i < length (snd (dims ?u))) ?b1"
      unfolding l using block_swap_range [of 0 _ _ 0] by simp_all
    have "foldl kron z (y # ys) = foldl kron (remapped ?b0 ?b1 ?u) ys"
      by (simp add: sw)
    also have "\<dots> = remapped (?b0 @ [length (fst (dims ?u))..<length (fst (dims ?u)) + row_modes ys])
                        (?b1 @ [length (snd (dims ?u))..<length (snd (dims ?u)) + col_modes ys])
                        (foldl kron ?u ys)"
      by (rule foldl_kron_remapped [OF cb_wf_kron r])
    finally show ?thesis unfolding l block_swap_tail by (simp add: xs row_modes_def col_modes_def)
  qed
  ultimately have "cb_tensor (xs @ z # y # ys) = Inr (remapped ?s0 ?s1 t)"
    using t by (cases xs) (auto simp: cb_tensor_def)
  with index_permuted_coo_nat [OF rg] show ?thesis by simp
qed

lemma lawful_coo_backend: "lawful_backend coo_backend"
proof -
  have 1: "\<forall>q. b_isket coo_backend q \<or> b_isbra coo_backend q \<or> b_isoper coo_backend q"
    by (simp add: coo_backend_fields cb_type_def)
  have 2: "\<forall>p q s. b_add coo_backend p q = Inr s \<longrightarrow> b_add coo_backend q p = Inr s"
    by (auto simp: coo_backend_fields cb_add_def add.commute split: if_splits)
  have 3: "\<forall>p q s o0 o1 t.
            b_add coo_backend p q = Inr s \<longrightarrow> index_permuted coo_backend s o0 o1 = Inr t \<longrightarrow>
            (\<exists>p' q'. index_permuted coo_backend p o0 o1 = Inr p'
                     \<and> index_permuted coo_backend q o0 o1 = Inr q'
                     \<and> b_add coo_backend p' q' = Inr t)"
  proof (intro allI impI)
    fix p q s :: "coo Qobj" and o0 o1 t
    assume a: "b_add coo_backend p q = Inr s" and t: "index_permuted coo_backend s o0 o1 = Inr t"
    from a have d: "dims p = dims q" and s: "s = \<lparr>data = data p + data q, dims = dims p\<rparr>"
      by (auto simp: coo_backend_fields cb_add_def split: if_splits)
    from t s have r: "in_range o0 (length (fst (dims p)))" "in_range o1 (length (snd (dims p)))"
      by (auto simp: index_permuted_coo split: if_splits)
    with t s d show "\<exists>p' q'. index_permuted coo_backend p o0 o1 = Inr p'
                     \<and> index_permuted coo_backend q o0 o1 = Inr q'
                     \<and> b_add coo_backend p' q' = Inr t"
      by (auto simp: index_permuted_coo coo_backend_fields cb_add_def)
  qed
  have 4: "\<forall>q s0 s1 r0 r1 q1 q2.
            index_permuted coo_backend q (map int s0) (map int s1) = Inr q1 \<longrightarrow>
            index_permuted coo_backend q1 (map int r0) (map int r1) = Inr q2 \<longrightarrow>
            index_permuted coo_backend q (map int (map ((!) s0) r0)) (map int (map ((!) s1) r1)) = Inr q2"
  proof (intro allI impI)
    fix q q1 q2 :: "coo Qobj" and s0 s1 r0 r1
    assume h1: "index_permuted coo_backend q (map int s0) (map int s1) = Inr q1"
      and h2: "index_permuted coo_backend q1 (map int r0) (map int r1) = Inr q2"
    from h1 have s: "\<forall>i \<in> set s0. i < length (fst (dims q))" "\<forall>i \<in> set s1. i < length (snd (dims q))"
      and q1: "q1 = \<lparr>data = image_mset (\<lambda>e. ((gather (map int s0) (fst (fst e)),
                                              gather (map int s1) (snd (fst e))), snd e)) (data q),
                    dims = (gather (map int s0) (fst (dims q)), gather (map int s1) (snd (dims q)))\<rparr>"
      by (auto simp: index_permuted_coo in_range_nat split: if_splits)
    from h2 q1 have r: "\<forall>i \<in> set r0. i < length s0" "\<forall>i \<in> set r1. i < length s1"
      and q2: "q2 = \<lparr>data = image_mset (\<lambda>e. ((gather (map int r0) (fst (fst e)),
                                              gather (map int r1) (snd (fst e))), snd e)) (data q1),
                    dims = (gather (map int r0) (fst (dims q1)), gather (map int r1) (snd (dims q1)))\<rparr>"
      by (auto simp: index_permuted_coo in_range_nat split: if_splits)
    from s r have c: "in_range (map int (map ((!) s0) r0)) (length (fst (dims q)))"
      "in_range (map int (map ((!) s1) r1)) (length (snd (dims q)))"
      unfolding in_range_nat by auto
    have "q2 = \<lparr>data = image_mset (\<lambda>e. ((gather (map int (map ((!) s0) r0)) (fst (fst e)),
                                         gather (map int (map ((!) s1) r1)) (snd (fst e))), snd e)) (data q),
               dims = (gather (map int (map ((!) s0) r0)) (fst (dims q)),
                       gather (map int (map ((!) s1) r1)) (snd (dims q)))\<rparr>"
      unfolding q2 q1 by (simp add: multiset.map_comp comp_def gather_compose r)
    with c show "index_permuted coo_backend q (map int (map ((!) s0) r0)) (map int (map ((!) s1) r1)) = Inr q2"
      by (simp add: index_permuted_coo)
  qed
  have 5: "auto_tidyup coo_backend \<longrightarrow>
            (\<forall>q o0 o1 u. index_permuted coo_backend (b_tidyup coo_backend q) o0 o1 = Inr u \<longrightarrow>
               (\<exists>v. index_permuted coo_backend q o0 o1 = Inr v \<and> u = b_tidyup coo_backend v))"
  proof (intro allI impI)
    fix q :: "coo Qobj" and o0 o1 u
    assume "index_permuted coo_backend (b_tidyup coo_backend q) o0 o1 = Inr u"
    then show "\<exists>v. index_permuted coo_backend q o0 o1 = Inr v \<and> u = b_tidyup coo_backend v"
      using nonzero_image [of "\<lambda>k. (gather o0 (fst k), gather o1 (snd k))" "data q"]
      by (auto simp: index_permuted_coo coo_backend_fields cb_tidyup_def split: if_splits)
  qed
  have 6: "\<forall>q. b_eq coo_backend q q" by (simp add: coo_backend_fields cb_eq_def)
  have 7: "auto_tidyup coo_backend \<longrightarrow> (\<forall>q. b_eq coo_backend q (b_tidyup coo_backend q))"
    by (simp add: coo_backend_fields cb_eq_def cb_tidyup_def nonzero_def filter_filter_mset)
  have 8: "\<forall>p q s. b_add coo_backend p q = Inr s \<longrightarrow> dims p = dims q \<and> dims s = dims p"
    by (auto simp: coo_backend_fields cb_add_def split: if_splits)
  have 9: "\<forall>p q. dims p = dims q \<longrightarrow> (\<exists>s. b_add coo_backend p q = Inr s)"
    by (simp add: coo_backend_fields cb_add_def)
  have 10: "\<forall>d ds0 o0 ds1 o1.
            list_all (\<lambda>i. i < length ds0) o0 \<longrightarrow> list_all (\<lambda>i. i < length ds1) o1 \<longrightarrow>
            (\<exists>d'. b_index_permute coo_backend d ds0 (map int o0) ds1 (map int o1) = Inr d')"
    by (simp add: coo_backend_fields cb_index_permute_def in_range_nat list_all_iff)
  have 11: "\<forall>q. dims (b_tidyup coo_backend q) = dims q"
    by (simp add: coo_backend_fields cb_tidyup_def)
  have 12: "\<forall>qs t. b_tensor coo_backend qs = Inr t \<longrightarrow>
            dims t = (concat (map (\<lambda>q. fst (dims q)) qs), concat (map (\<lambda>q. snd (dims q)) qs))"
    using cb_tensor_dims by (simp add: coo_backend_fields2)
  have 13: "\<forall>xs y z ys t. b_tensor coo_backend (xs @ y # z # ys) = Inr t \<longrightarrow>
            (\<exists>t'. b_tensor coo_backend (xs @ z # y # ys) = Inr t'
                \<and> index_permuted coo_backend t
                     (map int (block_swap (row_modes xs) (row_modes [y]) (row_modes [z]) (row_modes ys)))
                     (map int (block_swap (col_modes xs) (col_modes [y]) (col_modes [z]) (col_modes ys)))
                   = Inr t')"
    using cb_tensor_swap by (simp add: coo_backend_fields2)
  have 14: "\<forall>xs. set (set_order coo_backend xs) = set xs"
    by (simp add: coo_backend_fields2 set_table_order)
  have 15: "\<forall>xs ys. set (set_diff_order coo_backend xs ys) = set xs - set ys"
    by (simp add: coo_backend_fields2 set_table_diff_order)
  from 1 2 8 9 3 4 10 12 13 14 15 11 5 6 7 show ?thesis unfolding lawful_backend_def by (intro conjI)
qed

section \<open>Claims\<close>

subsection \<open>C1: order of the overlap names in multiplication\<close>

text \<open>
  C1, as the source has it: for two named tensors that satisfy the name invariant, the
  overlap list of \<^verbatim>\<open>_mul_find_required_names\<close> is built from the column names of the left
  operand whose column dimension is not 1 (\<open>nl\<close>) and the row names of the right operand
  whose row dimension is not 1 (\<open>nr\<close>). When the right operand has kind state and the left
  operand has kind oper, it is the right operand's names followed by the left operand's;
  in every other combination of kinds it is the left operand's followed by the right
  operand's. In both cases duplicates are removed and the first occurrence is kept.
\<close>

theorem mul_overlap_order:
  assumes "name_invariant Q_left" and "name_invariant Q_right"
    and "kind Q_left = Some kl" and "kind Q_right = Some kr"
  shows "mul_overlap Q_left Q_right =
           Inr (let nl = map fst (filter (\<lambda>nd. snd nd \<noteq> 1)
                           (zip (snd (names Q_left)) (snd (dims (qobj Q_left)))));
                    nr = map fst (filter (\<lambda>nd. snd nd \<noteq> 1)
                           (zip (fst (names Q_right)) (fst (dims (qobj Q_right)))))
                in if kr = State \<and> kl = Oper then fromkeys (nr @ nl) else fromkeys (nl @ nr))"
  using assms(3,4)
  by (simp add: mul_overlap_def get_kind_def Let_def
        names_Q_left_for_overlap_eq [OF assms(1)] names_Q_right_for_overlap_eq [OF assms(2)])

text \<open>The theorem at an oper times a state (right names first) and at an oper times an
  oper (left names first). The left operand has the column name \<open>B\<close> of dimension 1, the
  state has the row name \<open>C\<close> of dimension 1, and the name \<open>A\<close> is shared.\<close>

theorem mul_overlap_order_witness:
  "name_invariant opA_ketB \<and> name_invariant ketBAC \<and> name_invariant opBA
   \<and> mul_overlap opA_ketB ketBAC = Inr [''B'', ''A'']
   \<and> mul_overlap opA_ketB opBA = Inr [''A'', ''B'']"
proof -
  have i: "name_invariant opA_ketB" "name_invariant ketBAC" "name_invariant opBA"
    by (simp_all add: name_invariant_def opA_ketB_def ketBAC_def opBA_def)
  have k: "kind opA_ketB = Some Oper" "kind ketBAC = Some State" "kind opBA = Some Oper"
    by (simp_all add: opA_ketB_def ketBAC_def opBA_def)
  have 1: "mul_overlap opA_ketB ketBAC = Inr [''B'', ''A'']"
    using mul_overlap_order [OF i(1) i(2) k(1) k(2)]
    by (simp add: opA_ketB_def ketBAC_def)
  have 2: "mul_overlap opA_ketB opBA = Inr [''A'', ''B'']"
    using mul_overlap_order [OF i(1) i(3) k(1) k(3)]
    by (simp add: opA_ketB_def opBA_def)
  from i 1 2 show ?thesis by (intro conjI)
qed

text \<open>The order the claim states fails in both cases: for the oper times the state the
  overlap is \<open>[B, A]\<close>, not left-then-right \<open>[A, B]\<close>; for the oper times the oper it is
  \<open>[A, B]\<close>, not right-then-left \<open>[B, A]\<close>.\<close>

theorem mul_overlap_claimed_order_counterexample:
  "kind ketBAC = Some State \<and> kind opA_ketB = Some Oper
   \<and> names_Q_left_for_overlap opA_ketB = Inr [''A'']
   \<and> names_Q_right_for_overlap ketBAC = Inr [''B'', ''A'']
   \<and> mul_overlap opA_ketB ketBAC = Inr [''B'', ''A'']
   \<and> mul_overlap opA_ketB ketBAC \<noteq> Inr (fromkeys ([''A''] @ [''B'', ''A'']))
   \<and> kind opBA = Some Oper
   \<and> names_Q_right_for_overlap opBA = Inr [''B'', ''A'']
   \<and> mul_overlap opA_ketB opBA = Inr [''A'', ''B'']
   \<and> mul_overlap opA_ketB opBA \<noteq> Inr (fromkeys ([''B'', ''A''] @ [''A'']))"
  by code_simp

subsection \<open>C2: partial trace of an object that is not square\<close>

text \<open>
  C2 states that \<^verbatim>\<open>ptrace\<close> raises when the row and column dims differ or the row and
  column names differ. The source builds the two ValueErrors without raising them, so
  the call goes on: for the 2 x 2 operator with row name \<open>A\<close> and column name \<open>B\<close>, and
  for the ket on \<open>A\<close> (dims \<open>[2]\<close> and \<open>[1]\<close>), \<^verbatim>\<open>ptrace(['A'])\<close> returns a named tensor
  (\<open>\<sigma>\<^sub>x\<close> named \<open>A\<close> on both axes, and the projector on level 1).
\<close>

theorem ptrace_returns_on_asymmetric_input:
  "fst (names opAB) \<noteq> snd (names opAB)
   \<and> ptrace coo_backend opAB (PList [PStr ''A'']) True = Inr opA
   \<and> fst (dims (qobj ketA)) \<noteq> snd (dims (qobj ketA))
   \<and> ptrace coo_backend ketA (PList [PStr ''A'']) True = Inr projA"
  by code_simp

subsection \<open>C3: the name invariant\<close>

text \<open>
  C3: every named tensor that the constructor, \<^verbatim>\<open>+\<close>, \<^verbatim>\<open>*\<close> (with a named tensor or a
  number, from the left or the right), negation, power, \<^verbatim>\<open>dag\<close>, \<^verbatim>\<open>trans\<close>, \<^verbatim>\<open>proj\<close>,
  \<^verbatim>\<open>unit\<close>, \<^verbatim>\<open>ptrace\<close>, \<^verbatim>\<open>permute\<close>, \<^verbatim>\<open>expand\<close>, \<^verbatim>\<open>expm\<close>, \<^verbatim>\<open>tensor\<close> or \<^verbatim>\<open>copy\<close> returns has
  pairwise distinct names on each axis and as many names as dimensions on each axis.
  \<^verbatim>\<open>expand\<close> can return its receiver, and \<^verbatim>\<open>rename\<close> edits its receiver: both keep
  the invariant of the receiver.
\<close>

theorem name_invariant_preserved:
  "(\<forall>q nms k r. NQobj_init B q nms k = Inr r \<longrightarrow> name_invariant r)
   \<and> (\<forall>nms k r. NQobj_init_from B self nms k = Inr r \<longrightarrow> name_invariant r)
   \<and> (\<forall>other r. NQobj_add B self other = Inr (RNQobj r) \<longrightarrow> name_invariant r)
   \<and> (\<forall>other r. NQobj_mul B self other = Inr (RNQobj r) \<longrightarrow> name_invariant r)
   \<and> (\<forall>other r. NQobj_rmul B self other = Inr (RNQobj r) \<longrightarrow> name_invariant r)
   \<and> (\<forall>r. NQobj_neg B self = Inr r \<longrightarrow> name_invariant r)
   \<and> (\<forall>n m r. NQobj_pow B self n m = Inr r \<longrightarrow> name_invariant r)
   \<and> (\<forall>r. dag B self = Inr r \<longrightarrow> name_invariant r)
   \<and> (\<forall>r. trans_op B self = Inr r \<longrightarrow> name_invariant r)
   \<and> (\<forall>r. proj B self = Inr r \<longrightarrow> name_invariant r)
   \<and> (\<forall>args r. unit_op B self args = Inr r \<longrightarrow> name_invariant r)
   \<and> (\<forall>sel keep r. ptrace B self sel keep = Inr r \<longrightarrow> name_invariant r)
   \<and> (\<forall>order r. permute B self order = Inr r \<longrightarrow> name_invariant r)
   \<and> (\<forall>r. name_invariant self \<longrightarrow> expand B self = Inr r \<longrightarrow> name_invariant r)
   \<and> (\<forall>r. expm B self = Inr r \<longrightarrow> name_invariant r)
   \<and> (\<forall>args r. tensor B args = Inr r \<longrightarrow> name_invariant r)
   \<and> (\<forall>r. copy B self = Inr r \<longrightarrow> name_invariant r)
   \<and> (\<forall>name new_name. name_invariant self \<longrightarrow> name_invariant (snd (rename self name new_name)))"
proof -
  have c1: "\<forall>q nms k r. NQobj_init B q nms k = Inr r \<longrightarrow> name_invariant r"
    using NQobj_init_invariant by blast
  have c2: "\<forall>nms k r. NQobj_init_from B self nms k = Inr r \<longrightarrow> name_invariant r"
    unfolding NQobj_init_from_def using NQobj_init_invariant by blast
  have c3: "\<forall>other r. NQobj_add B self other = Inr (RNQobj r) \<longrightarrow> name_invariant r"
    using add_invariant by blast
  have c4: "\<forall>other r. NQobj_mul B self other = Inr (RNQobj r) \<longrightarrow> name_invariant r"
    using mul_invariant by blast
  have c5: "\<forall>other r. NQobj_rmul B self other = Inr (RNQobj r) \<longrightarrow> name_invariant r"
    using rmul_invariant by blast
  have c6: "\<forall>r. NQobj_neg B self = Inr r \<longrightarrow> name_invariant r"
    unfolding NQobj_neg_def using rewrap_invariant by blast
  have c7: "\<forall>n m r. NQobj_pow B self n m = Inr r \<longrightarrow> name_invariant r"
    unfolding NQobj_pow_def using rewrap_invariant by blast
  have c8: "\<forall>r. dag B self = Inr r \<longrightarrow> name_invariant r"
    unfolding dag_def using rewrap_invariant by blast
  have c9: "\<forall>r. trans_op B self = Inr r \<longrightarrow> name_invariant r"
    unfolding trans_op_def using rewrap_invariant by blast
  have c10: "\<forall>r. proj B self = Inr r \<longrightarrow> name_invariant r"
    unfolding proj_def bindE_eq_Inr using NQobj_init_invariant by blast
  have c11: "\<forall>args r. unit_op B self args = Inr r \<longrightarrow> name_invariant r"
    unfolding unit_op_def using rewrap_invariant by blast
  have c12: "\<forall>sel keep r. ptrace B self sel keep = Inr r \<longrightarrow> name_invariant r"
    using ptrace_invariant by blast
  have c13: "\<forall>order r. permute B self order = Inr r \<longrightarrow> name_invariant r"
    using permute_invariant by blast
  have c14: "\<forall>r. name_invariant self \<longrightarrow> expand B self = Inr r \<longrightarrow> name_invariant r"
    using expand_invariant by blast
  have c15: "\<forall>r. expm B self = Inr r \<longrightarrow> name_invariant r"
    using expm_invariant by blast
  have c16: "\<forall>args r. tensor B args = Inr r \<longrightarrow> name_invariant r"
    using tensor_any_sound by blast
  have c17: "\<forall>r. copy B self = Inr r \<longrightarrow> name_invariant r"
    unfolding copy_def using rewrap_invariant by blast
  have c18: "\<forall>name new_name. name_invariant self \<longrightarrow>
               name_invariant (snd (rename self name new_name))"
    using rename_invariant by blast
  show ?thesis
    by (intro conjI) (fact c1 c2 c3 c4 c5 c6 c7 c8 c9 c10 c11 c12 c13 c14 c15 c16 c17 c18)+
qed

text \<open>The theorem at the product of the operators on \<open>A\<close> and \<open>B\<close>, at the expansion of
  the operator with row \<open>A\<close> and column \<open>B\<close>, and at a rename.\<close>

theorem name_invariant_preserved_witness:
  "NQobj_mul coo_backend opA (OpNQobj opB) = Inr (RNQobj opA_times_opB)
   \<and> name_invariant opA_times_opB
   \<and> name_invariant opAB
   \<and> expand coo_backend opAB = Inr opAB_expanded
   \<and> name_invariant opAB_expanded
   \<and> name_invariant (snd (rename opAB ''A'' ''C''))"
proof -
  have m: "NQobj_mul coo_backend opA (OpNQobj opB) = Inr (RNQobj opA_times_opB)" by code_simp
  have e: "expand coo_backend opAB = Inr opAB_expanded" by code_simp
  have i: "name_invariant opAB" by (simp add: name_invariant_def opAB_def sigma_x_def)
  have t1: "\<forall>other r. NQobj_mul coo_backend opA other = Inr (RNQobj r) \<longrightarrow> name_invariant r"
    using name_invariant_preserved [of coo_backend opA] by (elim conjE)
  have t2: "\<forall>r. name_invariant opAB \<longrightarrow> expand coo_backend opAB = Inr r \<longrightarrow> name_invariant r"
    using name_invariant_preserved [of coo_backend opAB] by (elim conjE)
  have t3: "\<forall>name new_name. name_invariant opAB \<longrightarrow>
               name_invariant (snd (rename opAB name new_name))"
    using name_invariant_preserved [of coo_backend opAB] by (elim conjE)
  from t1 m have r1: "name_invariant opA_times_opB" by blast
  from t2 e i have r2: "name_invariant opAB_expanded" by blast
  from t3 i have r3: "name_invariant (snd (rename opAB ''A'' ''C''))" by blast
  from m r1 i e r2 r3 show ?thesis by (intro conjI)
qed

subsection \<open>C4: addition commutes up to the order of the names\<close>

text \<open>
  C4: for a backend and a runtime that obey the laws of \<open>lawful_backend\<close>, whenever
  \<open>a + b\<close> returns a named tensor \<open>r\<close>, \<open>b + a\<close> returns a named tensor \<open>r'\<close>, permuting
  \<open>r'\<close> to the names of \<open>r\<close> returns a named tensor \<open>r''\<close>, \<open>r == r''\<close> holds (\<^verbatim>\<open>__eq__\<close>:
  equal for the backend and equal name lists), and the name lists of \<open>r''\<close> are those of
  \<open>r\<close>. That \<open>a + b\<close> returns a named tensor includes that \<open>a\<close> and \<open>b\<close> have the same
  type and the same kind. The two sums may iterate over their sets of missing names in
  two different orders and so pad an operand with the same fillers in two orders.
\<close>

theorem add_commutes_up_to_permute:
  assumes law: "lawful_backend B"
    and ab: "NQobj_add B a (OpNQobj b) = Inr (RNQobj r)"
  shows "\<exists>r' r''. NQobj_add B b (OpNQobj a) = Inr (RNQobj r')
           \<and> permute B r' (names_val (names r)) = Inr r''
           \<and> NQobj_eq B r r'' \<and> names r'' = names r"
proof -
  from NQobj_add_swap_returns [OF law ab] obtain r' where
    ba: "NQobj_add B b (OpNQobj a) = Inr (RNQobj r')" by blast
  from sum_permute_returns [OF law ab ba] obtain r'' where
    pm: "permute B r' (names_val (names r)) = Inr r''" by blast
  from sums_agree [OF law ab ba pm] ba pm show ?thesis by blast
qed

text \<open>The theorem at \<open>\<sigma>\<^sub>x\<close> on \<open>G\<close> and the operator on \<open>O\<close> and \<open>W\<close>, over the sparse backend
  and its hash table. In \<open>a + b\<close> the operand \<open>a\<close> is padded to the names \<open>[G, O, W]\<close>, in
  \<open>b + a\<close> to the names \<open>[G, W, O]\<close>. \<open>b + a\<close> has the names \<open>[O, W, G]\<close>, and permuted to
  \<open>[G, O, W]\<close> it is \<open>a + b\<close>, entry by entry.\<close>

theorem add_commutes_up_to_permute_witness:
  "NQobj_add coo_backend opG (OpNQobj opOW) = Inr (RNQobj opG_plus_opOW)
   \<and> bindE (padded coo_backend opG opOW (add_find_required_names opG opOW) Oper) (\<lambda>x. Inr (names x))
       = Inr ([''G'', ''O'', ''W''], [''G'', ''O'', ''W''])
   \<and> bindE (padded coo_backend opG opOW (add_find_required_names opOW opG) Oper) (\<lambda>x. Inr (names x))
       = Inr ([''G'', ''W'', ''O''], [''G'', ''W'', ''O''])
   \<and> NQobj_add coo_backend opOW (OpNQobj opG) = Inr (RNQobj opOW_plus_opG)
   \<and> permute coo_backend opOW_plus_opG (names_val (names opG_plus_opOW)) = Inr opG_plus_opOW
   \<and> (\<exists>r''. permute coo_backend opOW_plus_opG (names_val (names opG_plus_opOW)) = Inr r''
          \<and> NQobj_eq coo_backend opG_plus_opOW r'' \<and> names r'' = names opG_plus_opOW)"
proof -
  have ab: "NQobj_add coo_backend opG (OpNQobj opOW) = Inr (RNQobj opG_plus_opOW)" by code_simp
  have ba: "NQobj_add coo_backend opOW (OpNQobj opG) = Inr (RNQobj opOW_plus_opG)" by code_simp
  have pm: "permute coo_backend opOW_plus_opG (names_val (names opG_plus_opOW)) = Inr opG_plus_opOW"
    by code_simp
  have p1: "bindE (padded coo_backend opG opOW (add_find_required_names opG opOW) Oper) (\<lambda>x. Inr (names x))
       = Inr ([''G'', ''O'', ''W''], [''G'', ''O'', ''W''])" by code_simp
  have p2: "bindE (padded coo_backend opG opOW (add_find_required_names opOW opG) Oper) (\<lambda>x. Inr (names x))
       = Inr ([''G'', ''W'', ''O''], [''G'', ''W'', ''O''])" by code_simp
  from add_commutes_up_to_permute [OF lawful_coo_backend ab] obtain r' r'' where
    "NQobj_add coo_backend opOW (OpNQobj opG) = Inr (RNQobj r')"
    "permute coo_backend r' (names_val (names opG_plus_opOW)) = Inr r''"
    "NQobj_eq coo_backend opG_plus_opOW r''" "names r'' = names opG_plus_opOW"
    by blast
  with ba have e: "\<exists>r''. permute coo_backend opOW_plus_opG (names_val (names opG_plus_opOW)) = Inr r''
          \<and> NQobj_eq coo_backend opG_plus_opOW r'' \<and> names r'' = names opG_plus_opOW"
    by simp
  from ab p1 p2 ba pm e show ?thesis by (intro conjI)
qed

subsection \<open>C5: a product of shape (1, 1)\<close>

text \<open>
  C5: when the backend product of the two aligned operands has shape \<open>(1, 1)\<close>,
  \<^verbatim>\<open>__mul__\<close> returns that backend object itself, a plain \<^verbatim>\<open>Qobj\<close> without names and
  without kind, and not a named tensor.
\<close>

theorem mul_scalar_is_plain_Qobj:
  assumes "mul_aligned B self other = Inr al"
    and "b_mul B (qobj (fst al)) (qobj (fst (snd al))) = Inr Qobj_result"
    and "b_shape B Qobj_result = (1, 1)"
  shows "NQobj_mul B self (OpNQobj other) = Inr (RQobj Qobj_result)"
  using assms by (simp add: NQobj_mul_def Let_def)

text \<open>The theorem at the bra of level 1 of \<open>A\<close> times the ket of level 1 of \<open>A\<close>: the 1 x 1
  object with entry 1.\<close>

theorem mul_scalar_is_plain_Qobj_witness:
  "NQobj_mul coo_backend braA (OpNQobj ketA) =
     Inr (RQobj \<lparr>data = mset [(([0], [0]), 1)], dims = ([1], [1])\<rparr>)"
proof -
  have al: "mul_aligned coo_backend braA ketA =
              Inr (braA, ketA, ([''A''], [''A'']), ([''A''], [''A'']))"
    by code_simp
  have m: "b_mul coo_backend (qobj (fst (braA, ketA, ([''A''], [''A'']), ([''A''], [''A'']))))
             (qobj (fst (snd (braA, ketA, ([''A''], [''A'']), ([''A''], [''A''])))))
           = Inr \<lparr>data = mset [(([0], [0]), 1)], dims = ([1], [1])\<rparr>"
    by code_simp
  have s: "b_shape coo_backend \<lparr>data = mset [(([0], [0]), 1)], dims = ([1], [1])\<rparr> = (1, 1)"
    by code_simp
  show ?thesis by (rule mul_scalar_is_plain_Qobj [OF al m s])
qed

subsection \<open>C6: the kind of a product\<close>

text \<open>
  C6: when \<^verbatim>\<open>__mul__\<close> of two named tensors returns a named tensor (the product is not
  of shape \<open>(1, 1)\<close>), both operands have a kind, and the kind of the result is oper when
  both are oper, oper when both are state, and state otherwise.
\<close>

theorem mul_result_kind:
  assumes "NQobj_mul B self (OpNQobj other) = Inr (RNQobj r)"
  shows "\<exists>ks ko. kind self = Some ks \<and> kind other = Some ko
           \<and> kind r = Some (if ks = Oper \<and> ko = Oper then Oper
                            else if ks = State \<and> ko = State then Oper
                            else State)"
proof -
  from assms obtain al Qobj_result nms ks ko where
    al: "mul_aligned B self other = Inr al"
    and ks: "get_kind (fst al) = Inr ks" and ko: "get_kind (fst (snd al)) = Inr ko"
    and i: "NQobj_init B Qobj_result (names_val nms) (kind_val (mul_kind ks ko)) = Inr r"
    by (auto simp: NQobj_mul_def Let_def bindE_eq_Inr split: if_splits)
  from mul_aligned_kinds [OF al] ks ko
  have "kind self = Some ks" "kind other = Some ko" by (auto simp: get_kind_eq_Inr)
  with NQobj_init_kind_val [OF i] show ?thesis by (auto simp: mul_kind_def)
qed

text \<open>The theorem at \<open>\<sigma>\<^sub>x\<close> times the ket of level 1 (an oper times a state: the ket of
  level 0, a state) and at the ket times the bra of level 1 (two states: the projector,
  an oper).\<close>

theorem mul_result_kind_witness:
  "NQobj_mul coo_backend opA (OpNQobj ketA) = Inr (RNQobj ketA0)
   \<and> kind opA = Some Oper \<and> kind ketA = Some State \<and> kind ketA0 = Some State
   \<and> NQobj_mul coo_backend ketA (OpNQobj braA) = Inr (RNQobj ketA_times_braA)
   \<and> kind braA = Some State \<and> kind ketA_times_braA = Some Oper"
proof -
  have m: "NQobj_mul coo_backend opA (OpNQobj ketA) = Inr (RNQobj ketA0)" by code_simp
  have m2: "NQobj_mul coo_backend ketA (OpNQobj braA) = Inr (RNQobj ketA_times_braA)"
    by code_simp
  from mul_result_kind [OF m] mul_result_kind [OF m2] m m2 show ?thesis
    by (auto simp: opA_def ketA_def braA_def)
qed

subsection \<open>C7: permuting by a flat list of names\<close>

text \<open>
  C7 states that permuting by names and permuting back gives the object again. For the
  2 x 3 operator named \<open>A\<close> on both axes, \<^verbatim>\<open>permute(['A'])\<close>, the identity permutation
  given as a flat list, raises TypeError: both axes carry the same names, so the list
  becomes the flat position list \<open>[0]\<close>, which \<^verbatim>\<open>_permute2\<close> refuses for an oper whose
  row and column dims differ. The same permutation given as a pair of lists returns the
  object.
\<close>

theorem permute_flat_names_rectangular:
  "permute coo_backend rectA (PList [PStr ''A'']) =
     Inl (TypeError ''Order should be a list of int or a list of two list with int.'')
   \<and> permute coo_backend rectA (PList [PList [PStr ''A''], PList [PStr ''A'']]) = Inr rectA"
  by code_simp

subsection \<open>C8: errors of rename\<close>




subsection \<open>C9: equality does not read the kind\<close>

text \<open>
  C9: when the backend objects of two named tensors are equal for the backend and
  their name lists are equal, \<^verbatim>\<open>==\<close> is true, whatever the two kinds are, also when one
  is oper and the other is state.
\<close>

theorem eq_ignores_kind:
  assumes "b_eq B (qobj x) (qobj y)" and "names x = names y"
  shows "NQobj_eq B x y \<and> NQobj_eq B (x\<lparr>kind := Some Oper\<rparr>) (y\<lparr>kind := Some State\<rparr>)"
  using assms by (simp add: NQobj_eq_def)

text \<open>The theorem at the operator \<open>A\<close> and the same object with kind state.\<close>

theorem eq_ignores_kind_witness:
  "NQobj_eq coo_backend opA (opA\<lparr>kind := Some State\<rparr>)"
proof -
  have 1: "b_eq coo_backend (qobj opA) (qobj (opA\<lparr>kind := Some State\<rparr>))" by code_simp
  have 2: "names opA = names (opA\<lparr>kind := Some State\<rparr>)" by simp
  from eq_ignores_kind [OF 1 2] show ?thesis by simp
qed

subsection \<open>C10: adding something that is not a named tensor\<close>

text \<open>
  C10: for a right operand that is not a named tensor (a number, a plain backend
  object, or any other value), \<^verbatim>\<open>__add__\<close> returns \<^verbatim>\<open>None\<close>: it raises nothing, calls
  no backend operation and does not return \<^verbatim>\<open>NotImplemented\<close>.
\<close>

theorem add_non_NQobj_returns_None:
  "NQobj_add B x (OpNumber c) = Inr RNone
   \<and> NQobj_add B x (OpQobj q) = Inr RNone
   \<and> NQobj_add B x (OpOther v) = Inr RNone"
  by (simp add: NQobj_add_def)

end
